theory Spec2Isabelle
  imports Main
begin

section \<open>JavaScript values, results and strings\<close>

text \<open>
  A JavaScript value as the translator sees it. \<open>Undefined\<close> is what a lookup of a
  missing property or a missing path of \<open>getIn\<close> gives; \<open>Null\<close> is the value
  \<open>null\<close>. Numbers are the integers (sequence numbers, element counters and indices
  are integers in every op the code builds). A string is a list of 8-bit characters.
\<close>

datatype jsval =
    Undefined
  | Null
  | JBool bool
  | JNum int
  | JStr string
  | JArr "jsval list"
  | JObj "(string \<times> jsval) list"

text \<open>
  What a call does: it returns a value, it throws, or it does not return
  (\<open>getPath\<close> has a \<open>while\<close> loop that follows inbound references, the skip list's
  \<open>keyOf\<close> does not end on \<open>NaN\<close>; the history replay is run with fuel). \<open>Outside\<close>
  marks a call that goes on with a value outside the values above: a number that is not
  a safe integer, or a function or object that a plain object inherits from
  \<open>Object.prototype\<close>. Nothing is said about what such a call does.
\<close>

datatype error =
    RangeError string
  | Error string
  | TypeError

datatype 'a outcome = Return 'a | Throw error | NoReturn | Outside

fun bind :: "'a outcome \<Rightarrow> ('a \<Rightarrow> 'b outcome) \<Rightarrow> 'b outcome" where
  "bind (Return x) f = f x"
| "bind (Throw e) f = Throw e"
| "bind NoReturn f = NoReturn"
| "bind Outside f = Outside"

definition ROOT_ID :: string where
  "ROOT_ID = ''00000000-0000-0000-0000-000000000000''"

definition CAMBRIA_MAGIC_ACTOR :: string where
  "CAMBRIA_MAGIC_ACTOR = ''0000000000''"

definition MAGIC_UUID :: string where
  "MAGIC_UUID = ''f1bb7a0b-2d26-48ca-aaa3-92c63bbb5c50''"

text \<open>\<open>s.split(c)\<close> for a one-character separator, and \<open>xs.join(c)\<close>.\<close>

fun split :: "char \<Rightarrow> string \<Rightarrow> string list" where
  "split c [] = [[]]"
| "split c (x # xs) =
     (if x = c then [] # split c xs
      else (case split c xs of [] \<Rightarrow> [[x]] | w # ws \<Rightarrow> (x # w) # ws))"

fun join :: "char \<Rightarrow> string list \<Rightarrow> string" where
  "join c [] = []"
| "join c [x] = x"
| "join c (x # y # ys) = x @ c # join c (y # ys)"

text \<open>\<open>String(n)\<close> for an integer \<open>n\<close>.\<close>

definition digit_char :: "nat \<Rightarrow> char" where
  "digit_char d = ''0123456789'' ! d"

fun show_nat :: "nat \<Rightarrow> string" where
  "show_nat n = (if n < 10 then [digit_char n] else show_nat (n div 10) @ [digit_char (n mod 10)])"

declare show_nat.simps [simp del]

definition show_int :: "int \<Rightarrow> string" where
  "show_int i = (if i < 0 then CHR ''-'' # show_nat (nat (- i)) else show_nat (nat i))"

text \<open>
  A JavaScript number is a double. The integers of magnitude below \<open>2^53\<close> are the safe
  ones: a double holds each of them exactly, \<open>n + 1\<close> is exact on them, and \<open>String(n)\<close>
  and a template string print them as their decimal digits, which is \<open>show_int\<close>.
\<close>

definition safe :: "int \<Rightarrow> bool" where
  "safe n = (- (2 ^ 53) < n \<and> n < 2 ^ 53)"

text \<open>
  \<open>parseInt(s, 10)\<close>: leading white space is skipped (among the 8-bit characters: tab,
  line feed, vertical tab, form feed, carriage return, space and the no-break space), a
  sign is read, then the longest run of decimal digits; \<open>None\<close> is \<open>NaN\<close> (no digit was
  read). The result here is the integer the digits denote; JavaScript rounds it to a
  double, which is the same number when it is safe.
\<close>

definition is_space :: "char \<Rightarrow> bool" where
  "is_space c = (c \<in> set [CHR 0x09, CHR 0x0A, CHR 0x0B, CHR 0x0C, CHR 0x0D, CHR '' '', CHR 0xA0])"

definition digit_val :: "char \<Rightarrow> nat option" where
  "digit_val = map_of
     [(CHR ''0'', 0), (CHR ''1'', 1), (CHR ''2'', 2), (CHR ''3'', 3), (CHR ''4'', 4),
      (CHR ''5'', 5), (CHR ''6'', 6), (CHR ''7'', 7), (CHR ''8'', 8), (CHR ''9'', 9)]"

fun parse_digits :: "nat \<Rightarrow> string \<Rightarrow> nat" where
  "parse_digits acc [] = acc"
| "parse_digits acc (c # cs) =
     (case digit_val c of None \<Rightarrow> acc | Some d \<Rightarrow> parse_digits (10 * acc + d) cs)"

definition parse_unsigned :: "string \<Rightarrow> nat option" where
  "parse_unsigned s =
     (case s of [] \<Rightarrow> None
      | c # cs \<Rightarrow> (case digit_val c of None \<Rightarrow> None | Some d \<Rightarrow> Some (parse_digits 0 s)))"

definition parseInt :: "string \<Rightarrow> int option" where
  "parseInt s =
     (case dropWhile is_space s of
        [] \<Rightarrow> None
      | c # cs \<Rightarrow>
          if c = CHR ''-'' then map_option (\<lambda>n. - int n) (parse_unsigned cs)
          else if c = CHR ''+'' then map_option int (parse_unsigned cs)
          else map_option int (parse_unsigned (c # cs)))"

text \<open>
  The element cache, the path cache and the \<open>elem\<close> counters of an instance are plain
  objects used as maps. A lookup \<open>o[k]\<close> that finds no own property \<open>k\<close> goes on to
  \<open>Object.prototype\<close>; what it finds under one of the names below is a function (under
  \<open>__proto__\<close> the prototype object), which is truthy. An assignment \<open>o[k] = v\<close> makes an
  own property, except that \<open>o['__proto__'] = v\<close> does nothing when \<open>v\<close> is a string.
\<close>

definition Object_prototype :: "string list" where
  "Object_prototype =
     [''constructor'', ''__defineGetter__'', ''__defineSetter__'', ''hasOwnProperty'',
      ''__lookupGetter__'', ''__lookupSetter__'', ''isPrototypeOf'', ''propertyIsEnumerable'',
      ''toString'', ''valueOf'', ''__proto__'', ''toLocaleString'']"

section \<open>Ops, changes, patches\<close>

datatype action = Set | Del | Ins | Link | Inc | MakeMap | MakeList | MakeText | MakeTable

text \<open>
  An op is an object with optional fields: \<open>key\<close> and \<open>elem\<close> are \<open>None\<close> when the
  property is missing, \<open>val\<close> is \<open>Undefined\<close> then. \<open>obj\<close> is an object id (a string);
  \<open>patchToOps\<close> can also put \<open>null\<close> there.
\<close>

record op =
  action :: action
  obj :: jsval
  key :: "string option"
  val :: jsval
  elem :: "int option"

type_synonym clock = "string \<rightharpoonup> int"

record change =
  actor :: string
  seq :: int
  deps :: clock
  message :: string
  ops :: "op list"

text \<open>A JSON Patch operation of the lens library: \<open>{op, path, value}\<close>.\<close>

record patchop =
  pop :: string
  path :: string
  pvalue :: jsval

text \<open>The backend's patch: \<open>{diffs, clock, deps}\<close>; \<open>clock\<close> and \<open>deps\<close> may be missing.\<close>

record apatch =
  diffs :: "jsval list"
  pclock :: "clock option"
  pdeps :: "clock option"

section \<open>The backend state, as the resolver reads it\<close>

text \<open>
  The translator reads the backend state at \<open>opSet.byObject[id]\<close>: \<open>_init.action\<close>,
  \<open>_keys[key][0].value\<close>, \<open>_elemIds\<close> and \<open>_inbound\<close> (the references to the object;
  \<open>first()\<close> is the head of the list here). \<open>_elemIds\<close> is the backend's skip list, the
  sequence of the element ids of a list with their values, read by \<open>indexOf\<close>, \<open>keyOf\<close>
  and \<open>getValue\<close>; the backend gives one to the objects made by \<open>makeList\<close> and
  \<open>makeText\<close> only, so it is \<open>None\<close> on a map and on the root. The value of a list
  element is a link \<open>{obj: id}\<close> or a primitive. The ids in a skip list are distinct and
  not empty; where a sequence here repeats an id, its first entry is the one read.
\<close>

record objrec =
  init_action :: "action option"
  keys :: "string \<Rightarrow> jsval list"
  elemIds :: "(string \<times> jsval) list option"
  inbound :: "(string \<times> string) list"

text \<open>
  The rest of the backend state (its own clock, queue and history) is not read by the
  translator; it is kept as one value.
\<close>

record backend_state =
  opSet :: "string \<rightharpoonup> objrec"
  internals :: jsval

definition byObject :: "backend_state \<Rightarrow> jsval \<Rightarrow> objrec option" where
  "byObject st i = (case i of JStr s \<Rightarrow> opSet st s | _ \<Rightarrow> None)"

datatype ObjectType = list_t | object_t

definition getObjType :: "backend_state \<Rightarrow> jsval \<Rightarrow> ObjectType" where
  "getObjType st objId =
     (case byObject st objId of
        None \<Rightarrow> object_t
      | Some r \<Rightarrow>
          if init_action r = Some MakeList \<or> init_action r = Some MakeText then list_t
          else object_t)"

definition getMapValue :: "backend_state \<Rightarrow> jsval \<Rightarrow> string \<Rightarrow> jsval" where
  "getMapValue st ob k =
     (case byObject st ob of
        None \<Rightarrow> Undefined
      | Some r \<Rightarrow> (case keys r k of [] \<Rightarrow> Undefined | v # _ \<Rightarrow> v))"

text \<open>\<open>state.getIn(['opSet', 'byObject', objId, '_elemIds'])\<close>; \<open>None\<close> is \<open>undefined\<close>.\<close>

definition elemIds_of :: "backend_state \<Rightarrow> jsval \<Rightarrow> (string \<times> jsval) list option" where
  "elemIds_of st objId = (case byObject st objId of None \<Rightarrow> None | Some r \<Rightarrow> elemIds r)"

text \<open>
  The three methods of the skip list that the translator calls. \<open>indexOf(key)\<close> is the
  position of the id, and \<open>-1\<close> when the key is empty or not there.
\<close>

fun index_of :: "string \<Rightarrow> (string \<times> jsval) list \<Rightarrow> int" where
  "index_of k [] = -1"
| "index_of k (e # es) =
     (if fst e = k then 0 else (let i = index_of k es in if i < 0 then -1 else i + 1))"

definition SkipList_indexOf :: "string \<Rightarrow> (string \<times> jsval) list \<Rightarrow> int" where
  "SkipList_indexOf k es = (if k = [] then -1 else index_of k es)"

text \<open>
  \<open>keyOf(index)\<close> counts a negative index from the end (\<open>index + length\<close>) and gives
  \<open>null\<close> (\<open>None\<close>) for an index that is then still outside the sequence. On \<open>NaN\<close>
  (the index \<open>None\<close>) neither test applies and the walk along the list never meets the
  index: the call does not return. A list has fewer than \<open>2^53\<close> elements, so the
  rounding of a parsed index to a double changes nothing here.
\<close>

definition SkipList_keyOf :: "int option \<Rightarrow> (string \<times> jsval) list \<Rightarrow> string option outcome" where
  "SkipList_keyOf index es =
     (case index of
        None \<Rightarrow> NoReturn
      | Some i \<Rightarrow>
          (let j = (if i < 0 then i + int (length es) else i)
           in if j < 0 \<or> int (length es) \<le> j then Return None
              else Return (Some (fst (es ! nat j)))))"

text \<open>
  \<open>getValue(key)\<close> throws a \<open>RangeError\<close> unless the key is a non-empty string
  (\<open>None\<close> is the key \<open>null\<close>); it gives \<open>undefined\<close> for a key that is not in the list.
\<close>

definition SkipList_getValue :: "string option \<Rightarrow> (string \<times> jsval) list \<Rightarrow> jsval outcome" where
  "SkipList_getValue k es =
     (case k of
        None \<Rightarrow> Throw (RangeError ''Key must be a nonempty string'')
      | Some s \<Rightarrow>
          if s = [] then Throw (RangeError ''Key must be a nonempty string'')
          else Return (case map_of es s of None \<Rightarrow> Undefined | Some v \<Rightarrow> v))"

text \<open>
  A method call on \<open>_elemIds\<close> throws a \<open>TypeError\<close> when the object has none. The index
  of \<open>findElemOfIndex\<close> is a parsed number, \<open>None\<close> when it is \<open>NaN\<close>.
\<close>

definition findIndexOfElem :: "backend_state \<Rightarrow> jsval \<Rightarrow> string \<Rightarrow> int outcome" where
  "findIndexOfElem st objId insertKey =
     (if insertKey = ''_head'' then Return (-1)
      else (case elemIds_of st objId of
              None \<Rightarrow> Throw TypeError
            | Some es \<Rightarrow> Return (SkipList_indexOf insertKey es)))"

definition findElemOfIndex ::
  "backend_state \<Rightarrow> jsval \<Rightarrow> int option \<Rightarrow> string option outcome" where
  "findElemOfIndex st objId index =
     (if index = Some (-1) then Return (Some ''_head'')
      else (case elemIds_of st objId of
              None \<Rightarrow> Throw TypeError
            | Some es \<Rightarrow> SkipList_keyOf index es))"


record Instance =
  clock :: clock
  schema :: string
  ideps :: clock
  ielem :: "string \<rightharpoonup> int"
  bootstrapped :: bool
  state :: backend_state

type_synonym ElemCache = "string \<rightharpoonup> op"

section \<open>The path/id resolver\<close>

text \<open>
  \<open>getPath\<close> walks the first inbound reference of each object up to the root. The loop
  has no bound in the source; \<open>None\<close> is a walk that never ends, \<open>Some (Return None)\<close>
  is the result \<open>null\<close>.
\<close>

partial_function (option) getPath_loop ::
  "backend_state \<Rightarrow> jsval \<Rightarrow> string list \<Rightarrow> string list option outcome option" where
  "getPath_loop st ob p =
     (if ob = JStr ROOT_ID then Some (Return (Some p))
      else (case (case byObject st ob of None \<Rightarrow> [] | Some r \<Rightarrow> inbound r) of
              [] \<Rightarrow> Some (Return None)
            | ref # _ \<Rightarrow>
                if getObjType st (JStr (fst ref)) = list_t
                then (case elemIds_of st (JStr (fst ref)) of
                        None \<Rightarrow> Some (Throw TypeError)
                      | Some es \<Rightarrow>
                          (let index = SkipList_indexOf (snd ref) es
                           in if index < 0 then Some (Return None)
                              else getPath_loop st (JStr (fst ref)) (show_int index # p)))
                else getPath_loop st (JStr (fst ref)) (snd ref # p)))"

declare getPath_loop.simps [code]

definition getPath :: "backend_state \<Rightarrow> jsval \<Rightarrow> string list option outcome" where
  "getPath st ob = (case getPath_loop st ob [] of None \<Rightarrow> NoReturn | Some r \<Rightarrow> r)"

text \<open>
  The property \<open>v.obj\<close> of a value \<open>v\<close>: a \<open>TypeError\<close> on \<open>undefined\<close> and \<open>null\<close>,
  \<open>undefined\<close> on a primitive and on an object without the property.
\<close>

definition get_obj :: "jsval \<Rightarrow> jsval outcome" where
  "get_obj v =
     (case v of
        Undefined \<Rightarrow> Throw TypeError
      | Null \<Rightarrow> Throw TypeError
      | JObj kvs \<Rightarrow> Return (case map_of kvs ''obj'' of None \<Rightarrow> Undefined | Some x \<Rightarrow> x)
      | _ \<Rightarrow> Return Undefined)"

text \<open>
  The loop of \<open>getObjId\<close> over the path segments. At a list the source returns the
  object of the element at once, whatever segments are left:
  \<open>_elemIds.getValue(findElemOfIndex(state, objectId, parseInt(pathSegment, 10))).obj\<close>.
\<close>

fun getObjId_loop :: "backend_state \<Rightarrow> jsval \<Rightarrow> string list \<Rightarrow> jsval outcome" where
  "getObjId_loop st objectId [] = Return objectId"
| "getObjId_loop st objectId (pathSegment # rest) =
     (if getObjType st objectId = object_t then
        (case byObject st objectId of
           None \<Rightarrow> Throw TypeError
         | Some r \<Rightarrow>
             (case keys r pathSegment of
                [] \<Rightarrow> Return Null
              | newObjectId # _ \<Rightarrow>
                  if newObjectId = Undefined then Return Null
                  else getObjId_loop st newObjectId rest))
      else
        bind (findElemOfIndex st objectId (parseInt pathSegment)) (\<lambda>elemId.
          case elemIds_of st objectId of
            None \<Rightarrow> Throw TypeError
          | Some es \<Rightarrow> bind (SkipList_getValue elemId es) get_obj))"

definition getObjId :: "backend_state \<Rightarrow> string \<Rightarrow> jsval outcome" where
  "getObjId st p =
     (if p = [] then Return (JStr ROOT_ID)
      else getObjId_loop st (JStr ROOT_ID) (drop 1 (split CHR ''/'' p)))"

section \<open>Op to patch\<close>

text \<open>
  \<open>buildPath\<close> deletes the key it finds in the element cache, so it returns the cache
  with the path.
\<close>

definition buildPath :: "op \<Rightarrow> Instance \<Rightarrow> ElemCache \<Rightarrow> (string \<times> ElemCache) outcome" where
  "buildPath opr inst elemCache =
     bind (getPath (state inst) (obj opr)) (\<lambda>gp.
       let p = (case gp of None \<Rightarrow> [] | Some q \<Rightarrow> q) in
       if getObjType (state inst) (obj opr) = list_t then
         (case key opr of
            None \<Rightarrow> Throw (Error ''expected key on op'')
          | Some k \<Rightarrow>
              (case elemCache k of
                 Some cached \<Rightarrow>
                   (case key cached of
                      None \<Rightarrow> Throw (Error ''expected key on insert op'')
                    | Some prevKey \<Rightarrow>
                        bind (findIndexOfElem (state inst) (obj opr) prevKey) (\<lambda>i.
                          Return (CHR ''/'' # join CHR ''/'' (p @ [show_int (i + 1)]),
                                  elemCache(k := None))))
               | None \<Rightarrow>
                   bind (findIndexOfElem (state inst) (obj opr) k) (\<lambda>i.
                     Return (CHR ''/'' # join CHR ''/'' (p @ [show_int i]), elemCache))))
       else
         Return (CHR ''/'' # join CHR ''/'' (p @ [case key opr of None \<Rightarrow> [] | Some k \<Rightarrow> k]),
                 elemCache))"

text \<open>
  \<open>op.key && elemCache[op.key]\<close>: the key is a non-empty string and the lookup finds
  the cached op, or what every object inherits under that name.
\<close>

definition key_cached :: "op \<Rightarrow> ElemCache \<Rightarrow> bool" where
  "key_cached opr elemCache =
     (case key opr of
        None \<Rightarrow> False
      | Some k \<Rightarrow> k \<noteq> [] \<and> (elemCache k \<noteq> None \<or> k \<in> set Object_prototype))"

definition opToPatch :: "op \<Rightarrow> Instance \<Rightarrow> ElemCache \<Rightarrow> (patchop list \<times> ElemCache) outcome" where
  "opToPatch opr inst elemCache =
     (case action opr of
        Set \<Rightarrow>
          (let act =
             (if getObjType (state inst) (obj opr) = list_t
              then (if key_cached opr elemCache then ''add'' else ''replace'')
              else (let oldVal = (case key opr of
                                    None \<Rightarrow> Undefined
                                  | Some k \<Rightarrow> getMapValue (state inst) (obj opr) k)
                    in if oldVal = Null then ''add'' else ''replace''))
           in bind (buildPath opr inst elemCache) (\<lambda>(p, ec).
                Return ([\<lparr>pop = act, path = p, pvalue = val opr\<rparr>], ec)))
      | Del \<Rightarrow>
          bind (buildPath opr inst elemCache) (\<lambda>(p, ec).
            Return ([\<lparr>pop = ''remove'', path = p, pvalue = Undefined\<rparr>], ec))
      | Link \<Rightarrow>
          (let act = (if key_cached opr elemCache then ''add'' else ''replace'')
           in bind (buildPath opr inst elemCache) (\<lambda>(p, ec).
                Return ([\<lparr>pop = act, path = p,
                          pvalue = (if getObjType (state inst) (val opr) = list_t
                                    then JArr [] else JObj [])\<rparr>], ec)))
      | _ \<Rightarrow> Throw (RangeError ''unsupported op''))"

section \<open>Patch to ops\<close>

definition mkop :: "action \<Rightarrow> jsval \<Rightarrow> string option \<Rightarrow> jsval \<Rightarrow> int option \<Rightarrow> op" where
  "mkop a ob k v e = \<lparr>action = a, obj = ob, key = k, val = v, elem = e\<rparr>"

text \<open>\<open>value === null\<close> or \<open>typeof value\<close> is string, number or boolean.\<close>

definition is_scalar :: "jsval \<Rightarrow> bool" where
  "is_scalar v =
     (case v of Null \<Rightarrow> True | JStr _ \<Rightarrow> True | JNum _ \<Rightarrow> True | JBool _ \<Rightarrow> True | _ \<Rightarrow> False)"

type_synonym PathCache = "string \<rightharpoonup> string"

text \<open>\<open>pathCache[patchop.path] = makeObj\<close>, where \<open>makeObj\<close> is a string.\<close>

definition remember :: "PathCache \<Rightarrow> string \<Rightarrow> string \<Rightarrow> PathCache" where
  "remember pathCache p makeObj = (if p = ''__proto__'' then pathCache else pathCache(p \<mapsto> makeObj))"

text \<open>
  The first part of the callback of \<open>patchToOps\<close>: the action, the \<open>make\<close> op pushed to
  \<open>acc\<close>, and the path cache with the new object's path.
\<close>

definition patch_action ::
  "patchop \<Rightarrow> string \<Rightarrow> PathCache \<Rightarrow> (action \<times> op list \<times> PathCache) outcome" where
  "patch_action patchop makeObj pathCache =
     (if pop patchop = ''remove'' then Return (Del, [], pathCache)
      else if pop patchop = ''add'' \<or> pop patchop = ''replace'' then
        (if is_scalar (pvalue patchop) then Return (Set, [], pathCache)
         else (case pvalue patchop of
                 JArr _ \<Rightarrow>
                   Return (Link, [mkop MakeList (JStr makeObj) None Undefined None],
                           remember pathCache (path patchop) makeObj)
               | JObj [] \<Rightarrow>
                   Return (Link, [mkop MakeMap (JStr makeObj) None Undefined None],
                           remember pathCache (path patchop) makeObj)
               | _ \<Rightarrow> Throw (RangeError ''bad value for patchop'')))
      else Throw (RangeError ''bad op type for patchop''))"

text \<open>
  \<open>instance.elem[origin.actor] || 0\<close>: the counter the instance has for the actor; \<open>0\<close>
  when it has none, unless the actor's name is one that every object inherits.
\<close>

definition elem_counter :: "Instance \<Rightarrow> string \<Rightarrow> int outcome" where
  "elem_counter inst act =
     (case ielem inst act of
        Some e \<Rightarrow> Return e
      | None \<Rightarrow> if act \<in> set Object_prototype then Outside else Return 0)"

text \<open>
  \<open>parseInt((originalOp.key || "").split(':')[1], 10)\<close>, then
  \<open>insertElemId || (instance.elem[origin.actor] || 0) + 1\<close>. The number becomes the
  \<open>elem\<close> of the \<open>ins\<close> op and is printed into the key of the op that follows it, so it
  is followed here as long as it is safe.
\<close>

definition next_elem :: "Instance \<Rightarrow> string \<Rightarrow> int outcome" where
  "next_elem inst act =
     bind (elem_counter inst act) (\<lambda>e. if safe e then Return (e + 1) else Outside)"

definition insert_elem :: "op \<Rightarrow> Instance \<Rightarrow> string \<Rightarrow> int outcome" where
  "insert_elem originalOp inst act =
     (let parts = split CHR '':'' (case key originalOp of None \<Rightarrow> [] | Some k \<Rightarrow> k);
          insertElemId = (if 1 < length parts then parseInt (parts ! 1) else None)
      in case insertElemId of
           None \<Rightarrow> next_elem inst act
         | Some n \<Rightarrow>
             if n = 0 then next_elem inst act
             else if safe n then Return n
             else Outside)"

text \<open>
  The list branch: \<open>None\<close> is the early \<open>return []\<close> of the callback; otherwise the ops
  pushed so far and the key of the final op.
\<close>

definition list_key ::
  "patchop \<Rightarrow> change \<Rightarrow> nat \<Rightarrow> Instance \<Rightarrow> jsval \<Rightarrow> string \<Rightarrow> op list
     \<Rightarrow> (op list \<times> string) option outcome" where
  "list_key patchop origin opIndex inst objId k acc =
     (case parseInt k of
        None \<Rightarrow> Throw (Error ''Expected array index on path'')
      | Some n \<Rightarrow>
          if pop patchop = ''add'' then
            bind (findElemOfIndex (state inst) objId (Some (n - 1))) (\<lambda>insertAfter.
              case insertAfter of
                None \<Rightarrow> Throw (Error ''expected to find array element'')
              | Some a \<Rightarrow>
                  if opIndex < length (ops origin) then
                    bind (insert_elem (ops origin ! opIndex) inst (actor origin)) (\<lambda>e.
                      Return (Some (acc @ [mkop Ins objId (Some a) Undefined (Some e)],
                                    actor origin @ '':'' @ show_int e)))
                  else Throw TypeError)
          else
            bind (findElemOfIndex (state inst) objId (Some n)) (\<lambda>insertAt.
              case insertAt of
                None \<Rightarrow> Return None
              | Some a \<Rightarrow> Return (Some (acc, a))))"

text \<open>
  The id of the object a patch op may create:
  \<open>v5(`${origin.actor}:${origin.seq}:${opIndex}:${i}"`, MAGIC_UUID)\<close>; \<open>v5\<close> is the
  uuid library's name-based id, and the sequence number of a change is a safe integer.
\<close>

definition make_obj :: "(string \<Rightarrow> string \<Rightarrow> string) \<Rightarrow> change \<Rightarrow> nat \<Rightarrow> nat \<Rightarrow> string" where
  "make_obj v5 origin opIndex i =
     v5 (actor origin @ '':'' @ show_int (seq origin) @ '':'' @
         show_nat opIndex @ '':'' @ show_nat i @ [CHR 0x22]) MAGIC_UUID"

text \<open>
  \<open>pathCache[objPath] || getObjId(instance.state, objPath)\<close>. The cache starts as
  \<open>{'': ROOT_ID}\<close>; a path that is no own property of it and is a name of
  \<open>Object.prototype\<close> finds what the cache inherits.
\<close>

definition parent_obj :: "backend_state \<Rightarrow> PathCache \<Rightarrow> string \<Rightarrow> jsval outcome" where
  "parent_obj st pathCache objPath =
     (case pathCache objPath of
        None \<Rightarrow> if objPath \<in> set Object_prototype then Outside else getObjId st objPath
      | Some c \<Rightarrow> if c \<noteq> [] then Return (JStr c) else getObjId st objPath)"

text \<open>
  The callback of \<open>patch.map\<close> for the patch op at position \<open>i\<close>: the ops it
  contributes and the path cache it leaves.
\<close>

definition patchop_ops ::
  "(string \<Rightarrow> string \<Rightarrow> string) \<Rightarrow> change \<Rightarrow> nat \<Rightarrow> Instance \<Rightarrow> PathCache \<Rightarrow> nat \<Rightarrow> patchop
     \<Rightarrow> (op list \<times> PathCache) outcome" where
  "patchop_ops v5 origin opIndex inst pathCache i patchop =
     (let makeObj = make_obj v5 origin opIndex i
      in bind (patch_action patchop makeObj pathCache) (\<lambda>(act, acc, pc).
           let pathParts = split CHR ''/'' (path patchop);
               k = last pathParts;
               objPath = join CHR ''/'' (butlast pathParts)
           in bind (parent_obj (state inst) pc objPath) (\<lambda>objId.
                bind (if getObjType (state inst) objId = list_t
                      then list_key patchop origin opIndex inst objId k acc
                      else Return (Some (acc, k))) (\<lambda>r.
                  case r of
                    None \<Rightarrow> Return ([], pc)
                  | Some (acc', k') \<Rightarrow>
                      if objId = Undefined
                      then Throw (Error ''Could not find object with path'')
                      else if act = Link
                      then Return (acc' @ [mkop act objId (Some k') (JStr makeObj) None], pc)
                      else if pop patchop = ''add'' \<or> pop patchop = ''replace''
                      then Return (acc' @ [mkop act objId (Some k') (pvalue patchop) None], pc)
                      else Return (acc' @ [mkop act objId (Some k') Undefined None], pc)))))"

fun patchToOps_loop ::
  "(string \<Rightarrow> string \<Rightarrow> string) \<Rightarrow> change \<Rightarrow> nat \<Rightarrow> Instance \<Rightarrow> PathCache \<Rightarrow> nat
     \<Rightarrow> patchop list \<Rightarrow> op list outcome" where
  "patchToOps_loop v5 origin opIndex inst pathCache i [] = Return []"
| "patchToOps_loop v5 origin opIndex inst pathCache i (patchop # rest) =
     bind (patchop_ops v5 origin opIndex inst pathCache i patchop) (\<lambda>(acc, pc).
       bind (patchToOps_loop v5 origin opIndex inst pc (Suc i) rest) (\<lambda>more.
         Return (acc @ more)))"

definition patchToOps ::
  "(string \<Rightarrow> string \<Rightarrow> string) \<Rightarrow> patchop list \<Rightarrow> change \<Rightarrow> nat \<Rightarrow> Instance \<Rightarrow> op list outcome" where
  "patchToOps v5 patch origin opIndex inst =
     patchToOps_loop v5 origin opIndex inst [[] \<mapsto> ROOT_ID] 0 patch"

section \<open>The libraries the engine calls\<close>

text \<open>
  The uuid library, the lens library and the backend are not part of the program; the
  engine is modelled for any behaviour of theirs. A lens graph, a lens source and a JSON
  schema are JavaScript values.
\<close>

record lib =
  v5 :: "string \<Rightarrow> string \<Rightarrow> string"
  initLensGraph :: jsval
  registerLens :: "jsval \<Rightarrow> string \<Rightarrow> string \<Rightarrow> jsval \<Rightarrow> jsval outcome"
  lensGraphSchema :: "jsval \<Rightarrow> string \<Rightarrow> jsval"
  lensFromTo :: "jsval \<Rightarrow> string \<Rightarrow> string \<Rightarrow> jsval outcome"
  applyLensToPatch :: "jsval \<Rightarrow> patchop list \<Rightarrow> jsval \<Rightarrow> patchop list outcome"
  Backend_init :: backend_state
  Backend_applyChanges :: "backend_state \<Rightarrow> change list \<Rightarrow> (backend_state \<times> apatch) outcome"
  Backend_applyLocalChange :: "backend_state \<Rightarrow> change \<Rightarrow> (backend_state \<times> apatch) outcome"
  Backend_getPatch :: "backend_state \<Rightarrow> apatch outcome"

section \<open>Shadow instances\<close>

definition initInstance :: "lib \<Rightarrow> string \<Rightarrow> Instance" where
  "initInstance L sch =
     \<lparr>clock = Map.empty, schema = sch, ideps = Map.empty, ielem = Map.empty,
      bootstrapped = False, state = Backend_init L\<rparr>"

text \<open>\<open>m[k] || 0\<close> on a clock or on the element counters.\<close>

definition or0 :: "(string \<rightharpoonup> int) \<Rightarrow> string \<Rightarrow> int" where
  "or0 m k = (case m k of None \<Rightarrow> 0 | Some n \<Rightarrow> n)"

definition elem_or0 :: "op \<Rightarrow> int" where
  "elem_or0 opr = (case elem opr of None \<Rightarrow> 0 | Some n \<Rightarrow> n)"

text \<open>One step of the \<open>reduce\<close> in \<open>applyChangesToInstance\<close>, and the reduce.\<close>

definition elem_step :: "(string \<rightharpoonup> int) \<Rightarrow> change \<Rightarrow> (string \<rightharpoonup> int)" where
  "elem_step acc c =
     (let oldMax = or0 acc (actor c);
          maxElem = foldl max oldMax (map elem_or0 (ops c))
      in acc(actor c \<mapsto> maxElem))"

definition applyChangesToInstance ::
  "lib \<Rightarrow> Instance \<Rightarrow> change list \<Rightarrow> (Instance \<times> apatch) outcome" where
  "applyChangesToInstance L inst changes =
     (let el = foldl elem_step (ielem inst) changes
      in bind (Backend_applyChanges L (state inst) changes) (\<lambda>(backendState, patch).
           Return (\<lparr>clock = (case pclock patch of None \<Rightarrow> Map.empty | Some c \<Rightarrow> c),
                    schema = schema inst,
                    ideps = (case pdeps patch of None \<Rightarrow> Map.empty | Some d \<Rightarrow> d),
                    ielem = el,
                    bootstrapped = True,
                    state = backendState\<rparr>, patch)))"

definition applyOps :: "lib \<Rightarrow> Instance \<Rightarrow> op list \<Rightarrow> string \<Rightarrow> Instance outcome" where
  "applyOps L inst os act =
     (let c = \<lparr>actor = act, seq = or0 (clock inst) act + 1, deps = ideps inst,
               message = [], ops = os\<rparr>
      in bind (applyChangesToInstance L inst [c]) (\<lambda>(newInstance, patch). Return newInstance))"

section \<open>The op sorter\<close>

text \<open>
  \<open>sortOps\<close> finds ops with \<open>find\<close> and removes them with \<open>indexOf\<close> and \<open>splice\<close>,
  which compare object references. Each op carries its position in \<open>change.ops\<close> as
  its identity.
\<close>

type_synonym tagged = "nat \<times> op"

fun indexOf :: "tagged \<Rightarrow> tagged list \<Rightarrow> int" where
  "indexOf x [] = -1"
| "indexOf x (y # ys) =
     (if fst y = fst x then 0 else (let i = indexOf x ys in if i < 0 then -1 else i + 1))"

text \<open>\<open>xs.splice(i, 1)\<close> where \<open>i\<close> is a position or \<open>-1\<close> (then the last element goes).\<close>

definition splice1 :: "int \<Rightarrow> 'a list \<Rightarrow> 'a list" where
  "splice1 i xs = (if i < 0 then butlast xs else take (nat i) xs @ drop (Suc (nat i)) xs)"

definition appendOp :: "tagged \<Rightarrow> tagged list \<times> tagged list \<Rightarrow> tagged list \<times> tagged list" where
  "appendOp x s = (case s of (originalOps, sortedOps) \<Rightarrow>
     (splice1 (indexOf x originalOps) originalOps, sortedOps @ [x]))"

definition elem_string :: "op \<Rightarrow> string" where
  "elem_string opr = (case elem opr of None \<Rightarrow> ''undefined'' | Some e \<Rightarrow> show_int e)"

definition is_make :: "action \<Rightarrow> bool" where
  "is_make a = (a = MakeList \<or> a = MakeMap \<or> a = MakeTable \<or> a = MakeText)"

text \<open>
  The body of the \<open>for\<close> loop for the op \<open>t\<close>, in its two parts; the state is
  \<open>(originalOps, sortedOps)\<close>, and \<open>sortedOps.push(op)\<close> has been done.
\<close>

definition sort_ins ::
  "string \<Rightarrow> tagged \<Rightarrow> tagged list \<times> tagged list \<Rightarrow> (tagged list \<times> tagged list) outcome" where
  "sort_ins act t s =
     (if action (snd t) = Ins then
        (case find (\<lambda>x. (action (snd x) = Set \<or> action (snd x) = Link) \<and>
                        key (snd x) = Some (act @ '':'' @ elem_string (snd t))) (fst s) of
           None \<Rightarrow> Throw (Error ''expected to find a reifying op corresponding to ins op'')
         | Some reifyingOp \<Rightarrow>
             if action (snd reifyingOp) = Set
             then Return (appendOp reifyingOp s)
             else (case find (\<lambda>x. obj (snd x) = val (snd reifyingOp)) (fst s) of
                     None \<Rightarrow> Throw (Error ''expected make op corresponding to link'')
                   | Some makeOp \<Rightarrow> Return (appendOp reifyingOp (appendOp makeOp s))))
      else Return s)"

definition sort_make ::
  "tagged \<Rightarrow> tagged list \<times> tagged list \<Rightarrow> (tagged list \<times> tagged list) outcome" where
  "sort_make t s =
     (if is_make (action (snd t)) then
        (case find (\<lambda>x. action (snd x) = Link \<and> val (snd x) = obj (snd t)) (fst s) of
           None \<Rightarrow> Throw (Error ''expected to find link op corresponding to makeMap'')
         | Some linkOp \<Rightarrow> Return (appendOp linkOp s))
      else Return s)"

definition sort_step ::
  "string \<Rightarrow> tagged \<Rightarrow> tagged list \<times> tagged list \<Rightarrow> (tagged list \<times> tagged list) outcome" where
  "sort_step act t s = bind (sort_ins act t (fst s, snd s @ [t])) (sort_make t)"

text \<open>
  The \<open>for ... of\<close> loop reads \<open>originalOps\<close> by position while the body removes
  elements from it.
\<close>

function sortOps_loop :: "string \<Rightarrow> nat \<Rightarrow> tagged list \<Rightarrow> tagged list \<Rightarrow> tagged list outcome" where
  "sortOps_loop act i originalOps sortedOps =
     (if i < length originalOps then
        (case sort_step act (originalOps ! i) (originalOps, sortedOps) of
           Return s' \<Rightarrow> sortOps_loop act (Suc i) (fst s') (snd s')
         | Throw e \<Rightarrow> Throw e
         | NoReturn \<Rightarrow> NoReturn
         | Outside \<Rightarrow> Outside)
      else Return sortedOps)"
  by pat_completeness auto
definition sortOps :: "change \<Rightarrow> change outcome" where
  "sortOps c =
     bind (sortOps_loop (actor c) 0 (zip [0 ..< length (ops c)] (ops c)) [])
       (\<lambda>sortedOps. Return (c\<lparr>ops := map snd sortedOps\<rparr>))"

section \<open>The change converter and the bootstrap\<close>

record RegisteredLens =
  lto :: string
  lfrom :: string
  lens :: jsval

record CambriaBlock =
  bschema :: string
  lenses :: "RegisteredLens list"
  bchange :: change
  bactor :: string
  bseq :: int

record LensState =
  inDoc :: "string set"
  graph :: jsval

definition convertOp ::
  "lib \<Rightarrow> change \<Rightarrow> nat \<Rightarrow> op \<Rightarrow> Instance \<Rightarrow> Instance \<Rightarrow> LensState \<Rightarrow> ElemCache
     \<Rightarrow> (op list \<times> ElemCache) outcome" where
  "convertOp L c index opr from to ls elemCache =
     bind (lensFromTo L (graph ls) (schema from) (schema to)) (\<lambda>lensStack.
       let jsonschema7 = lensGraphSchema L (graph ls) (schema from)
       in bind (opToPatch opr from elemCache) (\<lambda>(patch, ec).
            bind (applyLensToPatch L lensStack patch jsonschema7) (\<lambda>convertedPatch.
              bind (patchToOps (v5 L) convertedPatch c index to) (\<lambda>convertedOps.
                Return (convertedOps, ec)))))"

text \<open>
  The \<open>forEach\<close> of \<open>convertChange\<close> over the sorted ops, from position \<open>i\<close>; the state
  is the two instance clones, the element cache and the ops converted so far.
\<close>

fun convertChange_loop ::
  "lib \<Rightarrow> CambriaBlock \<Rightarrow> change \<Rightarrow> LensState \<Rightarrow> nat \<Rightarrow> op list
     \<Rightarrow> Instance \<times> Instance \<times> ElemCache \<times> op list
     \<Rightarrow> (Instance \<times> Instance \<times> ElemCache \<times> op list) outcome" where
  "convertChange_loop L block sortedChange ls i [] s = Return s"
| "convertChange_loop L block sortedChange ls i (opr # rest) s =
     (case s of (fromInstanceClone, toInstanceClone, elemCache, os) \<Rightarrow>
        if action opr = Ins then
          bind (applyOps L fromInstanceClone [opr] (actor (bchange block))) (\<lambda>from'.
            convertChange_loop L block sortedChange ls (Suc i) rest
              (from', toInstanceClone,
               elemCache(actor (bchange block) @ '':'' @ elem_string opr \<mapsto> opr), os))
        else if is_make (action opr) then
          bind (applyOps L fromInstanceClone [opr] (actor (bchange block))) (\<lambda>from'.
            convertChange_loop L block sortedChange ls (Suc i) rest
              (from', toInstanceClone, elemCache, os))
        else
          bind (convertOp L sortedChange i opr fromInstanceClone toInstanceClone ls elemCache)
            (\<lambda>(convertedOps, ec).
              bind (applyOps L fromInstanceClone [opr] (actor (bchange block))) (\<lambda>from'.
                bind (applyOps L toInstanceClone convertedOps (actor (bchange block))) (\<lambda>to'.
                  convertChange_loop L block sortedChange ls (Suc i) rest
                    (from', to', ec, os @ convertedOps)))))"

definition convertChange ::
  "lib \<Rightarrow> CambriaBlock \<Rightarrow> Instance \<Rightarrow> Instance \<Rightarrow> LensState
     \<Rightarrow> (change \<times> Instance \<times> Instance) outcome" where
  "convertChange L block fromInstance toInstance ls =
     bind (sortOps (bchange block)) (\<lambda>sortedChange.
       bind (convertChange_loop L block sortedChange ls 0 (ops sortedChange)
               (fromInstance, toInstance, Map.empty, []))
         (\<lambda>(fromInstanceClone, toInstanceClone, elemCache, os).
           Return (\<lparr>actor = actor (bchange block), seq = seq (bchange block),
                    deps = deps (bchange block), message = message (bchange block),
                    ops = os\<rparr>, fromInstanceClone, toInstanceClone)))"

definition urOp :: "patchop list" where
  "urOp = [\<lparr>pop = ''add'', path = [], pvalue = JObj []\<rparr>]"

definition bootstrap :: "lib \<Rightarrow> Instance \<Rightarrow> LensState \<Rightarrow> change outcome" where
  "bootstrap L inst ls =
     (let jsonschema7 = lensGraphSchema L (graph ls) (schema inst)
      in if jsonschema7 = Undefined
         then Throw (Error ''Could not find JSON schema for schema'')
         else bind (applyLensToPatch L (JArr []) urOp jsonschema7) (\<lambda>lensed.
                let defaultsPatch = drop 1 lensed;
                    bootstrapChange = \<lparr>actor = CAMBRIA_MAGIC_ACTOR, seq = 1, deps = Map.empty,
                                       message = [], ops = []\<rparr>
                in bind (patchToOps (v5 L) defaultsPatch bootstrapChange 1 inst) (\<lambda>os.
                     Return (bootstrapChange\<lparr>ops := os\<rparr>))))"

section \<open>The history-replaying engine\<close>

fun register_lenses :: "lib \<Rightarrow> RegisteredLens list \<Rightarrow> LensState \<Rightarrow> LensState outcome" where
  "register_lenses L [] ls = Return ls"
| "register_lenses L (l # rest) ls =
     bind (registerLens L (graph ls) (lfrom l) (lto l) (lens l)) (\<lambda>g.
       register_lenses L rest \<lparr>inDoc = insert (lto l) (inDoc ls), graph = g\<rparr>)"

text \<open>\<open>history.findIndex\<close> of the block of an actor and a sequence number.\<close>

fun findIndex :: "string \<Rightarrow> int \<Rightarrow> CambriaBlock list \<Rightarrow> nat option" where
  "findIndex a n [] = None"
| "findIndex a n (b # bs) =
     (if actor (bchange b) = a \<and> seq (bchange b) = n then Some 0
      else map_option Suc (findIndex a n bs))"

text \<open>
  \<open>applySchemaChanges\<close> replays a prefix of the history through \<open>getInstanceAt\<close>, which
  calls \<open>applySchemaChanges\<close> again. The first argument bounds the depth of that
  recursion; \<open>NoReturn\<close> is the result when the bound is reached. The state of the loop
  over the blocks is the lens state, \<open>fromInstance\<close>, \<open>toInstance\<close> (both unset at first)
  and \<open>changesToApply\<close>.
\<close>

fun applySchemaChanges ::
    "nat \<Rightarrow> lib \<Rightarrow> CambriaBlock list \<Rightarrow> Instance \<Rightarrow> LensState \<Rightarrow> CambriaBlock list
       \<Rightarrow> (Instance \<times> apatch \<times> LensState) outcome"
  and blocks_loop ::
    "nat \<Rightarrow> lib \<Rightarrow> Instance \<Rightarrow> CambriaBlock list \<Rightarrow> CambriaBlock list
       \<Rightarrow> LensState \<times> Instance option \<times> Instance option \<times> change list
       \<Rightarrow> (LensState \<times> Instance option \<times> Instance option \<times> change list) outcome"
  and getInstanceAt ::
    "nat \<Rightarrow> lib \<Rightarrow> string \<Rightarrow> string \<Rightarrow> int \<Rightarrow> LensState \<Rightarrow> CambriaBlock list
       \<Rightarrow> (Instance \<times> LensState) outcome"
where
  "applySchemaChanges n L blocks inst ls hist =
     bind (blocks_loop n L inst hist blocks (ls, None, None, [])) (\<lambda>(ls', fromI, toI, changesToApply).
       bind (if \<not> bootstrapped inst
             then bind (bootstrap L inst ls') (\<lambda>bootstrapChange.
                    Return (bootstrapChange # changesToApply, inst\<lparr>bootstrapped := True\<rparr>))
             else Return (changesToApply, inst)) (\<lambda>(changes, inst').
         bind (applyChangesToInstance L inst' changes) (\<lambda>(newInstance, patch).
           Return (newInstance, patch, ls'))))"
| "blocks_loop n L inst hist [] s = Return s"
| "blocks_loop n L inst hist (block # rest) s =
     (case s of (ls0, fromI, toI, changesToApply) \<Rightarrow>
        bind (register_lenses L (lenses block) ls0) (\<lambda>ls.
          if bschema block = schema inst then
            blocks_loop n L inst hist rest (ls, fromI, toI, changesToApply @ [bchange block])
          else
            bind (case fromI of
                    Some f \<Rightarrow> Return f
                  | None \<Rightarrow>
                      bind (getInstanceAt n L (bschema block) (actor (bchange block))
                              (seq (bchange block)) ls hist) (\<lambda>(f, g). Return f))
              (\<lambda>fromInstance.
                bind (let t = (case toI of Some t \<Rightarrow> t | None \<Rightarrow> inst)
                      in if \<not> bootstrapped t
                         then bind (bootstrap L t ls) (\<lambda>bootstrapChange.
                                bind (applyChangesToInstance L t [bootstrapChange]) (\<lambda>(t', p).
                                  Return (t'\<lparr>bootstrapped := True\<rparr>)))
                         else Return t)
                  (\<lambda>toInstance.
                    bind (convertChange L block fromInstance toInstance ls)
                      (\<lambda>(newChange, fromInstance', toInstance').
                        blocks_loop n L inst hist rest
                          (ls, Some fromInstance', Some toInstance',
                           changesToApply @ [newChange]))))))"
| "getInstanceAt 0 L sch actorId sq ls hist = NoReturn"
| "getInstanceAt (Suc n) L sch actorId sq ls hist =
     (case findIndex actorId sq hist of
        None \<Rightarrow> Throw (Error ''Could not find block with actorId and seq'')
      | Some blockIndex \<Rightarrow>
          bind (applySchemaChanges n L (take blockIndex hist) (initInstance L sch) ls hist)
            (\<lambda>(i, p, newGraph). Return (i, newGraph)))"

record CambriaBackend =
  eschema :: string
  history :: "CambriaBlock list"
  elenses :: "RegisteredLens list"
  lensState :: LensState
  instances :: "string \<rightharpoonup> Instance"

text \<open>\<open>getInstance\<close> creates the instance of a schema on first use and stores it.\<close>

definition getInstance :: "lib \<Rightarrow> CambriaBackend \<Rightarrow> string \<Rightarrow> Instance \<times> CambriaBackend" where
  "getInstance L e sch =
     (case instances e sch of
        Some i \<Rightarrow> (i, e)
      | None \<Rightarrow> (initInstance L sch, e\<lparr>instances := (instances e)(sch \<mapsto> initInstance L sch)\<rparr>))"

definition primaryInstance :: "lib \<Rightarrow> CambriaBackend \<Rightarrow> Instance" where
  "primaryInstance L e = fst (getInstance L e (eschema e))"

text \<open>The methods of the class \<open>CambriaBackend\<close>; the engine is returned with the result.\<close>

definition CambriaBackend_applyChanges ::
  "nat \<Rightarrow> lib \<Rightarrow> CambriaBackend \<Rightarrow> CambriaBlock list \<Rightarrow> (CambriaBackend \<times> apatch) outcome" where
  "CambriaBackend_applyChanges n L e blocks =
     (case getInstance L e (eschema e) of (inst, e1) \<Rightarrow>
        let fBlocks = filter (\<lambda>block. bseq block > or0 (clock inst) (bactor block)) blocks;
            e2 = e1\<lparr>history := history e1 @ fBlocks\<rparr>
        in bind (applySchemaChanges n L fBlocks inst (lensState e2) (history e2))
             (\<lambda>(newInstance, patch, newLensState).
               Return (e2\<lparr>instances := (instances e2)(eschema e \<mapsto> newInstance),
                          lensState := newLensState\<rparr>, patch)))"

definition inject_deps :: "change \<Rightarrow> change" where
  "inject_deps request =
     (if seq request = 1 then request\<lparr>deps := (deps request)(CAMBRIA_MAGIC_ACTOR \<mapsto> 1)\<rparr>
      else request)"

text \<open>
  The block is built from the request object before \<open>request.deps\<close> is written; it
  holds the same object, so its change is the request after the write.
\<close>

definition CambriaBackend_applyLocalChange ::
  "lib \<Rightarrow> CambriaBackend \<Rightarrow> change \<Rightarrow> (CambriaBackend \<times> apatch \<times> CambriaBlock) outcome" where
  "CambriaBackend_applyLocalChange L e request0 =
     (let known = eschema e \<in> inDoc (lensState e);
          ls = (if known then lensState e
                else (lensState e)\<lparr>inDoc := inDoc (lensState e) \<union> set (map lto (elenses e))\<rparr>);
          request = inject_deps request0;
          block = \<lparr>bschema = eschema e, lenses = (if known then [] else elenses e),
                   bchange = request, bactor = actor request0, bseq = seq request0\<rparr>
      in case getInstance L (e\<lparr>lensState := ls\<rparr>) (eschema e) of (inst, e1) \<Rightarrow>
           let e2 = e1\<lparr>history := history e1 @ [block]\<rparr>
           in bind (if \<not> bootstrapped inst
                    then bind (bootstrap L inst (lensState e2)) (\<lambda>bootstrapChange.
                           bind (applyChangesToInstance L inst [bootstrapChange])
                             (\<lambda>(newInstance, bootPatch). Return (newInstance, diffs bootPatch)))
                    else Return (inst, [])) (\<lambda>(inst', bootdiffs).
                bind (Backend_applyLocalChange L (state inst') request) (\<lambda>(newState, patch).
                  Return (e2\<lparr>instances := (instances e2)(eschema e \<mapsto>
                               inst'\<lparr>state := newState,
                                     clock := (case pclock patch of None \<Rightarrow> Map.empty | Some c \<Rightarrow> c),
                                     ideps := (case pdeps patch of None \<Rightarrow> Map.empty | Some d \<Rightarrow> d)\<rparr>)\<rparr>,
                          patch\<lparr>diffs := bootdiffs @ diffs patch\<rparr>, block))))"

definition CambriaBackend_getPatch ::
  "nat \<Rightarrow> lib \<Rightarrow> CambriaBackend \<Rightarrow> (CambriaBackend \<times> apatch) outcome" where
  "CambriaBackend_getPatch n L e =
     bind (CambriaBackend_applyChanges n L e []) (\<lambda>(e1, p).
       case getInstance L e1 (eschema e1) of (inst, e2) \<Rightarrow>
         bind (Backend_getPatch L (state inst)) (\<lambda>patch. Return (e2, patch)))"

section \<open>The exported functions\<close>

text \<open>\<open>delete patch.clock[CAMBRIA_MAGIC_ACTOR]\<close> and the same on \<open>patch.deps\<close>.\<close>

definition scrub :: "apatch \<Rightarrow> apatch" where
  "scrub p = p\<lparr>pclock := map_option (\<lambda>c. c(CAMBRIA_MAGIC_ACTOR := None)) (pclock p),
              pdeps := map_option (\<lambda>d. d(CAMBRIA_MAGIC_ACTOR := None)) (pdeps p)\<rparr>"

text \<open>
  The primary instance holds the patch's \<open>clock\<close> and \<open>deps\<close> objects themselves
  (\<open>clock: patch.clock || {}\<close>), so the \<open>delete\<close> on the patch is a delete on the
  instance as well.
\<close>

definition scrub_shared :: "apatch \<Rightarrow> CambriaBackend \<Rightarrow> CambriaBackend" where
  "scrub_shared p e =
     (case instances e (eschema e) of
        None \<Rightarrow> e
      | Some i \<Rightarrow>
          e\<lparr>instances := (instances e)(eschema e \<mapsto>
               i\<lparr>clock := (if pclock p = None then clock i
                            else (clock i)(CAMBRIA_MAGIC_ACTOR := None)),
                 ideps := (if pdeps p = None then ideps i
                           else (ideps i)(CAMBRIA_MAGIC_ACTOR := None))\<rparr>)\<rparr>)"

definition applyChanges ::
  "nat \<Rightarrow> lib \<Rightarrow> CambriaBackend \<Rightarrow> CambriaBlock list \<Rightarrow> (CambriaBackend \<times> apatch) outcome" where
  "applyChanges n L doc changes =
     bind (CambriaBackend_applyChanges n L doc changes) (\<lambda>(doc', patch).
       Return (scrub_shared patch doc', scrub patch))"

definition applyLocalChange ::
  "lib \<Rightarrow> CambriaBackend \<Rightarrow> change \<Rightarrow> (CambriaBackend \<times> apatch \<times> CambriaBlock) outcome" where
  "applyLocalChange L doc request =
     bind (CambriaBackend_applyLocalChange L doc request) (\<lambda>(doc', patch, block).
       Return (scrub_shared patch doc', scrub patch, block))"

definition getPatch :: "nat \<Rightarrow> lib \<Rightarrow> CambriaBackend \<Rightarrow> (CambriaBackend \<times> apatch) outcome" where
  "getPatch n L doc =
     bind (CambriaBackend_getPatch n L doc) (\<lambda>(doc', patch). Return (doc', scrub patch))"

section \<open>What the round-trip property is about\<close>

text \<open>
  The round trip of one op: \<open>opToPatch\<close>, then \<open>patchToOps\<close> on the patch against the
  same instance (what \<open>convertOp\<close> does between two instances when the lens leaves the
  patch as it is).
\<close>

definition roundtrip ::
  "(string \<Rightarrow> string \<Rightarrow> string) \<Rightarrow> change \<Rightarrow> nat \<Rightarrow> op \<Rightarrow> Instance \<Rightarrow> ElemCache \<Rightarrow> op list outcome" where
  "roundtrip uuid origin opIndex X inst elemCache =
     bind (opToPatch X inst elemCache) (\<lambda>(patch, ec). patchToOps uuid patch origin opIndex inst)"

text \<open>
  An object that is linked from the root through maps only: it is the root, or its
  first inbound reference is a key without \<open>/\<close> of a map that is linked in the same way,
  and the first value stored under that key is the object's id.
\<close>

inductive linked_by_maps :: "backend_state \<Rightarrow> string \<Rightarrow> bool" for st where
  root: "linked_by_maps st ROOT_ID"
| step: "c \<noteq> ROOT_ID \<Longrightarrow> opSet st c = Some r \<Longrightarrow> inbound r = (pid, pkey) # refs \<Longrightarrow>
         getObjType st (JStr pid) = object_t \<Longrightarrow> opSet st pid = Some pr \<Longrightarrow>
         keys pr pkey = JStr c # others \<Longrightarrow> CHR ''/'' \<notin> set pkey \<Longrightarrow>
         linked_by_maps st pid \<Longrightarrow> linked_by_maps st c"

text \<open>
  An object that is linked through maps, or that is the value \<open>{obj: id}\<close> of an element
  of a list that is linked through maps (its first inbound reference is that element).
  Below an element of a list the resolver goes no further.
\<close>

inductive linked :: "backend_state \<Rightarrow> string \<Rightarrow> bool" for st where
  maps: "linked_by_maps st c \<Longrightarrow> linked st c"
| element: "c \<noteq> ROOT_ID \<Longrightarrow> opSet st c = Some r \<Longrightarrow> inbound r = (lid, ekey) # refs \<Longrightarrow>
            getObjType st (JStr lid) = list_t \<Longrightarrow> elemIds_of st (JStr lid) = Some es \<Longrightarrow>
            ekey \<noteq> [] \<Longrightarrow> map_of es ekey = Some v \<Longrightarrow> get_obj v = Return (JStr c) \<Longrightarrow>
            linked_by_maps st lid \<Longrightarrow> linked st c"

section \<open>A small engine to run the model on\<close>

text \<open>
  Stand-ins for the libraries: the uuid is the name itself, the lens library knows one
  schema whose only default is \<open>title = ""\<close> and leaves every other patch as it is,
  and the backend keeps its state and answers with a fixed clock that holds the phantom
  actor.
\<close>

definition root_only :: backend_state where
  "root_only =
     \<lparr>opSet = [ROOT_ID \<mapsto> \<lparr>init_action = None, keys = (\<lambda>k. []), elemIds = None, inbound = []\<rparr>],
      internals = Null\<rparr>"

definition title_default :: patchop where
  "title_default = \<lparr>pop = ''add'', path = ''/title'', pvalue = JStr []\<rparr>"

definition stub_patch :: "jsval list \<Rightarrow> clock \<Rightarrow> apatch" where
  "stub_patch ds c = \<lparr>diffs = ds, pclock = Some c, pdeps = Some c\<rparr>"

definition stub_lib :: lib where
  "stub_lib =
     \<lparr>v5 = (\<lambda>name ns. name),
      initLensGraph = Null,
      registerLens = (\<lambda>g f t l. Return g),
      lensGraphSchema = (\<lambda>g s. JObj []),
      lensFromTo = (\<lambda>g f t. Return (JArr [])),
      applyLensToPatch = (\<lambda>l p s. Return (if p = urOp then urOp @ [title_default] else p)),
      Backend_init = root_only,
      Backend_applyChanges = (\<lambda>st cs.
        Return (st, stub_patch (map (\<lambda>c. JStr (actor c)) cs) [CAMBRIA_MAGIC_ACTOR \<mapsto> 1])),
      Backend_applyLocalChange = (\<lambda>st c.
        Return (st, stub_patch [JStr (actor c)] [CAMBRIA_MAGIC_ACTOR \<mapsto> 1, actor c \<mapsto> seq c])),
      Backend_getPatch = (\<lambda>st. Return (stub_patch [] [CAMBRIA_MAGIC_ACTOR \<mapsto> 1]))\<rparr>"

definition stub_engine :: CambriaBackend where
  "stub_engine =
     \<lparr>eschema = ''v1'', history = [], elenses = [],
      lensState = \<lparr>inDoc = {}, graph = Null\<rparr>, instances = Map.empty\<rparr>"

definition stub_change :: change where
  "stub_change =
     \<lparr>actor = ''a'', seq = 1, deps = Map.empty, message = [],
      ops = [mkop Ins (JStr ROOT_ID) (Some ''_head'') Undefined (Some 7),
             mkop Set (JStr ROOT_ID) (Some ''a:7'') (JStr ''x'') None]\<rparr>"

definition stub_instance :: Instance where
  "stub_instance = initInstance stub_lib ''v1''"

definition stub_defaults :: change where
  "stub_defaults =
     \<lparr>actor = CAMBRIA_MAGIC_ACTOR, seq = 1, deps = Map.empty, message = [],
      ops = [mkop Set (JStr ROOT_ID) (Some ''title'') (JStr []) None]\<rparr>"

definition stub_booted :: Instance where
  "stub_booted =
     \<lparr>clock = [CAMBRIA_MAGIC_ACTOR \<mapsto> 1], schema = ''v1'', ideps = [CAMBRIA_MAGIC_ACTOR \<mapsto> 1],
      ielem = [CAMBRIA_MAGIC_ACTOR \<mapsto> 0], bootstrapped = True, state = root_only\<rparr>"

definition stub_engine_booted :: CambriaBackend where
  "stub_engine_booted = stub_engine\<lparr>instances := [''v1'' \<mapsto> stub_booted]\<rparr>"

definition stub_block :: CambriaBlock where
  "stub_block =
     \<lparr>bschema = ''v1'', lenses = [], bchange = inject_deps stub_change, bactor = ''a'', bseq = 1\<rparr>"

definition stub_engine_local :: "clock \<Rightarrow> CambriaBackend" where
  "stub_engine_local c =
     \<lparr>eschema = ''v1'', history = [stub_block], elenses = [],
      lensState = \<lparr>inDoc = {}, graph = Null\<rparr>,
      instances = [''v1'' \<mapsto> stub_booted\<lparr>clock := c, ideps := c\<rparr>]\<rparr>"

text \<open>
  A document with lists and nested maps: the root has \<open>tags\<close> (a list with two
  elements), \<open>details\<close> (a map with \<open>author\<close>), \<open>note = null\<close>, \<open>name\<close> and \<open>people\<close>
  (a list whose one element is a map with \<open>name\<close> and with \<open>address\<close>, a map with
  \<open>city\<close>):
  \<open>{tags: ['x', 'y'], details: {author: 'Klaus'}, note: null, name: 'hello',
    people: [{name: 'Ann', address: {city: 'Ulm'}}]}\<close>.
\<close>

definition demo_root_keys :: "string \<Rightarrow> jsval list" where
  "demo_root_keys = (\<lambda>k. if k = ''tags'' then [JStr ''L'']
                        else if k = ''details'' then [JStr ''M'']
                        else if k = ''note'' then [Null]
                        else if k = ''name'' then [JStr ''hello'']
                        else if k = ''people'' then [JStr ''P'']
                        else [])"

definition demo_state :: backend_state where
  "demo_state =
     \<lparr>opSet =
        [ROOT_ID \<mapsto>
           \<lparr>init_action = None, keys = demo_root_keys, elemIds = None, inbound = []\<rparr>,
         ''L'' \<mapsto>
           \<lparr>init_action = Some MakeList, keys = (\<lambda>k. []),
            elemIds = Some [(''a:1'', JStr ''x''), (''a:2'', JStr ''y'')],
            inbound = [(ROOT_ID, ''tags'')]\<rparr>,
         ''M'' \<mapsto>
           \<lparr>init_action = Some MakeMap,
            keys = (\<lambda>k. if k = ''author'' then [JStr ''Klaus''] else []),
            elemIds = None, inbound = [(ROOT_ID, ''details'')]\<rparr>,
         ''P'' \<mapsto>
           \<lparr>init_action = Some MakeList, keys = (\<lambda>k. []),
            elemIds = Some [(''a:5'', JObj [(''obj'', JStr ''N'')])],
            inbound = [(ROOT_ID, ''people'')]\<rparr>,
         ''N'' \<mapsto>
           \<lparr>init_action = Some MakeMap,
            keys = (\<lambda>k. if k = ''name'' then [JStr ''Ann'']
                        else if k = ''address'' then [JStr ''A'']
                        else []),
            elemIds = None, inbound = [(''P'', ''a:5'')]\<rparr>,
         ''A'' \<mapsto>
           \<lparr>init_action = Some MakeMap,
            keys = (\<lambda>k. if k = ''city'' then [JStr ''Ulm''] else []),
            elemIds = None, inbound = [(''N'', ''address'')]\<rparr>],
      internals = Null\<rparr>"

definition demo_instance :: Instance where
  "demo_instance =
     \<lparr>clock = [''a'' \<mapsto> 1], schema = ''v1'', ideps = [''a'' \<mapsto> 1], ielem = [''a'' \<mapsto> 2],
      bootstrapped = True, state = demo_state\<rparr>"

text \<open>
  A change of actor \<open>a\<close> that overwrites the element \<open>a:1\<close> of the list \<open>L1\<close> and then
  inserts its first element into the list \<open>L2\<close>, whose element id is \<open>a:1\<close> as well.
\<close>

definition overwrite_L1 :: op where
  "overwrite_L1 = mkop Set (JStr ''L1'') (Some ''a:1'') (JStr ''x'') None"

definition insert_L2 :: op where
  "insert_L2 = mkop Ins (JStr ''L2'') (Some ''_head'') Undefined (Some 1)"

definition fill_L2 :: op where
  "fill_L2 = mkop Set (JStr ''L2'') (Some ''a:1'') (JStr ''y'') None"

definition two_lists_change :: change where
  "two_lists_change =
     \<lparr>actor = ''a'', seq = 2, deps = Map.empty, message = [],
      ops = [overwrite_L1, insert_L2, fill_L2]\<rparr>"

text \<open>
  A backend that holds back every change (as the backend does with a change whose
  dependencies it has not seen) and reports the clock it had, and one that reports the
  clock \<open>{a: 1}\<close> beside the phantom actor. The block \<open>waiting_block\<close> depends on a
  change of actor \<open>b\<close> that the engine has not received.
\<close>

definition held_lib :: lib where
  "held_lib = stub_lib\<lparr>Backend_applyChanges :=
     (\<lambda>st cs. Return (st, stub_patch [] [CAMBRIA_MAGIC_ACTOR \<mapsto> 1]))\<rparr>"

definition waiting_block :: CambriaBlock where
  "waiting_block =
     \<lparr>bschema = ''v1'', lenses = [],
      bchange = \<lparr>actor = ''a'', seq = 1, deps = [''b'' \<mapsto> 3], message = [],
                 ops = [mkop Set (JStr ROOT_ID) (Some ''title'') (JStr ''hello'') None]\<rparr>,
      bactor = ''a'', bseq = 1\<rparr>"

definition ready_lib :: lib where
  "ready_lib = stub_lib\<lparr>Backend_applyChanges := (\<lambda>st cs.
     Return (st, stub_patch (map (\<lambda>c. JStr (actor c)) cs) [CAMBRIA_MAGIC_ACTOR \<mapsto> 1, ''a'' \<mapsto> 1]))\<rparr>"

definition ready_instance :: Instance where
  "ready_instance =
     \<lparr>clock = [CAMBRIA_MAGIC_ACTOR \<mapsto> 1, ''a'' \<mapsto> 1], schema = ''v1'',
      ideps = [CAMBRIA_MAGIC_ACTOR \<mapsto> 1, ''a'' \<mapsto> 1],
      ielem = [CAMBRIA_MAGIC_ACTOR \<mapsto> 0, ''a'' \<mapsto> 7], bootstrapped = True, state = root_only\<rparr>"

definition ready_engine :: CambriaBackend where
  "ready_engine = stub_engine\<lparr>history := [stub_block], instances := [''v1'' \<mapsto> ready_instance]\<rparr>"

definition held_engine :: "CambriaBlock list \<Rightarrow> CambriaBackend" where
  "held_engine h =
     stub_engine\<lparr>history := h,
                 instances := [''v1'' \<mapsto> stub_booted\<lparr>ielem := [CAMBRIA_MAGIC_ACTOR \<mapsto> 0, ''a'' \<mapsto> 0]\<rparr>]\<rparr>"

text \<open>Ops on the document above.\<close>

definition set_note :: op where
  "set_note = mkop Set (JStr ROOT_ID) (Some ''note'') (JStr ''Joe'') None"

definition set_author :: op where
  "set_author = mkop Set (JStr ''M'') (Some ''author'') (JStr ''Kim'') None"

definition set_second :: op where
  "set_second = mkop Set (JStr ''L'') (Some ''a:2'') (JStr ''new'') None"

definition ins_third :: op where
  "ins_third = mkop Ins (JStr ''L'') (Some ''a:2'') Undefined (Some 3)"

definition set_third :: op where
  "set_third = mkop Set (JStr ''L'') (Some ''a:3'') (JStr ''el'') None"

definition third_change :: change where
  "third_change =
     \<lparr>actor = ''a'', seq = 2, deps = [''a'' \<mapsto> 1], message = [], ops = [ins_third, set_third]\<rparr>"

definition set_slash :: op where
  "set_slash = mkop Set (JStr ROOT_ID) (Some ''a/b'') (JStr ''v'') None"

definition set_name :: op where
  "set_name = mkop Set (JStr ''N'') (Some ''name'') (JStr ''Bob'') None"

definition set_title :: op where
  "set_title = mkop Set (JStr ROOT_ID) (Some ''title'') (JStr ''T'') None"

definition set_toString :: op where
  "set_toString = mkop Set (JStr ''L'') (Some ''toString'') (JStr ''v'') None"

text \<open>A block of another schema, \<open>v0\<close>, with a change that has no ops.\<close>

definition old_change :: change where
  "old_change = \<lparr>actor = ''b'', seq = 1, deps = Map.empty, message = [], ops = []\<rparr>"

definition old_block :: CambriaBlock where
  "old_block =
     \<lparr>bschema = ''v0'', lenses = [], bchange = old_change, bactor = ''b'', bseq = 1\<rparr>"

section \<open>Termination of the op sorter\<close>

lemma length_splice1: "length (splice1 i xs) \<le> length xs"
  by (auto simp: splice1_def min_def)

lemma length_appendOp: "length (fst (appendOp x s)) \<le> length (fst s)"
  by (cases s) (simp add: appendOp_def length_splice1)

lemma length_sort_ins:
  assumes "sort_ins act t s = Return s'"
  shows "length (fst s') \<le> length (fst s)"
proof -
  have "length (fst (appendOp x (appendOp y s))) \<le> length (fst s)" for x y
    using length_appendOp [of x "appendOp y s"] length_appendOp [of y s] by simp
  with assms show ?thesis
    by (auto simp: sort_ins_def length_appendOp split: if_splits option.splits)
qed

lemma length_sort_make:
  assumes "sort_make t s = Return s'"
  shows "length (fst s') \<le> length (fst s)"
  using assms by (auto simp: sort_make_def length_appendOp split: if_splits option.splits)

lemma length_sort_step:
  assumes "sort_step act t s = Return s'"
  shows "length (fst s') \<le> length (fst s)"
proof (cases "sort_ins act t (fst s, snd s @ [t])")
  case (Return m)
  with assms have "sort_make t m = Return s'"
    by (simp add: sort_step_def)
  then have "length (fst s') \<le> length (fst m)"
    by (rule length_sort_make)
  moreover have "length (fst m) \<le> length (fst (fst s, snd s @ [t]))"
    using Return by (rule length_sort_ins)
  ultimately show ?thesis by simp
next
  case (Throw e)
  with assms show ?thesis by (simp add: sort_step_def)
next
  case NoReturn
  with assms show ?thesis by (simp add: sort_step_def)
next
  case Outside
  with assms show ?thesis by (simp add: sort_step_def)
qed

termination sortOps_loop
proof (relation "measure (\<lambda>(act, i, originalOps, sortedOps). length originalOps - i)")
  show "wf (measure (\<lambda>(act, i, originalOps, sortedOps). length originalOps - i))"
    by simp
next
  fix act :: string and i :: nat and originalOps sortedOps :: "tagged list" and s'
  assume "i < length originalOps"
    and "sort_step act (originalOps ! i) (originalOps, sortedOps) = Return s'"
  then show "((act, Suc i, fst s', snd s'), (act, i, originalOps, sortedOps))
      \<in> measure (\<lambda>(act, i, originalOps, sortedOps). length originalOps - i)"
    using length_sort_step [of act "originalOps ! i" "(originalOps, sortedOps)" s']
    by (cases s') auto
qed

declare sortOps_loop.simps [simp del]

section \<open>Facts about the model\<close>

lemma bind_Return_iff:
  "bind m f = Return y \<longleftrightarrow> (\<exists>x. m = Return x \<and> f x = Return y)"
  by (cases m) auto

lemma ROOT_ID_nonempty: "ROOT_ID \<noteq> []"
  by (simp add: ROOT_ID_def)

lemma bind_Outside_iff:
  "bind m f = Outside \<longleftrightarrow> m = Outside \<or> (\<exists>x. m = Return x \<and> f x = Outside)"
  by (cases m) auto

lemma getPath_root: "getPath st (JStr ROOT_ID) = Return (Some [])"
  by (simp add: getPath_def getPath_loop.simps)

lemma slash_not_inherited: "CHR ''/'' # s \<notin> set Object_prototype"
  by (simp add: Object_prototype_def)

lemma head_not_inherited: "''_head'' \<notin> set Object_prototype"
  by (simp add: Object_prototype_def)

lemma empty_not_inherited: "[] \<notin> set Object_prototype"
  by (simp add: Object_prototype_def)

lemma getObjId_empty: "getObjId st [] = Return (JStr ROOT_ID)"
  by (simp add: getObjId_def)

subsection \<open>Strings and indices\<close>

lemma split_nonempty: "split c s \<noteq> []"
  by (induction s) (auto split: list.splits)

lemma split_no_sep: "c \<notin> set s \<Longrightarrow> split c s = [s]"
  by (induction s) auto

lemma split_append_sep:
  "c \<notin> set x \<Longrightarrow> split c (x @ c # s) = x # split c s"
  by (induction x) (auto simp: split_nonempty split: list.splits)

lemma split_join:
  "xs \<noteq> [] \<Longrightarrow> \<forall>x \<in> set xs. c \<notin> set x \<Longrightarrow> split c (join c xs) = xs"
proof (induction xs rule: join.induct)
  case (1 c)
  then show ?case by simp
next
  case (2 c x)
  then show ?case by (simp add: split_no_sep)
next
  case (3 c x y ys)
  then show ?case by (simp add: split_append_sep)
qed

lemma join_Nil_Cons: "xs \<noteq> [] \<Longrightarrow> join c ([] # xs) = c # join c xs"
  by (cases xs) simp_all

lemma join_snoc_nonempty: "join c ([] # xs @ [k]) = c # join c (xs @ [k])"
  by (rule join_Nil_Cons) simp

lemma digit_val_digit_char: "d < 10 \<Longrightarrow> digit_val (digit_char d) = Some d"
proof -
  assume "d < 10"
  then have "d \<in> {0,1,2,3,4,5,6,7,8,9}" by auto
  then show ?thesis
    by (auto simp: digit_val_def digit_char_def)
qed

lemma parse_digits_append:
  "\<forall>c \<in> set xs. digit_val c \<noteq> None \<Longrightarrow>
     parse_digits acc (xs @ ys) = parse_digits (parse_digits acc xs) ys"
  by (induction xs arbitrary: acc) (auto split: option.splits)

lemma show_nat_digits: "\<forall>c \<in> set (show_nat n). digit_val c \<noteq> None"
proof (induction n rule: show_nat.induct)
  case (1 n)
  show ?case
  proof (cases "n < 10")
    case True
    then show ?thesis
      by (subst show_nat.simps) (simp add: digit_val_digit_char)
  next
    case False
    then have "\<forall>c \<in> set (show_nat (n div 10)). digit_val c \<noteq> None"
      using 1 by simp
    moreover have "digit_val (digit_char (n mod 10)) \<noteq> None"
      by (simp add: digit_val_digit_char)
    ultimately show ?thesis
      using False by (subst show_nat.simps) simp
  qed
qed

lemma parse_digits_show_nat: "parse_digits 0 (show_nat n) = n"
proof (induction n rule: show_nat.induct)
  case (1 n)
  show ?case
  proof (cases "n < 10")
    case True
    then show ?thesis
      by (subst show_nat.simps) (simp add: digit_val_digit_char)
  next
    case False
    then have ih: "parse_digits 0 (show_nat (n div 10)) = n div 10"
      using 1 by simp
    have "parse_digits 0 (show_nat (n div 10) @ [digit_char (n mod 10)])
            = parse_digits (n div 10) [digit_char (n mod 10)]"
      using parse_digits_append [OF show_nat_digits, of 0 "n div 10"] ih by simp
    also have "\<dots> = 10 * (n div 10) + n mod 10"
      by (simp add: digit_val_digit_char)
    finally show ?thesis
      using False by (subst show_nat.simps) simp
  qed
qed

lemma show_nat_nonempty: "show_nat n \<noteq> []"
  by (subst show_nat.simps) simp

lemma parse_unsigned_show_nat: "parse_unsigned (show_nat n) = Some n"
proof -
  obtain c cs where s: "show_nat n = c # cs"
    using show_nat_nonempty [of n] by (cases "show_nat n") auto
  have "digit_val c \<noteq> None"
    using show_nat_digits [of n] s by simp
  then show ?thesis
    using parse_digits_show_nat [of n] s by (auto simp: parse_unsigned_def)
qed

lemma digit_not_special:
  "digit_val c \<noteq> None \<Longrightarrow> \<not> is_space c \<and> c \<noteq> CHR ''-'' \<and> c \<noteq> CHR ''+'' \<and> c \<noteq> CHR ''/''"
  by (auto simp: digit_val_def is_space_def split: if_splits)

lemma parseInt_show_int: "parseInt (show_int i) = Some i"
proof (cases "i < 0")
  case True
  have "\<not> is_space CHR ''-''"
    by (simp add: is_space_def)
  then show ?thesis
    using True by (simp add: parseInt_def show_int_def parse_unsigned_show_nat)
next
  case False
  obtain c cs where s: "show_nat (nat i) = c # cs"
    using show_nat_nonempty [of "nat i"] by (cases "show_nat (nat i)") auto
  have d: "digit_val c \<noteq> None"
    using show_nat_digits [of "nat i"] s by simp
  have "parse_unsigned (c # cs) = Some (nat i)"
    using parse_unsigned_show_nat [of "nat i"] s by simp
  then show ?thesis
    using False s digit_not_special [OF d] by (simp add: parseInt_def show_int_def)
qed

lemma show_nat_no_slash: "CHR ''/'' \<notin> set (show_nat n)"
proof
  assume "CHR ''/'' \<in> set (show_nat n)"
  then have "digit_val CHR ''/'' \<noteq> None"
    using show_nat_digits [of n] by blast
  then show False
    by (simp add: digit_val_def)
qed

lemma show_int_no_slash: "CHR ''/'' \<notin> set (show_int i)"
  by (simp add: show_int_def show_nat_no_slash)

lemma index_of_range: "index_of k es < int (length es)" "- 1 \<le> index_of k es"
  by (induction es) (auto simp: Let_def)

lemma index_of_present: "k \<in> fst ` set es \<longleftrightarrow> 0 \<le> index_of k es"
  by (induction es) (auto simp: Let_def)

lemma nth_index_of: "k \<in> fst ` set es \<Longrightarrow> fst (es ! nat (index_of k es)) = k"
proof (induction es)
  case Nil
  then show ?case by simp
next
  case (Cons e es)
  show ?case
  proof (cases "fst e = k")
    case True
    then show ?thesis by simp
  next
    case False
    with Cons.prems have in_es: "k \<in> fst ` set es" by auto
    then have ih: "fst (es ! nat (index_of k es)) = k" by (rule Cons.IH)
    have nn: "0 \<le> index_of k es" using in_es by (simp add: index_of_present)
    from ih nn False show ?thesis
      by (simp add: Let_def nat_add_distrib)
  qed
qed

lemma keyOf_indexOf:
  assumes "k \<in> fst ` set es"
  shows "SkipList_keyOf (Some (index_of k es)) es = Return (Some k)"
proof -
  have "0 \<le> index_of k es"
    using assms by (simp add: index_of_present)
  moreover have "index_of k es < int (length es)"
    by (rule index_of_range)
  ultimately show ?thesis
    using nth_index_of [OF assms] by (simp add: SkipList_keyOf_def Let_def)
qed

lemma map_of_fst: "map_of es k = Some v \<Longrightarrow> k \<in> fst ` set es"
  by (metis map_of_eq_None_iff option.distinct(1))

lemma safe_small: "safe 0" "safe 1" "safe 2" "safe 3"
  by (simp_all add: safe_def)

lemma digit_not_colon: "digit_val c \<noteq> None \<Longrightarrow> c \<noteq> CHR '':''"
  by (auto simp: digit_val_def)

lemma show_int_no_colon: "CHR '':'' \<notin> set (show_int i)"
proof -
  have "CHR '':'' \<notin> set (show_nat n)" for n
    using show_nat_digits [of n] digit_not_colon by blast
  then show ?thesis
    by (simp add: show_int_def)
qed

lemma insert_elem_own_key:
  assumes "key X = Some (a @ '':'' @ show_int n)" and "CHR '':'' \<notin> set a"
    and "n \<noteq> 0" and "safe n"
  shows "insert_elem X inst b = Return n"
proof -
  have "split CHR '':'' (a @ CHR '':'' # show_int n) = a # split CHR '':'' (show_int n)"
    using assms(2) by (rule split_append_sep)
  also have "\<dots> = [a, show_int n]"
    using show_int_no_colon by (simp add: split_no_sep)
  finally show ?thesis
    using assms(1,3,4) by (simp add: insert_elem_def parseInt_show_int)
qed

subsection \<open>The resolver on linked objects\<close>

lemma linked_paths:
  assumes "linked_by_maps st c"
  shows "\<exists>pre. (\<forall>acc. getPath_loop st (JStr c) acc = Some (Return (Some (pre @ acc))))
           \<and> (\<forall>x \<in> set pre. CHR ''/'' \<notin> set x)
           \<and> (\<forall>rest. getObjId_loop st (JStr ROOT_ID) (pre @ rest) = getObjId_loop st (JStr c) rest)"
  using assms
proof (induction rule: linked_by_maps.induct)
  case root
  have "\<forall>acc. getPath_loop st (JStr ROOT_ID) acc = Some (Return (Some ([] @ acc)))"
    by (simp add: getPath_loop.simps)
  then show ?case by (intro exI [of _ "[]"]) simp
next
  case (step c r pid pkey refs pr others)
  then obtain pre where
    p1: "\<And>acc. getPath_loop st (JStr pid) acc = Some (Return (Some (pre @ acc)))"
    and p2: "\<forall>x \<in> set pre. CHR ''/'' \<notin> set x"
    and p3: "\<And>rest. getObjId_loop st (JStr ROOT_ID) (pre @ rest) = getObjId_loop st (JStr pid) rest"
    by blast
  have g: "getPath_loop st (JStr c) acc = Some (Return (Some ((pre @ [pkey]) @ acc)))" for acc
    using step.hyps p1 [of "pkey # acc"]
    by (subst getPath_loop.simps) (simp add: byObject_def)
  have o: "getObjId_loop st (JStr ROOT_ID) ((pre @ [pkey]) @ rest) = getObjId_loop st (JStr c) rest"
    for rest
    using step.hyps p3 [of "pkey # rest"] by (simp add: byObject_def)
  show ?case
    using g o p2 step.hyps(7) by (intro exI [of _ "pre @ [pkey]"]) auto
qed

lemma patchToOps_single:
  "patchop_ops uuid origin opIndex inst [[] \<mapsto> ROOT_ID] 0 po = Return (acc, pc) \<Longrightarrow>
     patchToOps uuid [po] origin opIndex inst = Return acc"
  by (simp add: patchToOps_def)

lemma parent_obj_path:
  assumes "\<forall>x \<in> set pre. CHR ''/'' \<notin> set x"
  shows "parent_obj st [[] \<mapsto> ROOT_ID] (join CHR ''/'' ([] # pre))
           = getObjId_loop st (JStr ROOT_ID) pre"
proof (cases pre)
  case Nil
  then show ?thesis
    by (simp add: parent_obj_def ROOT_ID_nonempty)
next
  case (Cons x xs)
  then have j: "join CHR ''/'' ([] # pre) = CHR ''/'' # join CHR ''/'' pre"
    by simp
  have s: "split CHR ''/'' (join CHR ''/'' ([] # pre)) = [] # pre"
    using assms by (intro split_join) auto
  show ?thesis
    unfolding parent_obj_def getObjId_def
    using s by (simp add: j slash_not_inherited)
qed

lemma linked_resolves:
  assumes "linked st c"
  obtains pre where "getPath st (JStr c) = Return (Some pre)"
    and "\<forall>x \<in> set pre. CHR ''/'' \<notin> set x"
    and "parent_obj st [[] \<mapsto> ROOT_ID] (join CHR ''/'' ([] # pre)) = Return (JStr c)"
  using assms
proof (cases rule: linked.cases)
  case maps
  from linked_paths [OF maps] obtain pre where
    p1: "\<And>acc. getPath_loop st (JStr c) acc = Some (Return (Some (pre @ acc)))"
    and p2: "\<forall>x \<in> set pre. CHR ''/'' \<notin> set x"
    and p3: "\<And>rest. getObjId_loop st (JStr ROOT_ID) (pre @ rest) = getObjId_loop st (JStr c) rest"
    by blast
  have g: "getPath st (JStr c) = Return (Some pre)"
    using p1 [of "[]"] by (simp add: getPath_def)
  have r: "getObjId_loop st (JStr ROOT_ID) pre = Return (JStr c)"
    using p3 [of "[]"] by simp
  with g p2 that show thesis
    by (simp add: parent_obj_path)
next
  case (element r lid ekey refs es v)
  from linked_paths [OF element(9)] obtain pl where
    p1: "\<And>acc. getPath_loop st (JStr lid) acc = Some (Return (Some (pl @ acc)))"
    and p2: "\<forall>x \<in> set pl. CHR ''/'' \<notin> set x"
    and p3: "\<And>rest. getObjId_loop st (JStr ROOT_ID) (pl @ rest) = getObjId_loop st (JStr lid) rest"
    by blast
  let ?i = "index_of ekey es"
  have mem: "ekey \<in> fst ` set es"
    using element(7) by (rule map_of_fst)
  then have nn: "0 \<le> ?i"
    by (simp add: index_of_present)
  have "getPath_loop st (JStr c) [] = Some (Return (Some (pl @ [show_int ?i])))"
    using element(1-6) p1 [of "[show_int ?i]"] nn
    by (subst getPath_loop.simps) (simp add: byObject_def SkipList_indexOf_def Let_def)
  then have g: "getPath st (JStr c) = Return (Some (pl @ [show_int ?i]))"
    by (simp add: getPath_def)
  have fe: "findElemOfIndex st (JStr lid) (Some ?i) = Return (Some ekey)"
    using keyOf_indexOf [OF mem] nn element(5) by (simp add: findElemOfIndex_def)
  have "getObjId_loop st (JStr lid) [show_int ?i] = Return (JStr c)"
    using element(4-8) fe by (simp add: parseInt_show_int SkipList_getValue_def)
  then have o: "getObjId_loop st (JStr ROOT_ID) (pl @ [show_int ?i]) = Return (JStr c)"
    using p3 [of "[show_int ?i]"] by simp
  have ns: "\<forall>x \<in> set (pl @ [show_int ?i]). CHR ''/'' \<notin> set x"
    using p2 show_int_no_slash by simp
  from g ns o that show thesis
    by (simp add: parent_obj_path)
qed

lemma split_final_path:
  assumes "\<forall>x \<in> set pre. CHR ''/'' \<notin> set x" and "CHR ''/'' \<notin> set k"
  shows "split CHR ''/'' (CHR ''/'' # join CHR ''/'' (pre @ [k])) = [] # pre @ [k]"
proof -
  have "CHR ''/'' # join CHR ''/'' (pre @ [k]) = join CHR ''/'' ([] # pre @ [k])"
    by (simp add: join_snoc_nonempty)
  moreover have "split CHR ''/'' (join CHR ''/'' ([] # pre @ [k])) = [] # pre @ [k]"
    using assms by (intro split_join) auto
  ultimately show ?thesis by simp
qed

lemma roundtrip_map:
  assumes act: "action X = Set \<and> is_scalar (val X) \<or> action X = Del \<and> val X = Undefined"
    and key: "key X = Some k" "CHR ''/'' \<notin> set k"
    and el: "elem X = None"
    and ob: "obj X = JStr c" "linked (state inst) c"
    and ty: "getObjType (state inst) (JStr c) = object_t"
  shows "roundtrip uuid origin opIndex X inst elemCache = Return [X]"
proof -
  from linked_resolves [OF ob(2)] obtain pre where
    g: "getPath (state inst) (JStr c) = Return (Some pre)"
    and ns: "\<forall>x \<in> set pre. CHR ''/'' \<notin> set x"
    and par: "parent_obj (state inst) [[] \<mapsto> ROOT_ID] (join CHR ''/'' ([] # pre)) = Return (JStr c)"
    by blast
  let ?path = "CHR ''/'' # join CHR ''/'' (pre @ [k])"
  have sp: "split CHR ''/'' ?path = [] # pre @ [k]"
    using ns key(2) by (rule split_final_path)
  have bp: "buildPath X inst elemCache = Return (?path, elemCache)"
    using g ty key(1) ob(1) by (simp add: buildPath_def)
  have X: "X = mkop (action X) (JStr c) (Some k) (val X) None"
    using key(1) el ob(1) by (simp add: mkop_def)
  from act show ?thesis
  proof
    assume a: "action X = Set \<and> is_scalar (val X)"
    define pa where
      "pa = (if getMapValue (state inst) (JStr c) k = Null then ''add'' else ''replace'')"
    have pa: "pa = ''add'' \<or> pa = ''replace''"
      by (simp add: pa_def)
    have otp: "opToPatch X inst elemCache
                  = Return ([\<lparr>pop = pa, path = ?path, pvalue = val X\<rparr>], elemCache)"
      using a bp ty ob(1) key(1) by (simp add: opToPatch_def Let_def pa_def)
    have "patchop_ops uuid origin opIndex inst [[] \<mapsto> ROOT_ID] 0
            \<lparr>pop = pa, path = ?path, pvalue = val X\<rparr>
          = Return ([mkop Set (JStr c) (Some k) (val X) None], [[] \<mapsto> ROOT_ID])"
      using pa a par ty
      by (auto simp add: patchop_ops_def Let_def patch_action_def sp simp del: split.simps)
    then have "patchToOps uuid [\<lparr>pop = pa, path = ?path, pvalue = val X\<rparr>] origin opIndex inst
                 = Return [mkop Set (JStr c) (Some k) (val X) None]"
      by (rule patchToOps_single)
    with otp a X show ?thesis
      by (simp add: roundtrip_def)
  next
    assume a: "action X = Del \<and> val X = Undefined"
    then have otp: "opToPatch X inst elemCache
                  = Return ([\<lparr>pop = ''remove'', path = ?path, pvalue = Undefined\<rparr>], elemCache)"
      using bp by (simp add: opToPatch_def)
    have "patchop_ops uuid origin opIndex inst [[] \<mapsto> ROOT_ID] 0
            \<lparr>pop = ''remove'', path = ?path, pvalue = Undefined\<rparr>
          = Return ([mkop Del (JStr c) (Some k) Undefined None], [[] \<mapsto> ROOT_ID])"
      using par ty
      by (simp add: patchop_ops_def Let_def patch_action_def sp del: split.simps)
    then have "patchToOps uuid [\<lparr>pop = ''remove'', path = ?path, pvalue = Undefined\<rparr>] origin opIndex inst
                 = Return [mkop Del (JStr c) (Some k) Undefined None]"
      by (rule patchToOps_single)
    with otp a X show ?thesis
      by (simp add: roundtrip_def)
  qed
qed

lemma find_back:
  assumes "elemIds_of st (JStr c) = Some es"
    and "k = ''_head'' \<or> k \<noteq> [] \<and> k \<in> fst ` set es"
  obtains i where "findIndexOfElem st (JStr c) k = Return i"
    and "findElemOfIndex st (JStr c) (Some i) = Return (Some k)"
proof (cases "k = ''_head''")
  case True
  then have "findIndexOfElem st (JStr c) k = Return (- 1)"
    and "findElemOfIndex st (JStr c) (Some (- 1)) = Return (Some k)"
    by (simp_all add: findIndexOfElem_def findElemOfIndex_def)
  with that show thesis by blast
next
  case False
  with assms(2) have m: "k \<in> fst ` set es" and ne: "k \<noteq> []" by simp_all
  then have nn: "0 \<le> index_of k es"
    by (simp add: index_of_present)
  have "findIndexOfElem st (JStr c) k = Return (index_of k es)"
    using False ne assms(1) by (simp add: findIndexOfElem_def SkipList_indexOf_def)
  moreover have "findElemOfIndex st (JStr c) (Some (index_of k es)) = Return (Some k)"
    using nn assms(1) keyOf_indexOf [OF m] by (simp add: findElemOfIndex_def)
  ultimately show thesis using that by blast
qed

lemma roundtrip_list:
  assumes act: "action X = Set \<and> is_scalar (val X) \<and> k \<notin> set Object_prototype
                 \<or> action X = Del \<and> val X = Undefined"
    and key: "key X = Some k" "elemCache k = None"
    and el: "elem X = None"
    and ob: "obj X = JStr c" "linked (state inst) c"
    and ty: "getObjType (state inst) (JStr c) = list_t"
    and li: "elemIds_of (state inst) (JStr c) = Some es"
      "k = ''_head'' \<or> k \<noteq> [] \<and> k \<in> fst ` set es"
  shows "roundtrip uuid origin opIndex X inst elemCache = Return [X]"
proof -
  from linked_resolves [OF ob(2)] obtain pre where
    g: "getPath (state inst) (JStr c) = Return (Some pre)"
    and ns: "\<forall>x \<in> set pre. CHR ''/'' \<notin> set x"
    and par: "parent_obj (state inst) [[] \<mapsto> ROOT_ID] (join CHR ''/'' ([] # pre)) = Return (JStr c)"
    by blast
  from find_back [OF li] obtain i where
    fi: "findIndexOfElem (state inst) (JStr c) k = Return i"
    and fe: "findElemOfIndex (state inst) (JStr c) (Some i) = Return (Some k)"
    by blast
  let ?path = "CHR ''/'' # join CHR ''/'' (pre @ [show_int i])"
  have sp: "split CHR ''/'' ?path = [] # pre @ [show_int i]"
    using ns show_int_no_slash by (rule split_final_path)
  have bp: "buildPath X inst elemCache = Return (?path, elemCache)"
    using g ty key ob(1) fi by (simp add: buildPath_def)
  have X: "X = mkop (action X) (JStr c) (Some k) (val X) None"
    using key(1) el ob(1) by (simp add: mkop_def)
  have lk: "pa \<noteq> ''add'' \<Longrightarrow>
      list_key \<lparr>pop = pa, path = ?path, pvalue = v\<rparr> origin opIndex inst (JStr c) (show_int i) acc
        = Return (Some (acc, k))" for pa v acc
    using fe by (simp add: list_key_def parseInt_show_int)
  from act show ?thesis
  proof
    assume a: "action X = Set \<and> is_scalar (val X) \<and> k \<notin> set Object_prototype"
    have nc: "\<not> key_cached X elemCache"
      using key a by (simp add: key_cached_def)
    have otp: "opToPatch X inst elemCache
                  = Return ([\<lparr>pop = ''replace'', path = ?path, pvalue = val X\<rparr>], elemCache)"
      using a bp ty ob(1) nc by (simp add: opToPatch_def Let_def)
    have "patchop_ops uuid origin opIndex inst [[] \<mapsto> ROOT_ID] 0
            \<lparr>pop = ''replace'', path = ?path, pvalue = val X\<rparr>
          = Return ([mkop Set (JStr c) (Some k) (val X) None], [[] \<mapsto> ROOT_ID])"
      using a par ty
      by (simp add: patchop_ops_def Let_def patch_action_def sp lk del: split.simps)
    then have "patchToOps uuid [\<lparr>pop = ''replace'', path = ?path, pvalue = val X\<rparr>] origin opIndex inst
                 = Return [mkop Set (JStr c) (Some k) (val X) None]"
      by (rule patchToOps_single)
    with otp a X show ?thesis
      by (simp add: roundtrip_def)
  next
    assume a: "action X = Del \<and> val X = Undefined"
    then have otp: "opToPatch X inst elemCache
                  = Return ([\<lparr>pop = ''remove'', path = ?path, pvalue = Undefined\<rparr>], elemCache)"
      using bp by (simp add: opToPatch_def)
    have "patchop_ops uuid origin opIndex inst [[] \<mapsto> ROOT_ID] 0
            \<lparr>pop = ''remove'', path = ?path, pvalue = Undefined\<rparr>
          = Return ([mkop Del (JStr c) (Some k) Undefined None], [[] \<mapsto> ROOT_ID])"
      using par ty
      by (simp add: patchop_ops_def Let_def patch_action_def sp lk del: split.simps)
    then have "patchToOps uuid [\<lparr>pop = ''remove'', path = ?path, pvalue = Undefined\<rparr>] origin opIndex inst
                 = Return [mkop Del (JStr c) (Some k) Undefined None]"
      by (rule patchToOps_single)
    with otp a X show ?thesis
      by (simp add: roundtrip_def)
  qed
qed

lemma roundtrip_insert:
  assumes act: "action X = Set" "is_scalar (val X)"
    and key: "key X = Some k" "k \<noteq> []" "elemCache k = Some cached" "key cached = Some prevKey"
    and el: "elem X = None"
    and ob: "obj X = JStr c" "linked (state inst) c"
    and ty: "getObjType (state inst) (JStr c) = list_t"
    and li: "elemIds_of (state inst) (JStr c) = Some es"
      "prevKey = ''_head'' \<or> prevKey \<noteq> [] \<and> prevKey \<in> fst ` set es"
    and oi: "opIndex < length (ops origin)"
  shows "roundtrip uuid origin opIndex X inst elemCache =
           bind (insert_elem (ops origin ! opIndex) inst (actor origin)) (\<lambda>e.
             Return [mkop Ins (JStr c) (Some prevKey) Undefined (Some e),
                     X\<lparr>key := Some (actor origin @ '':'' @ show_int e)\<rparr>])"
proof -
  from linked_resolves [OF ob(2)] obtain pre where
    g: "getPath (state inst) (JStr c) = Return (Some pre)"
    and ns: "\<forall>x \<in> set pre. CHR ''/'' \<notin> set x"
    and par: "parent_obj (state inst) [[] \<mapsto> ROOT_ID] (join CHR ''/'' ([] # pre)) = Return (JStr c)"
    by blast
  from find_back [OF li] obtain i where
    fi: "findIndexOfElem (state inst) (JStr c) prevKey = Return i"
    and fe: "findElemOfIndex (state inst) (JStr c) (Some i) = Return (Some prevKey)"
    by blast
  let ?ie = "insert_elem (ops origin ! opIndex) inst (actor origin)"
  let ?path = "CHR ''/'' # join CHR ''/'' (pre @ [show_int (i + 1)])"
  have sp: "split CHR ''/'' ?path = [] # pre @ [show_int (i + 1)]"
    using ns show_int_no_slash by (rule split_final_path)
  have bp: "buildPath X inst elemCache = Return (?path, elemCache(k := None))"
    using g ty key ob(1) fi by (simp add: buildPath_def)
  have kc: "key_cached X elemCache"
    using key by (simp add: key_cached_def)
  have otp: "opToPatch X inst elemCache
               = Return ([\<lparr>pop = ''add'', path = ?path, pvalue = val X\<rparr>], elemCache(k := None))"
    using act bp ty ob(1) kc by (simp add: opToPatch_def Let_def)
  have lk: "list_key \<lparr>pop = ''add'', path = ?path, pvalue = val X\<rparr> origin opIndex inst (JStr c)
              (show_int (i + 1)) []
        = bind ?ie (\<lambda>e. Return (Some ([mkop Ins (JStr c) (Some prevKey) Undefined (Some e)],
                                       actor origin @ '':'' @ show_int e)))"
    using fe oi by (simp add: list_key_def parseInt_show_int)
  have set_op: "X\<lparr>key := Some q\<rparr> = mkop Set (JStr c) (Some q) (val X) None" for q
    using act el ob(1) by (simp add: mkop_def)
  have "patchop_ops uuid origin opIndex inst [[] \<mapsto> ROOT_ID] 0
            \<lparr>pop = ''add'', path = ?path, pvalue = val X\<rparr>
          = bind ?ie (\<lambda>e. Return ([mkop Ins (JStr c) (Some prevKey) Undefined (Some e),
                     X\<lparr>key := Some (actor origin @ '':'' @ show_int e)\<rparr>],
                    [[] \<mapsto> ROOT_ID]))"
    using act par ty
    by (cases ?ie)
      (simp_all add: patchop_ops_def Let_def patch_action_def sp lk set_op del: split.simps)
  then have "patchToOps uuid [\<lparr>pop = ''add'', path = ?path, pvalue = val X\<rparr>] origin opIndex inst
       = bind ?ie (\<lambda>e. Return [mkop Ins (JStr c) (Some prevKey) Undefined (Some e),
                     X\<lparr>key := Some (actor origin @ '':'' @ show_int e)\<rparr>])"
    by (cases ?ie) (simp_all add: patchToOps_def)
  then show ?thesis
    using otp by (simp add: roundtrip_def)
qed

subsection \<open>The element counters\<close>





subsection \<open>Applying changes to an instance\<close>

lemma applyChangesToInstance_Return:
  assumes "applyChangesToInstance L inst changes = Return (inst', p)"
  obtains st where "Backend_applyChanges L (state inst) changes = Return (st, p)"
    and "inst' = \<lparr>clock = (case pclock p of None \<Rightarrow> Map.empty | Some c \<Rightarrow> c),
                    schema = schema inst,
                    ideps = (case pdeps p of None \<Rightarrow> Map.empty | Some d \<Rightarrow> d),
                    ielem = foldl elem_step (ielem inst) changes,
                    bootstrapped = True,
                    state = st\<rparr>"
proof (cases "Backend_applyChanges L (state inst) changes")
  case (Return r)
  obtain st q where r: "r = (st, q)" by (cases r)
  from assms Return r have "q = p" and
    "inst' = \<lparr>clock = (case pclock p of None \<Rightarrow> Map.empty | Some c \<Rightarrow> c),
                    schema = schema inst,
                    ideps = (case pdeps p of None \<Rightarrow> Map.empty | Some d \<Rightarrow> d),
                    ielem = foldl elem_step (ielem inst) changes,
                    bootstrapped = True,
                    state = st\<rparr>"
    by (auto simp: applyChangesToInstance_def Let_def)
  with Return r that show thesis by simp
next
  case (Throw e)
  with assms show thesis by (simp add: applyChangesToInstance_def Let_def)
next
  case NoReturn
  with assms show thesis by (simp add: applyChangesToInstance_def Let_def)
next
  case Outside
  with assms show thesis by (simp add: applyChangesToInstance_def Let_def)
qed

lemma history_getInstance: "history (snd (getInstance L e sch)) = history e"
  by (simp add: getInstance_def split: option.splits)

lemma eschema_getInstance: "eschema (snd (getInstance L e sch)) = eschema e"
  by (simp add: getInstance_def split: option.splits)

lemma scrub_clock: "pclock (scrub p) = Some c \<Longrightarrow> c CAMBRIA_MAGIC_ACTOR = None"
  by (auto simp: scrub_def)

lemma scrub_deps: "pdeps (scrub p) = Some d \<Longrightarrow> d CAMBRIA_MAGIC_ACTOR = None"
  by (auto simp: scrub_def)

lemma applySchemaChanges_bootstrapped:
  assumes "applySchemaChanges n L blocks inst ls hist = Return (ni, p, ls')"
  shows "bootstrapped ni"
proof -
  from assms obtain i cs where "applyChangesToInstance L i cs = Return (ni, p)"
    by (auto simp: bind_Return_iff split: if_splits)
  then show ?thesis
    by (auto elim!: applyChangesToInstance_Return)
qed

lemma getInstance_present:
  "instances e sch = Some i \<Longrightarrow> getInstance L e sch = (i, e)"
  by (simp add: getInstance_def)

lemma Instance_rebuild:
  "bootstrapped i \<Longrightarrow>
     \<lparr>clock = clock i, schema = schema i, ideps = ideps i, ielem = ielem i,
      bootstrapped = True, state = state i\<rparr> = i"
  by (cases i) simp

subsection \<open>The small engine, evaluated\<close>

lemma stub_root_type: "getObjType root_only (JStr ROOT_ID) = object_t"
  by (simp add: getObjType_def byObject_def root_only_def)

lemma stub_patchToOps:
  "patchToOps (\<lambda>name ns. name) [title_default]
     \<lparr>actor = CAMBRIA_MAGIC_ACTOR, seq = 1, deps = Map.empty, message = [], ops = []\<rparr> n
     stub_instance
   = Return [mkop Set (JStr ROOT_ID) (Some ''title'') (JStr []) None]"
  by (simp add: patchToOps_def patchop_ops_def Let_def patch_action_def title_default_def
      parent_obj_def
      is_scalar_def stub_instance_def initInstance_def stub_lib_def stub_root_type
      ROOT_ID_nonempty)

lemma stub_bootstrap:
  "bootstrap stub_lib stub_instance \<lparr>inDoc = {}, graph = Null\<rparr> = Return stub_defaults"
proof -
  have "applyLensToPatch stub_lib (JArr []) urOp (JObj []) = Return (urOp @ [title_default])"
    and "lensGraphSchema stub_lib Null ''v1'' = JObj []"
    and "v5 stub_lib = (\<lambda>name ns. name)"
    and "schema stub_instance = ''v1''"
    by (simp_all add: stub_lib_def stub_instance_def initInstance_def)
  then show ?thesis
    by (simp add: bootstrap_def Let_def urOp_def stub_patchToOps stub_defaults_def)
qed

lemma stub_apply_bootstrap:
  "applyChangesToInstance stub_lib stub_instance [stub_defaults]
   = Return (stub_booted, stub_patch [JStr CAMBRIA_MAGIC_ACTOR] [CAMBRIA_MAGIC_ACTOR \<mapsto> 1])"
  by (simp add: applyChangesToInstance_def stub_instance_def initInstance_def stub_lib_def
      stub_patch_def elem_step_def or0_def elem_or0_def mkop_def stub_booted_def
      stub_defaults_def)

lemma stub_unbooted:
  "initInstance stub_lib ''v1'' = stub_instance" "\<not> bootstrapped stub_instance"
  by (simp_all add: stub_instance_def initInstance_def)

lemma stub_local:
  "CambriaBackend_applyLocalChange stub_lib stub_engine stub_change =
     Return (stub_engine_local [CAMBRIA_MAGIC_ACTOR \<mapsto> 1, ''a'' \<mapsto> 1],
             stub_patch [JStr CAMBRIA_MAGIC_ACTOR, JStr ''a''] [CAMBRIA_MAGIC_ACTOR \<mapsto> 1, ''a'' \<mapsto> 1],
             stub_block)"
proof -
  have a: "actor (inject_deps stub_change) = ''a''" "seq (inject_deps stub_change) = 1"
    by (simp_all add: inject_deps_def stub_change_def)
  have bl: "Backend_applyLocalChange stub_lib st (inject_deps stub_change)
     = Return (st, stub_patch [JStr ''a''] [CAMBRIA_MAGIC_ACTOR \<mapsto> 1, ''a'' \<mapsto> 1])" for st
    by (simp add: stub_lib_def a)
  have sc: "actor stub_change = ''a''" "seq stub_change = 1"
    by (simp_all add: stub_change_def)
  show ?thesis
    unfolding CambriaBackend_applyLocalChange_def Let_def
    by (simp add: stub_engine_def getInstance_def stub_unbooted stub_bootstrap
        stub_apply_bootstrap bl sc stub_patch_def stub_booted_def stub_block_def
        stub_engine_local_def)
qed

lemma stub_class_applyChanges:
  "CambriaBackend_applyChanges 0 stub_lib stub_engine [] =
     Return (stub_engine_booted, stub_patch [JStr CAMBRIA_MAGIC_ACTOR] [CAMBRIA_MAGIC_ACTOR \<mapsto> 1])"
proof -
  have b: "stub_instance\<lparr>bootstrapped := True\<rparr> = X \<Longrightarrow>
    applyChangesToInstance stub_lib X cs = applyChangesToInstance stub_lib stub_instance cs" for X cs
    by (auto simp: applyChangesToInstance_def)
  show ?thesis
    unfolding CambriaBackend_applyChanges_def Let_def
    by (simp add: stub_engine_def getInstance_def stub_unbooted stub_bootstrap b
        stub_apply_bootstrap stub_engine_booted_def)
qed

lemma stub_applyChanges:
  "applyChanges 0 stub_lib stub_engine [] =
     Return (stub_engine\<lparr>instances := [''v1'' \<mapsto> stub_booted\<lparr>clock := Map.empty, ideps := Map.empty\<rparr>]\<rparr>,
             stub_patch [JStr CAMBRIA_MAGIC_ACTOR] Map.empty)"
  unfolding applyChanges_def stub_class_applyChanges
  by (simp add: scrub_def scrub_shared_def stub_patch_def
      stub_engine_booted_def stub_engine_def stub_booted_def)

lemma stub_applyLocalChange:
  "applyLocalChange stub_lib stub_engine stub_change =
     Return (stub_engine_local [''a'' \<mapsto> 1],
             stub_patch [JStr CAMBRIA_MAGIC_ACTOR, JStr ''a''] [''a'' \<mapsto> 1],
             stub_block)"
proof -
  have ne: "CAMBRIA_MAGIC_ACTOR \<noteq> ''a''"
    by (simp add: CAMBRIA_MAGIC_ACTOR_def)
  have m: "[CAMBRIA_MAGIC_ACTOR \<mapsto> 1::int, ''a'' \<mapsto> 1](CAMBRIA_MAGIC_ACTOR := None) = [''a'' \<mapsto> 1]"
    using ne by auto
  show ?thesis
    unfolding applyLocalChange_def stub_local
    by (simp add: scrub_def scrub_shared_def stub_patch_def stub_booted_def m
        stub_engine_local_def)
qed

lemma stub_getPatch:
  "getPatch 0 stub_lib stub_engine = Return (stub_engine_booted, stub_patch [] Map.empty)"
proof -
  have g: "Backend_getPatch stub_lib st = Return (stub_patch [] [CAMBRIA_MAGIC_ACTOR \<mapsto> 1])" for st
    by (simp add: stub_lib_def)
  have "CambriaBackend_getPatch 0 stub_lib stub_engine
      = Return (stub_engine_booted, stub_patch [] [CAMBRIA_MAGIC_ACTOR \<mapsto> 1])"
    unfolding CambriaBackend_getPatch_def stub_class_applyChanges
    by (simp add: getInstance_def stub_engine_booted_def stub_engine_def g)
  then show ?thesis
    unfolding getPatch_def by (simp add: scrub_def stub_patch_def)
qed

lemma bootstrap_like_stub:
  assumes "applyLensToPatch L = applyLensToPatch stub_lib"
    and "lensGraphSchema L = lensGraphSchema stub_lib"
    and "v5 L = v5 stub_lib"
  shows "bootstrap L stub_instance \<lparr>inDoc = {}, graph = Null\<rparr> = Return stub_defaults"
proof -
  have "bootstrap L stub_instance \<lparr>inDoc = {}, graph = Null\<rparr>
          = bootstrap stub_lib stub_instance \<lparr>inDoc = {}, graph = Null\<rparr>"
    by (simp add: bootstrap_def Let_def assms)
  then show ?thesis
    by (simp add: stub_bootstrap)
qed

lemma ready_first:
  "CambriaBackend_applyChanges 0 ready_lib stub_engine [stub_block] =
     Return (ready_engine,
             stub_patch [JStr CAMBRIA_MAGIC_ACTOR, JStr ''a''] [CAMBRIA_MAGIC_ACTOR \<mapsto> 1, ''a'' \<mapsto> 1])"
proof -
  have i: "initInstance ready_lib ''v1'' = stub_instance"
    by (simp add: initInstance_def stub_instance_def ready_lib_def stub_lib_def)
  have b: "bootstrap ready_lib stub_instance \<lparr>inDoc = {}, graph = Null\<rparr> = Return stub_defaults"
    by (rule bootstrap_like_stub) (simp_all add: ready_lib_def)
  have blk: "bseq stub_block = 1" "bactor stub_block = ''a''" "lenses stub_block = []"
    "bschema stub_block = ''v1''" "schema stub_instance = ''v1''"
    "clock stub_instance = Map.empty"
    by (simp_all add: stub_block_def stub_instance_def initInstance_def)
  have ac: "applyChangesToInstance ready_lib (stub_instance\<lparr>bootstrapped := True\<rparr>)
              [stub_defaults, bchange stub_block]
            = Return (ready_instance,
                stub_patch [JStr CAMBRIA_MAGIC_ACTOR, JStr ''a''] [CAMBRIA_MAGIC_ACTOR \<mapsto> 1, ''a'' \<mapsto> 1])"
    by (simp add: applyChangesToInstance_def stub_instance_def initInstance_def ready_lib_def
        stub_lib_def stub_patch_def elem_step_def or0_def elem_or0_def mkop_def
        stub_defaults_def stub_block_def inject_deps_def stub_change_def ready_instance_def
        CAMBRIA_MAGIC_ACTOR_def)
  show ?thesis
    unfolding CambriaBackend_applyChanges_def Let_def
    by (simp add: stub_engine_def getInstance_def i stub_unbooted blk or0_def b ac
        ready_engine_def)
qed

lemma held_apply:
  "CambriaBackend_applyChanges 0 held_lib
       (stub_engine\<lparr>history := h, instances := [''v1'' \<mapsto> i]\<rparr>) [waiting_block]
     = Return (held_engine (h @ [waiting_block]), stub_patch [] [CAMBRIA_MAGIC_ACTOR \<mapsto> 1])"
  if "i = stub_booted \<or> i = stub_booted\<lparr>ielem := [CAMBRIA_MAGIC_ACTOR \<mapsto> 0, ''a'' \<mapsto> 0]\<rparr>"
proof -
  have blk: "bseq waiting_block = 1" "bactor waiting_block = ''a''" "lenses waiting_block = []"
    "bschema waiting_block = ''v1''"
    by (simp_all add: waiting_block_def)
  have i: "clock i = [CAMBRIA_MAGIC_ACTOR \<mapsto> 1]" "schema i = ''v1''" "bootstrapped i"
    using that by (auto simp: stub_booted_def)
  have ne: "CAMBRIA_MAGIC_ACTOR \<noteq> ''a''" "''a'' \<noteq> CAMBRIA_MAGIC_ACTOR"
    by (simp_all add: CAMBRIA_MAGIC_ACTOR_def)
  have ac: "applyChangesToInstance held_lib i [bchange waiting_block]
            = Return (stub_booted\<lparr>ielem := [CAMBRIA_MAGIC_ACTOR \<mapsto> 0, ''a'' \<mapsto> 0]\<rparr>,
                      stub_patch [] [CAMBRIA_MAGIC_ACTOR \<mapsto> 1])"
    using that ne
    by (auto simp: applyChangesToInstance_def held_lib_def stub_lib_def stub_patch_def
        elem_step_def or0_def elem_or0_def mkop_def waiting_block_def stub_booted_def)
  show ?thesis
    unfolding CambriaBackend_applyChanges_def Let_def
    by (simp add: stub_engine_def getInstance_def blk i or0_def ne ac held_engine_def)
qed

subsection \<open>The small engine on a fresh instance and on a block of another schema\<close>

lemma stub_schema_booted:
  "applySchemaChanges 0 stub_lib [] stub_booted \<lparr>inDoc = {}, graph = Null\<rparr> []
     = Return (stub_booted, stub_patch [] [CAMBRIA_MAGIC_ACTOR \<mapsto> 1], \<lparr>inDoc = {}, graph = Null\<rparr>)"
  by (simp add: applyChangesToInstance_def stub_booted_def stub_lib_def stub_patch_def)

lemma stub_bootstrap_v0:
  "bootstrap stub_lib (initInstance stub_lib ''v0'') \<lparr>inDoc = {}, graph = Null\<rparr>
     = Return stub_defaults"
proof -
  have p: "patchToOps (\<lambda>name ns. name) [title_default]
     \<lparr>actor = CAMBRIA_MAGIC_ACTOR, seq = 1, deps = Map.empty, message = [], ops = []\<rparr> n
     (initInstance stub_lib ''v0'')
   = Return [mkop Set (JStr ROOT_ID) (Some ''title'') (JStr []) None]" for n
    by (simp add: patchToOps_def patchop_ops_def Let_def patch_action_def title_default_def
        parent_obj_def is_scalar_def initInstance_def stub_lib_def stub_root_type
        ROOT_ID_nonempty)
  have "applyLensToPatch stub_lib (JArr []) urOp (JObj []) = Return (urOp @ [title_default])"
    and "lensGraphSchema stub_lib Null ''v0'' = JObj []"
    and "v5 stub_lib = (\<lambda>name ns. name)"
    and "schema (initInstance stub_lib ''v0'') = ''v0''"
    by (simp_all add: stub_lib_def initInstance_def)
  then show ?thesis
    by (simp add: bootstrap_def Let_def urOp_def p stub_defaults_def)
qed

lemma stub_instance_at_v0:
  "getInstanceAt (Suc 0) stub_lib ''v0'' ''b'' 1 \<lparr>inDoc = {}, graph = Null\<rparr> [old_block]
     = Return (stub_booted\<lparr>schema := ''v0''\<rparr>, \<lparr>inDoc = {}, graph = Null\<rparr>)"
proof -
  have f: "actor (bchange old_block) = ''b''" "seq (bchange old_block) = 1"
    by (simp_all add: old_block_def old_change_def)
  have u: "\<not> bootstrapped (initInstance stub_lib ''v0'')"
    by (simp add: initInstance_def)
  have ac: "applyChangesToInstance stub_lib ((initInstance stub_lib ''v0'')\<lparr>bootstrapped := True\<rparr>)
              [stub_defaults]
            = Return (stub_booted\<lparr>schema := ''v0''\<rparr>,
                      stub_patch [JStr CAMBRIA_MAGIC_ACTOR] [CAMBRIA_MAGIC_ACTOR \<mapsto> 1])"
    by (simp add: applyChangesToInstance_def initInstance_def stub_lib_def stub_patch_def
        elem_step_def or0_def elem_or0_def mkop_def stub_booted_def stub_defaults_def)
  show ?thesis
    by (simp add: f u stub_bootstrap_v0 ac)
qed

lemma stub_convert_old:
  "convertChange stub_lib old_block f t ls = Return (old_change, f, t)"
proof -
  have "sortOps old_change = Return old_change"
    by (simp add: sortOps_def old_change_def sortOps_loop.simps)
  then show ?thesis
    by (simp add: convertChange_def old_block_def) (simp add: old_change_def)
qed

lemma stub_blocks_old:
  "blocks_loop (Suc 0) stub_lib stub_booted [old_block] [old_block]
       (\<lparr>inDoc = {}, graph = Null\<rparr>, None, None, [])
     = Return (\<lparr>inDoc = {}, graph = Null\<rparr>, Some (stub_booted\<lparr>schema := ''v0''\<rparr>),
               Some stub_booted, [old_change])"
proof -
  have b: "bschema old_block = ''v0''" "lenses old_block = []"
    "actor (bchange old_block) = ''b''" "seq (bchange old_block) = 1"
    "schema stub_booted = ''v1''" "bootstrapped stub_booted"
    by (simp_all add: old_block_def old_change_def stub_booted_def)
  show ?thesis
    by (simp add: b stub_instance_at_v0 stub_convert_old del: getInstanceAt.simps)
qed

lemma stub_local_booted:
  "CambriaBackend_applyLocalChange stub_lib stub_engine_booted stub_change =
     Return (stub_engine_local [CAMBRIA_MAGIC_ACTOR \<mapsto> 1, ''a'' \<mapsto> 1],
             stub_patch [JStr ''a''] [CAMBRIA_MAGIC_ACTOR \<mapsto> 1, ''a'' \<mapsto> 1],
             stub_block)"
proof -
  have a: "actor (inject_deps stub_change) = ''a''" "seq (inject_deps stub_change) = 1"
    by (simp_all add: inject_deps_def stub_change_def)
  have bl: "Backend_applyLocalChange stub_lib st (inject_deps stub_change)
     = Return (st, stub_patch [JStr ''a''] [CAMBRIA_MAGIC_ACTOR \<mapsto> 1, ''a'' \<mapsto> 1])" for st
    by (simp add: stub_lib_def a)
  have sc: "actor stub_change = ''a''" "seq stub_change = 1"
    by (simp_all add: stub_change_def)
  show ?thesis
    unfolding CambriaBackend_applyLocalChange_def Let_def
    by (simp add: stub_engine_booted_def stub_engine_def getInstance_def bl sc stub_patch_def
        stub_booted_def stub_block_def stub_engine_local_def)
qed

subsection \<open>The document with lists, evaluated\<close>

lemma ROOT_ID_not_demo:
  "ROOT_ID \<noteq> ''L''" "ROOT_ID \<noteq> ''M''" "ROOT_ID \<noteq> ''P''" "ROOT_ID \<noteq> ''N''" "ROOT_ID \<noteq> ''A''"
  by (simp_all add: ROOT_ID_def)

lemma demo_root:
  "byObject demo_state (JStr ROOT_ID) = Some
     \<lparr>init_action = None, keys = demo_root_keys, elemIds = None, inbound = []\<rparr>"
  by (simp add: byObject_def demo_state_def ROOT_ID_def)

lemma demo_L:
  "byObject demo_state (JStr ''L'') = Some
     \<lparr>init_action = Some MakeList, keys = (\<lambda>k. []),
      elemIds = Some [(''a:1'', JStr ''x''), (''a:2'', JStr ''y'')],
      inbound = [(ROOT_ID, ''tags'')]\<rparr>"
  by (simp add: byObject_def demo_state_def ROOT_ID_def)

lemma demo_M:
  "byObject demo_state (JStr ''M'') = Some
     \<lparr>init_action = Some MakeMap,
      keys = (\<lambda>k. if k = ''author'' then [JStr ''Klaus''] else []),
      elemIds = None, inbound = [(ROOT_ID, ''details'')]\<rparr>"
  by (simp add: byObject_def demo_state_def ROOT_ID_def)

lemma demo_P:
  "byObject demo_state (JStr ''P'') = Some
     \<lparr>init_action = Some MakeList, keys = (\<lambda>k. []),
      elemIds = Some [(''a:5'', JObj [(''obj'', JStr ''N'')])],
      inbound = [(ROOT_ID, ''people'')]\<rparr>"
  by (simp add: byObject_def demo_state_def ROOT_ID_def)

lemma demo_N:
  "byObject demo_state (JStr ''N'') = Some
     \<lparr>init_action = Some MakeMap,
      keys = (\<lambda>k. if k = ''name'' then [JStr ''Ann'']
                  else if k = ''address'' then [JStr ''A'']
                  else []),
      elemIds = None, inbound = [(''P'', ''a:5'')]\<rparr>"
  by (simp add: byObject_def demo_state_def ROOT_ID_def)

lemma demo_A:
  "byObject demo_state (JStr ''A'') = Some
     \<lparr>init_action = Some MakeMap,
      keys = (\<lambda>k. if k = ''city'' then [JStr ''Ulm''] else []),
      elemIds = None, inbound = [(''N'', ''address'')]\<rparr>"
  by (simp add: byObject_def demo_state_def ROOT_ID_def)

lemma demo_types:
  "getObjType demo_state (JStr ROOT_ID) = object_t"
  "getObjType demo_state (JStr ''L'') = list_t"
  "getObjType demo_state (JStr ''M'') = object_t"
  "getObjType demo_state (JStr ''P'') = list_t"
  "getObjType demo_state (JStr ''N'') = object_t"
  "getObjType demo_state (JStr ''A'') = object_t"
  by (simp_all add: getObjType_def demo_root demo_L demo_M demo_P demo_N demo_A)

lemma demo_elemIds:
  "elemIds_of demo_state (JStr ''L'') = Some [(''a:1'', JStr ''x''), (''a:2'', JStr ''y'')]"
  "elemIds_of demo_state (JStr ''P'') = Some [(''a:5'', JObj [(''obj'', JStr ''N'')])]"
  "elemIds_of demo_state (JStr ''M'') = None"
  by (simp_all add: elemIds_of_def demo_L demo_P demo_M)

lemma demo_keys:
  "demo_root_keys ''tags'' = [JStr ''L'']" "demo_root_keys ''details'' = [JStr ''M'']"
  "demo_root_keys ''note'' = [Null]" "demo_root_keys ''name'' = [JStr ''hello'']"
  "demo_root_keys ''people'' = [JStr ''P'']" "demo_root_keys ''title'' = []"
  "demo_root_keys ''a'' = []"
  by (simp_all add: demo_root_keys_def)

lemma demo_getObjId_tags: "getObjId demo_state ''/tags'' = Return (JStr ''L'')"
  by (simp add: getObjId_def demo_types demo_root demo_keys)

lemma demo_find:
  "findElemOfIndex demo_state (JStr ''L'') (Some 5) = Return None"
  "findElemOfIndex demo_state (JStr ''L'') (Some (- 3)) = Return None"
  "findElemOfIndex demo_state (JStr ''L'') (Some (- 2)) = Return (Some ''a:1'')"
  "findElemOfIndex demo_state (JStr ''L'') (Some (- 1)) = Return (Some ''_head'')"
  by (simp_all add: findElemOfIndex_def demo_elemIds SkipList_keyOf_def)

lemma demo_patch_action_scalar:
  "is_scalar v \<Longrightarrow> patch_action \<lparr>pop = ''replace'', path = p, pvalue = v\<rparr> m pc = Return (Set, [], pc)"
  by (simp add: patch_action_def)

lemma parseInt_digit:
  "parseInt ''5'' = Some 5" "parseInt ''-2'' = Some (- 2)" "parseInt ''-3'' = Some (- 3)"
  "parseInt ''-1'' = Some (- 1)"
  by (simp_all add: parseInt_def is_space_def parse_unsigned_def digit_val_def)

lemma demo_paths:
  "getPath demo_state (JStr ''L'') = Return (Some [''tags''])"
  "getPath demo_state (JStr ''M'') = Return (Some [''details''])"
  by (simp_all add: getPath_def getPath_loop.simps demo_L demo_M demo_types ROOT_ID_not_demo
      ROOT_ID_not_demo [symmetric])

lemma demo_values:
  "getMapValue demo_state (JStr ROOT_ID) ''note'' = Null"
  "getMapValue demo_state (JStr ROOT_ID) ''title'' = Undefined"
  "getMapValue demo_state (JStr ''M'') ''author'' = JStr ''Klaus''"
  by (simp_all add: getMapValue_def demo_root demo_M demo_keys)

lemma demo_index:
  "findIndexOfElem demo_state (JStr ''L'') ''a:1'' = Return 0"
  "findIndexOfElem demo_state (JStr ''L'') ''a:2'' = Return 1"
  "findIndexOfElem demo_state (JStr ''L'') ''toString'' = Return (- 1)"
  "findIndexOfElem demo_state (JStr ''M'') ''a:1'' = Throw TypeError"
  by (simp_all add: findIndexOfElem_def demo_elemIds SkipList_indexOf_def)

lemma show_int_digits:
  "show_int 0 = ''0''" "show_int 1 = ''1''" "show_int 2 = ''2''" "show_int 3 = ''3''"
  "show_int (- 1) = ''-1''"
  by (simp_all add: show_int_def show_nat.simps digit_char_def)

lemma demo_set_note:
  "opToPatch set_note demo_instance Map.empty
     = Return ([\<lparr>pop = ''add'', path = ''/note'', pvalue = JStr ''Joe''\<rparr>], Map.empty)"
  by (simp add: opToPatch_def buildPath_def key_cached_def Let_def set_note_def mkop_def
      demo_instance_def demo_types demo_values getPath_root)

lemma two_lists_ops:
  "action overwrite_L1 = Set" "key overwrite_L1 = Some ''a:1''"
  "action insert_L2 = Ins" "elem insert_L2 = Some 1"
  "action fill_L2 = Set" "key fill_L2 = Some ''a:1''"
  by (simp_all add: overwrite_L1_def insert_L2_def fill_L2_def mkop_def)

lemma demo_opSet:
  "opSet demo_state ROOT_ID = Some
     \<lparr>init_action = None, keys = demo_root_keys, elemIds = None, inbound = []\<rparr>"
  "opSet demo_state ''M'' = Some
     \<lparr>init_action = Some MakeMap,
      keys = (\<lambda>k. if k = ''author'' then [JStr ''Klaus''] else []),
      elemIds = None, inbound = [(ROOT_ID, ''details'')]\<rparr>"
  "opSet demo_state ''L'' = Some
     \<lparr>init_action = Some MakeList, keys = (\<lambda>k. []),
      elemIds = Some [(''a:1'', JStr ''x''), (''a:2'', JStr ''y'')],
      inbound = [(ROOT_ID, ''tags'')]\<rparr>"
  "opSet demo_state ''P'' = Some
     \<lparr>init_action = Some MakeList, keys = (\<lambda>k. []),
      elemIds = Some [(''a:5'', JObj [(''obj'', JStr ''N'')])],
      inbound = [(ROOT_ID, ''people'')]\<rparr>"
  "opSet demo_state ''N'' = Some
     \<lparr>init_action = Some MakeMap,
      keys = (\<lambda>k. if k = ''name'' then [JStr ''Ann'']
                  else if k = ''address'' then [JStr ''A'']
                  else []),
      elemIds = None, inbound = [(''P'', ''a:5'')]\<rparr>"
  using demo_root demo_M demo_L demo_P demo_N by (simp_all add: byObject_def)

lemma demo_linked_by_maps:
  "linked_by_maps demo_state ''M''" "linked_by_maps demo_state ''L''"
  "linked_by_maps demo_state ''P''"
proof -
  have r: "linked_by_maps demo_state ROOT_ID"
    by (rule linked_by_maps.root)
  show "linked_by_maps demo_state ''M''"
    by (rule linked_by_maps.step [OF _ demo_opSet(2) _ demo_types(1) demo_opSet(1) _ _ r,
          where pkey = "''details''" and refs = "[]" and others = "[]"])
      (simp_all add: ROOT_ID_not_demo [symmetric] demo_keys)
  show "linked_by_maps demo_state ''L''"
    by (rule linked_by_maps.step [OF _ demo_opSet(3) _ demo_types(1) demo_opSet(1) _ _ r,
          where pkey = "''tags''" and refs = "[]" and others = "[]"])
      (simp_all add: ROOT_ID_not_demo [symmetric] demo_keys)
  show "linked_by_maps demo_state ''P''"
    by (rule linked_by_maps.step [OF _ demo_opSet(4) _ demo_types(1) demo_opSet(1) _ _ r,
          where pkey = "''people''" and refs = "[]" and others = "[]"])
      (simp_all add: ROOT_ID_not_demo [symmetric] demo_keys)
qed

lemma demo_linked:
  "linked demo_state ''M''" "linked demo_state ''L''" "linked demo_state ''N''"
proof -
  show "linked demo_state ''M''" "linked demo_state ''L''"
    by (rule linked.maps, rule demo_linked_by_maps)+
  show "linked demo_state ''N''"
    by (rule linked.element [OF _ demo_opSet(5) _ demo_types(4) demo_elemIds(2) _ _ _
          demo_linked_by_maps(3), where ekey = "''a:5''" and refs = "[]"
          and v = "JObj [(''obj'', JStr ''N'')]"])
      (simp_all add: ROOT_ID_not_demo [symmetric] get_obj_def)
qed

text \<open>
  What the resolver does below an element of a list: the path of the map \<open>A\<close>
  (\<open>people[0].address\<close>) is read back as the map \<open>N\<close> (\<open>people[0]\<close>), so a \<open>set\<close> on \<open>A\<close>
  comes back as a \<open>set\<close> on \<open>N\<close>.
\<close>

lemma demo_below_element:
  "getPath demo_state (JStr ''A'') = Return (Some [''people'', ''0'', ''address''])"
  "getObjId demo_state ''/people/0/address'' = Return (JStr ''N'')"
  "roundtrip (\<lambda>name ns. name) third_change 0
       (mkop Set (JStr ''A'') (Some ''city'') (JStr ''Bonn'') None) demo_instance Map.empty
     = Return [mkop Set (JStr ''N'') (Some ''city'') (JStr ''Bonn'') None]"
proof -
  have P0: "SkipList_indexOf ''a:5'' [(''a:5'', JObj [(''obj'', JStr ''N'')])] = 0"
    by (simp add: SkipList_indexOf_def)
  show g: "getPath demo_state (JStr ''A'') = Return (Some [''people'', ''0'', ''address''])"
    by (simp add: getPath_def getPath_loop.simps demo_A demo_N demo_P demo_types demo_elemIds
        P0 show_int_digits ROOT_ID_not_demo ROOT_ID_not_demo [symmetric])
  have p0: "parseInt ''0'' = Some 0"
    by (simp add: parseInt_def is_space_def parse_unsigned_def digit_val_def)
  have f0: "findElemOfIndex demo_state (JStr ''P'') (Some 0) = Return (Some ''a:5'')"
    by (simp add: findElemOfIndex_def demo_elemIds SkipList_keyOf_def)
  show o: "getObjId demo_state ''/people/0/address'' = Return (JStr ''N'')"
    by (simp add: getObjId_def demo_types demo_root demo_keys p0 f0 demo_elemIds
        SkipList_getValue_def get_obj_def)
  have otp: "opToPatch (mkop Set (JStr ''A'') (Some ''city'') (JStr ''Bonn'') None) demo_instance
       Map.empty
     = Return ([\<lparr>pop = ''replace'', path = ''/people/0/address/city'', pvalue = JStr ''Bonn''\<rparr>],
               Map.empty)"
    by (simp add: opToPatch_def buildPath_def Let_def mkop_def demo_instance_def demo_types g
        getMapValue_def demo_A)
  have "patchToOps (\<lambda>name ns. name)
          [\<lparr>pop = ''replace'', path = ''/people/0/address/city'', pvalue = JStr ''Bonn''\<rparr>]
          third_change 0 demo_instance
        = Return [mkop Set (JStr ''N'') (Some ''city'') (JStr ''Bonn'') None]"
    using o
    by (simp add: patchToOps_def patchop_ops_def Let_def patch_action_def is_scalar_def
        parent_obj_def demo_instance_def demo_types Object_prototype_def)
  with otp show "roundtrip (\<lambda>name ns. name) third_change 0
       (mkop Set (JStr ''A'') (Some ''city'') (JStr ''Bonn'') None) demo_instance Map.empty
     = Return [mkop Set (JStr ''N'') (Some ''city'') (JStr ''Bonn'') None]"
    by (simp add: roundtrip_def)
qed

text \<open>
  What \<open>patchToOps\<close> does with a \<open>replace\<close> at a negative index of the list \<open>tags\<close>, which
  has two elements: \<open>-1\<close> is taken for the head of the list, \<open>-2\<close> is counted from the
  end and overwrites the first element, \<open>-3\<close> finds no element.
\<close>

lemma demo_negative_index:
  "patchToOps (\<lambda>name ns. name) [\<lparr>pop = ''replace'', path = ''/tags/-1'', pvalue = JStr ''z''\<rparr>]
       stub_change 0 demo_instance
     = Return [mkop Set (JStr ''L'') (Some ''_head'') (JStr ''z'') None]"
  "patchToOps (\<lambda>name ns. name) [\<lparr>pop = ''replace'', path = ''/tags/-2'', pvalue = JStr ''z''\<rparr>]
       stub_change 0 demo_instance
     = Return [mkop Set (JStr ''L'') (Some ''a:1'') (JStr ''z'') None]"
  "patchToOps (\<lambda>name ns. name) [\<lparr>pop = ''replace'', path = ''/tags/-3'', pvalue = JStr ''z''\<rparr>]
       stub_change 0 demo_instance
     = Return []"
  using demo_getObjId_tags
  by (simp_all add: patchToOps_def patchop_ops_def Let_def patch_action_def is_scalar_def
      parent_obj_def demo_instance_def demo_types Object_prototype_def list_key_def
      parseInt_digit demo_find)

text \<open>
  What the resolver does at a list with an index that has no element, and with a
  segment that is no number.
\<close>

lemma demo_getObjId_list:
  "getObjId demo_state ''/tags/7'' = Throw (RangeError ''Key must be a nonempty string'')"
  "getObjId demo_state ''/tags/x'' = NoReturn"
proof -
  have p: "parseInt ''7'' = Some 7" "parseInt ''x'' = None"
    by (simp_all add: parseInt_def is_space_def parse_unsigned_def digit_val_def)
  have f: "findElemOfIndex demo_state (JStr ''L'') (Some 7) = Return None"
    "findElemOfIndex demo_state (JStr ''L'') None = NoReturn"
    by (simp_all add: findElemOfIndex_def demo_elemIds SkipList_keyOf_def)
  show "getObjId demo_state ''/tags/7'' = Throw (RangeError ''Key must be a nonempty string'')"
    "getObjId demo_state ''/tags/x'' = NoReturn"
    by (simp_all add: getObjId_def demo_types demo_root demo_keys p f demo_elemIds
        SkipList_getValue_def)
qed

text \<open>
  What \<open>opToPatch\<close> does with a \<open>set\<close> on the list \<open>tags\<close> whose key is a name that every
  object inherits: the lookup in the element cache finds the inherited function, and
  the patch op is \<open>add\<close>, at the index \<open>-1\<close> of a key that is no element.
\<close>

lemma demo_inherited_key:
  "opToPatch set_toString demo_instance Map.empty
     = Return ([\<lparr>pop = ''add'', path = ''/tags/-1'', pvalue = JStr ''v''\<rparr>], Map.empty)"
  by (simp add: opToPatch_def buildPath_def key_cached_def Let_def set_toString_def mkop_def
      demo_instance_def demo_types demo_paths demo_index show_int_digits Object_prototype_def)

text \<open>
  What \<open>insert_elem\<close> gives on the instance whose counter for the actor \<open>a\<close> is \<open>2\<close>: the
  number of the key when it is safe and not \<open>0\<close>, the counter plus one for the key
  \<open>a:0\<close>, and no number that is followed here for a key whose number a double does not
  hold, or for an actor without a counter whose name every object inherits.
\<close>

lemma demo_insert_elem:
  "insert_elem (mkop Set (JStr ''L'') (Some ''a:3'') (JStr ''el'') None) demo_instance ''a''
     = Return 3"
  "insert_elem (mkop Set (JStr ''L'') (Some ''a:0'') (JStr ''el'') None) demo_instance ''a''
     = Return 3"
  "insert_elem (mkop Set (JStr ''L'') (Some ''a:9007199254740993'') (JStr ''el'') None)
       demo_instance ''a''
     = Outside"
  "insert_elem (mkop Set (JStr ''L'') (Some ''a:0'') (JStr ''el'') None) demo_instance
       ''valueOf''
     = Outside"
  by (simp_all add: insert_elem_def next_elem_def elem_counter_def mkop_def demo_instance_def
      parseInt_def is_space_def parse_unsigned_def digit_val_def safe_def Object_prototype_def)

section \<open>The claims\<close>

text \<open>
  C1 (amended). Round trip of a \<open>set\<close> op with a null, string, number or boolean value,
  or of a \<open>del\<close> op without a value, that has a key and no \<open>elem\<close>, on a linked object
  (linked from the root through map keys without \<open>/\<close>, the last step possibly an
  element of a list): \<open>opToPatch\<close> and then \<open>patchToOps\<close> against the same instance
  give exactly \<open>[X]\<close>
  \<^item> when the object is a map and the key has no \<open>/\<close>;
  \<^item> when the object is a list, the key is \<open>_head\<close> or one of its element ids, is not
    in the element cache and, for a \<open>set\<close>, is not a name that every object inherits.

  For a \<open>set\<close> on a list whose non-empty key is in the element cache (an insertion after
  the cached op's key, which is \<open>_head\<close> or an element of the list) they give two ops,
  an \<open>ins\<close> after that key with \<open>elem = e\<close> and the \<open>set\<close> with the key \<open>actor:e\<close>. Here
  \<open>e\<close> is the number after the first \<open>:\<close> in the key of the change's op at \<open>opIndex\<close>,
  or, when there is none or it is \<open>0\<close>, one more than the instance's counter for the
  actor; \<open>e\<close> is followed as long as it is a safe integer. When that op is \<open>X\<close> itself
  and its key is \<open>actor:m\<close> with \<open>m\<close> a safe integer other than \<open>0\<close>, written in decimal,
  and the actor has no \<open>:\<close>, the \<open>set\<close> that comes back is \<open>X\<close>.
\<close>

theorem roundtrip_set_del:
  "((action X1 = Set \<and> is_scalar (val X1) \<or> action X1 = Del \<and> val X1 = Undefined)
      \<and> key X1 = Some k1 \<and> CHR ''/'' \<notin> set k1 \<and> elem X1 = None
      \<and> obj X1 = JStr c1 \<and> linked (state i1) c1
      \<and> getObjType (state i1) (JStr c1) = object_t \<longrightarrow>
      roundtrip u1 g1 n1 X1 i1 e1 = Return [X1])
   \<and> ((action X2 = Set \<and> is_scalar (val X2) \<and> k2 \<notin> set Object_prototype
          \<or> action X2 = Del \<and> val X2 = Undefined)
      \<and> key X2 = Some k2 \<and> e2 k2 = None \<and> elem X2 = None
      \<and> obj X2 = JStr c2 \<and> linked (state i2) c2
      \<and> getObjType (state i2) (JStr c2) = list_t
      \<and> elemIds_of (state i2) (JStr c2) = Some es2
      \<and> (k2 = ''_head'' \<or> k2 \<noteq> [] \<and> k2 \<in> fst ` set es2) \<longrightarrow>
      roundtrip u2 g2 n2 X2 i2 e2 = Return [X2])
   \<and> (action X3 = Set \<and> is_scalar (val X3)
      \<and> key X3 = Some k3 \<and> k3 \<noteq> [] \<and> e3 k3 = Some cached \<and> key cached = Some prevKey
      \<and> elem X3 = None \<and> obj X3 = JStr c3 \<and> linked (state i3) c3
      \<and> getObjType (state i3) (JStr c3) = list_t
      \<and> elemIds_of (state i3) (JStr c3) = Some es3
      \<and> (prevKey = ''_head'' \<or> prevKey \<noteq> [] \<and> prevKey \<in> fst ` set es3)
      \<and> n3 < length (ops g3) \<longrightarrow>
      roundtrip u3 g3 n3 X3 i3 e3 =
        bind (insert_elem (ops g3 ! n3) i3 (actor g3)) (\<lambda>e.
          Return [mkop Ins (JStr c3) (Some prevKey) Undefined (Some e),
                  X3\<lparr>key := Some (actor g3 @ '':'' @ show_int e)\<rparr>])
      \<and> (ops g3 ! n3 = X3 \<and> k3 = actor g3 @ '':'' @ show_int m3 \<and> m3 \<noteq> 0 \<and> safe m3
           \<and> CHR '':'' \<notin> set (actor g3) \<longrightarrow>
         roundtrip u3 g3 n3 X3 i3 e3 =
           Return [mkop Ins (JStr c3) (Some prevKey) Undefined (Some m3), X3]))"
proof (intro conjI impI)
  assume "(action X1 = Set \<and> is_scalar (val X1) \<or> action X1 = Del \<and> val X1 = Undefined)
      \<and> key X1 = Some k1 \<and> CHR ''/'' \<notin> set k1 \<and> elem X1 = None
      \<and> obj X1 = JStr c1 \<and> linked (state i1) c1
      \<and> getObjType (state i1) (JStr c1) = object_t"
  then show "roundtrip u1 g1 n1 X1 i1 e1 = Return [X1]"
    by (intro roundtrip_map [of X1 k1 c1 i1]) simp_all
next
  assume "(action X2 = Set \<and> is_scalar (val X2) \<and> k2 \<notin> set Object_prototype
          \<or> action X2 = Del \<and> val X2 = Undefined)
      \<and> key X2 = Some k2 \<and> e2 k2 = None \<and> elem X2 = None
      \<and> obj X2 = JStr c2 \<and> linked (state i2) c2
      \<and> getObjType (state i2) (JStr c2) = list_t
      \<and> elemIds_of (state i2) (JStr c2) = Some es2
      \<and> (k2 = ''_head'' \<or> k2 \<noteq> [] \<and> k2 \<in> fst ` set es2)"
  then show "roundtrip u2 g2 n2 X2 i2 e2 = Return [X2]"
    by (intro roundtrip_list [of X2 k2 e2 c2 i2 es2]) simp_all
next
  assume a: "action X3 = Set \<and> is_scalar (val X3)
      \<and> key X3 = Some k3 \<and> k3 \<noteq> [] \<and> e3 k3 = Some cached \<and> key cached = Some prevKey
      \<and> elem X3 = None \<and> obj X3 = JStr c3 \<and> linked (state i3) c3
      \<and> getObjType (state i3) (JStr c3) = list_t
      \<and> elemIds_of (state i3) (JStr c3) = Some es3
      \<and> (prevKey = ''_head'' \<or> prevKey \<noteq> [] \<and> prevKey \<in> fst ` set es3)
      \<and> n3 < length (ops g3)"
  then show r: "roundtrip u3 g3 n3 X3 i3 e3 =
        bind (insert_elem (ops g3 ! n3) i3 (actor g3)) (\<lambda>e.
          Return [mkop Ins (JStr c3) (Some prevKey) Undefined (Some e),
                  X3\<lparr>key := Some (actor g3 @ '':'' @ show_int e)\<rparr>])"
    by (intro roundtrip_insert [of X3 k3 e3 cached prevKey c3 i3 es3]) simp_all
  assume b: "ops g3 ! n3 = X3 \<and> k3 = actor g3 @ '':'' @ show_int m3 \<and> m3 \<noteq> 0 \<and> safe m3
           \<and> CHR '':'' \<notin> set (actor g3)"
  with a have "insert_elem (ops g3 ! n3) i3 (actor g3) = Return m3"
    by (intro insert_elem_own_key [of _ "actor g3"]) simp_all
  moreover have "X3\<lparr>key := Some (actor g3 @ '':'' @ show_int m3)\<rparr> = X3"
    using a b by simp
  ultimately show "roundtrip u3 g3 n3 X3 i3 e3 =
           Return [mkop Ins (JStr c3) (Some prevKey) Undefined (Some m3), X3]"
    using r by simp
qed

text \<open>
  On the document with lists: a \<open>set\<close> on the map \<open>people[0]\<close>, which is the value of an
  element of a list, a \<open>set\<close> that overwrites the second element of \<open>tags\<close>, and a \<open>set\<close>
  that fills the element \<open>a:3\<close> inserted after it.
\<close>

theorem roundtrip_set_del_witness:
  "linked (state demo_instance) ''N''
   \<and> getObjType (state demo_instance) (JStr ''N'') = object_t
   \<and> roundtrip (\<lambda>name ns. name) third_change 0 set_name demo_instance Map.empty
       = Return [set_name]
   \<and> linked (state demo_instance) ''L''
   \<and> roundtrip (\<lambda>name ns. name) third_change 0 set_second demo_instance Map.empty
       = Return [set_second]
   \<and> safe 3
   \<and> roundtrip (\<lambda>name ns. name) third_change 1 set_third demo_instance [''a:3'' \<mapsto> ins_third]
       = Return [ins_third, set_third]"
proof -
  have st: "state demo_instance = demo_state"
    by (simp add: demo_instance_def)
  have ops:
    "action set_name = Set" "obj set_name = JStr ''N''" "key set_name = Some ''name''"
    "val set_name = JStr ''Bob''" "elem set_name = None"
    "action set_second = Set" "obj set_second = JStr ''L''" "key set_second = Some ''a:2''"
    "val set_second = JStr ''new''" "elem set_second = None"
    "action set_third = Set" "obj set_third = JStr ''L''" "key set_third = Some ''a:3''"
    "val set_third = JStr ''el''" "elem set_third = None" "key ins_third = Some ''a:2''"
    by (simp_all add: set_name_def set_second_def set_third_def ins_third_def mkop_def)
  have tc: "ops third_change = [ins_third, set_third]" "actor third_change = ''a''"
    by (simp_all add: third_change_def)
  have i3: "mkop Ins (JStr ''L'') (Some ''a:2'') Undefined (Some 3) = ins_third"
    by (simp add: ins_third_def)
  have n1: "[ins_third, set_third] ! 1 = set_third"
    by simp
  have np: "''a:2'' \<notin> set Object_prototype"
    by (simp add: Object_prototype_def)
  have ie: "insert_elem set_third demo_instance ''a'' = Return 3"
    by (rule insert_elem_own_key [where a = "''a''"]) (simp_all add: ops show_int_digits safe_small)
  have up: "set_third\<lparr>key := Some ''a:3''\<rparr> = set_third"
    by (simp add: set_third_def mkop_def)
  from roundtrip_set_del [where ?X1.0 = set_name and ?k1.0 = "''name''" and ?c1.0 = "''N''"
      and ?i1.0 = demo_instance and ?u1.0 = "\<lambda>name ns. name" and ?g1.0 = third_change
      and ?n1.0 = 0 and ?e1.0 = Map.empty
      and ?X2.0 = set_second and ?k2.0 = "''a:2''" and ?e2.0 = Map.empty and ?c2.0 = "''L''"
      and ?i2.0 = demo_instance
      and ?es2.0 = "[(''a:1'', JStr ''x''), (''a:2'', JStr ''y'')]"
      and ?u2.0 = "\<lambda>name ns. name" and ?g2.0 = third_change and ?n2.0 = 0
      and ?X3.0 = set_third and ?k3.0 = "''a:3''" and ?e3.0 = "[''a:3'' \<mapsto> ins_third]"
      and cached = ins_third and prevKey = "''a:2''" and ?c3.0 = "''L''"
      and ?i3.0 = demo_instance
      and ?es3.0 = "[(''a:1'', JStr ''x''), (''a:2'', JStr ''y'')]"
      and ?n3.0 = 1 and ?g3.0 = third_change and ?u3.0 = "\<lambda>name ns. name" and ?m3.0 = 3]
  show ?thesis
    by (simp add: st ops tc demo_types demo_linked demo_elemIds is_scalar_def show_int_digits
        i3 n1 np ie up safe_small del: One_nat_def)
qed

text \<open>
  C1 as stated fails: the key \<open>a/b\<close> on the root map is written into the path as it
  is and read back as the key \<open>b\<close> of the object at \<open>/a\<close>, which does not exist; the op
  that comes back has \<open>obj = null\<close>.
\<close>

theorem roundtrip_slash_key:
  "roundtrip (\<lambda>name ns. name) third_change 0 set_slash demo_instance Map.empty
     = Return [mkop Set Null (Some ''b'') (JStr ''v'') None]
   \<and> [mkop Set Null (Some ''b'') (JStr ''v'') None] \<noteq> [set_slash]"
proof -
  have otp: "opToPatch set_slash demo_instance Map.empty
     = Return ([\<lparr>pop = ''replace'', path = ''/a/b'', pvalue = JStr ''v''\<rparr>], Map.empty)"
    by (simp add: opToPatch_def buildPath_def key_cached_def Let_def set_slash_def mkop_def
        demo_instance_def demo_types getMapValue_def demo_root getPath_root demo_root_keys_def)
  have ga: "getObjId demo_state ''/a'' = Return Null"
    by (simp add: getObjId_def demo_types demo_root demo_keys)
  have nt: "getObjType demo_state Null = object_t"
    by (simp add: getObjType_def byObject_def)
  have "patchToOps (\<lambda>name ns. name)
          [\<lparr>pop = ''replace'', path = ''/a/b'', pvalue = JStr ''v''\<rparr>] third_change 0 demo_instance
        = Return [mkop Set Null (Some ''b'') (JStr ''v'') None]"
    by (simp add: patchToOps_def patchop_ops_def Let_def patch_action_def is_scalar_def
        parent_obj_def demo_instance_def ga nt Object_prototype_def)
  with otp show ?thesis
    by (simp add: roundtrip_def set_slash_def mkop_def)
qed

text \<open>
  C2. Phantom invisibility: whatever the engine, its libraries and the call, a patch
  returned by the exported \<open>applyChanges\<close>, \<open>applyLocalChange\<close> or \<open>getPatch\<close> has no
  entry for the phantom actor in its \<open>clock\<close> and none in its \<open>deps\<close>.
\<close>

theorem phantom_invisible:
  "(applyChanges n L doc changes = Return (doc1, p1) \<longrightarrow>
      (\<forall>c. pclock p1 = Some c \<longrightarrow> c CAMBRIA_MAGIC_ACTOR = None) \<and>
      (\<forall>d. pdeps p1 = Some d \<longrightarrow> d CAMBRIA_MAGIC_ACTOR = None))
   \<and> (applyLocalChange L doc request = Return (doc2, p2, block) \<longrightarrow>
      (\<forall>c. pclock p2 = Some c \<longrightarrow> c CAMBRIA_MAGIC_ACTOR = None) \<and>
      (\<forall>d. pdeps p2 = Some d \<longrightarrow> d CAMBRIA_MAGIC_ACTOR = None))
   \<and> (getPatch n L doc = Return (doc3, p3) \<longrightarrow>
      (\<forall>c. pclock p3 = Some c \<longrightarrow> c CAMBRIA_MAGIC_ACTOR = None) \<and>
      (\<forall>d. pdeps p3 = Some d \<longrightarrow> d CAMBRIA_MAGIC_ACTOR = None))"
proof (intro conjI impI)
  assume "applyChanges n L doc changes = Return (doc1, p1)"
  then obtain q where q: "p1 = scrub q"
    by (auto simp: applyChanges_def bind_Return_iff)
  show "\<forall>c. pclock p1 = Some c \<longrightarrow> c CAMBRIA_MAGIC_ACTOR = None"
    unfolding q using scrub_clock by blast
  show "\<forall>d. pdeps p1 = Some d \<longrightarrow> d CAMBRIA_MAGIC_ACTOR = None"
    unfolding q using scrub_deps by blast
next
  assume "applyLocalChange L doc request = Return (doc2, p2, block)"
  then obtain q where q: "p2 = scrub q"
    by (auto simp: applyLocalChange_def bind_Return_iff)
  show "\<forall>c. pclock p2 = Some c \<longrightarrow> c CAMBRIA_MAGIC_ACTOR = None"
    unfolding q using scrub_clock by blast
  show "\<forall>d. pdeps p2 = Some d \<longrightarrow> d CAMBRIA_MAGIC_ACTOR = None"
    unfolding q using scrub_deps by blast
next
  assume "getPatch n L doc = Return (doc3, p3)"
  then obtain q where q: "p3 = scrub q"
    by (auto simp: getPatch_def bind_Return_iff)
  show "\<forall>c. pclock p3 = Some c \<longrightarrow> c CAMBRIA_MAGIC_ACTOR = None"
    unfolding q using scrub_clock by blast
  show "\<forall>d. pdeps p3 = Some d \<longrightarrow> d CAMBRIA_MAGIC_ACTOR = None"
    unfolding q using scrub_deps by blast
qed

text \<open>
  On the small engine the three calls return, and the backend's clock, which holds the
  phantom actor, comes out without it.
\<close>

theorem phantom_invisible_witness:
  "applyChanges 0 stub_lib stub_engine [] =
     Return (stub_engine\<lparr>instances := [''v1'' \<mapsto> stub_booted\<lparr>clock := Map.empty, ideps := Map.empty\<rparr>]\<rparr>,
             stub_patch [JStr CAMBRIA_MAGIC_ACTOR] Map.empty)
   \<and> Map.empty CAMBRIA_MAGIC_ACTOR = (None :: int option)
   \<and> applyLocalChange stub_lib stub_engine stub_change =
     Return (stub_engine_local [''a'' \<mapsto> 1],
             stub_patch [JStr CAMBRIA_MAGIC_ACTOR, JStr ''a''] [''a'' \<mapsto> 1],
             stub_block)
   \<and> [''a'' \<mapsto> 1::int] CAMBRIA_MAGIC_ACTOR = None
   \<and> getPatch 0 stub_lib stub_engine = Return (stub_engine_booted, stub_patch [] Map.empty)"
  using phantom_invisible [of 0 stub_lib stub_engine "[]"
      "stub_engine\<lparr>instances := [''v1'' \<mapsto> stub_booted\<lparr>clock := Map.empty, ideps := Map.empty\<rparr>]\<rparr>"
      "stub_patch [JStr CAMBRIA_MAGIC_ACTOR] Map.empty"
      stub_change
      "stub_engine_local [''a'' \<mapsto> 1]"
      "stub_patch [JStr CAMBRIA_MAGIC_ACTOR, JStr ''a''] [''a'' \<mapsto> 1]"
      stub_block
      stub_engine_booted "stub_patch [] Map.empty"]
    stub_applyChanges stub_applyLocalChange stub_getPatch
  by (simp add: stub_patch_def)

text \<open>
  C3 (amended). Idempotence of block application: when \<open>applyChanges([B])\<close> has
  returned and the primary shadow's clock entry for the actor of \<open>B\<close> is then at least
  the \<open>seq\<close> of \<open>B\<close>, and the backend answers the empty change list with the same
  state, no diffs, and the clock and deps the shadow holds, a second
  \<open>applyChanges([B])\<close> returns the engine as it was (primary shadow, history and
  all) with a patch whose diff list is empty: \<open>B\<close> is filtered out.
\<close>

theorem reapply_is_noop:
  assumes "CambriaBackend_applyChanges n L e0 [B] = Return (e1, p1)"
    and "bseq B \<le> or0 (clock (primaryInstance L e1)) (bactor B)"
    and "Backend_applyChanges L (state (primaryInstance L e1)) []
           = Return (state (primaryInstance L e1), p0)"
    and "diffs p0 = []"
    and "(case pclock p0 of None \<Rightarrow> Map.empty | Some c \<Rightarrow> c) = clock (primaryInstance L e1)"
    and "(case pdeps p0 of None \<Rightarrow> Map.empty | Some d \<Rightarrow> d) = ideps (primaryInstance L e1)"
  shows "CambriaBackend_applyChanges m L e1 [B] = Return (e1, p0) \<and> diffs p0 = []"
proof -
  obtain inst ea where g: "getInstance L e0 (eschema e0) = (inst, ea)"
    by (cases "getInstance L e0 (eschema e0)")
  let ?f = "filter (\<lambda>block. bseq block > or0 (clock inst) (bactor block)) [B]"
  let ?e2 = "ea\<lparr>history := history ea @ ?f\<rparr>"
  from assms(1) g obtain ni nls where
    a: "applySchemaChanges n L ?f inst (lensState ?e2) (history ?e2) = Return (ni, p1, nls)"
    and e1: "e1 = ?e2\<lparr>instances := (instances ?e2)(eschema e0 \<mapsto> ni), lensState := nls\<rparr>"
    by (auto simp: CambriaBackend_applyChanges_def Let_def bind_Return_iff)
  have sch: "eschema e1 = eschema e0"
    using e1 eschema_getInstance [of L e0 "eschema e0"] g by simp
  have pres: "instances e1 (eschema e1) = Some ni"
    using e1 sch by simp
  have prim: "primaryInstance L e1 = ni"
    by (simp add: primaryInstance_def getInstance_present [OF pres])
  have boot: "bootstrapped ni"
    using a by (rule applySchemaChanges_bootstrapped)
  have gi: "getInstance L e1 (eschema e1) = (ni, e1)"
    by (rule getInstance_present [OF pres])
  have f: "filter (\<lambda>block. bseq block > or0 (clock ni) (bactor block)) [B] = []"
    using assms(2) prim by simp
  have ac: "applyChangesToInstance L ni [] = Return (ni, p0)"
    using assms(3,5,6) prim boot
    by (simp add: applyChangesToInstance_def Instance_rebuild)
  have sc: "applySchemaChanges m L [] ni (lensState e1) (history e1)
              = Return (ni, p0, lensState e1)"
    using boot ac by simp
  have same: "e1\<lparr>instances := (instances e1)(eschema e1 \<mapsto> ni), lensState := lensState e1\<rparr> = e1"
    using pres by (simp add: map_upd_triv)
  have "CambriaBackend_applyChanges m L e1 [B] = Return (e1, p0)"
    unfolding CambriaBackend_applyChanges_def Let_def gi prod.case f
    using sc same by simp
  with assms(4) show ?thesis by simp
qed

theorem reapply_is_noop_witness:
  "CambriaBackend_applyChanges 0 ready_lib stub_engine [stub_block] =
     Return (ready_engine,
             stub_patch [JStr CAMBRIA_MAGIC_ACTOR, JStr ''a''] [CAMBRIA_MAGIC_ACTOR \<mapsto> 1, ''a'' \<mapsto> 1])
   \<and> bseq stub_block \<le> or0 (clock (primaryInstance ready_lib ready_engine)) (bactor stub_block)
   \<and> CambriaBackend_applyChanges 0 ready_lib ready_engine [stub_block] =
     Return (ready_engine, stub_patch [] [CAMBRIA_MAGIC_ACTOR \<mapsto> 1, ''a'' \<mapsto> 1])
   \<and> diffs (stub_patch [] [CAMBRIA_MAGIC_ACTOR \<mapsto> 1, ''a'' \<mapsto> 1]) = []"
proof -
  have prim: "primaryInstance ready_lib ready_engine = ready_instance"
    by (simp add: primaryInstance_def getInstance_def ready_engine_def stub_engine_def)
  have h2: "bseq stub_block \<le> or0 (clock (primaryInstance ready_lib ready_engine)) (bactor stub_block)"
    by (simp add: prim ready_instance_def stub_block_def or0_def)
  have h3: "Backend_applyChanges ready_lib (state (primaryInstance ready_lib ready_engine)) []
      = Return (state (primaryInstance ready_lib ready_engine),
                stub_patch [] [CAMBRIA_MAGIC_ACTOR \<mapsto> 1, ''a'' \<mapsto> 1])"
    by (simp add: ready_lib_def)
  have h4: "diffs (stub_patch [] [CAMBRIA_MAGIC_ACTOR \<mapsto> 1, ''a'' \<mapsto> 1]) = []"
    by (simp add: stub_patch_def)
  have h5: "(case pclock (stub_patch [] [CAMBRIA_MAGIC_ACTOR \<mapsto> 1, ''a'' \<mapsto> 1]) of
               None \<Rightarrow> Map.empty | Some c \<Rightarrow> c) = clock (primaryInstance ready_lib ready_engine)"
    by (simp add: prim stub_patch_def ready_instance_def)
  have h6: "(case pdeps (stub_patch [] [CAMBRIA_MAGIC_ACTOR \<mapsto> 1, ''a'' \<mapsto> 1]) of
               None \<Rightarrow> Map.empty | Some d \<Rightarrow> d) = ideps (primaryInstance ready_lib ready_engine)"
    by (simp add: prim stub_patch_def ready_instance_def)
  from reapply_is_noop [OF ready_first h2 h3 h4 h5 h6, of 0] ready_first h2 show ?thesis
    by simp
qed

text \<open>
  C3 as stated fails: the backend holds \<open>waiting_block\<close> back, the primary shadow's
  clock has no entry for its actor after the first call, the block passes the filter
  again and is appended to the history a second time.
\<close>

theorem reapply_of_held_block_grows_history:
  "CambriaBackend_applyChanges 0 held_lib stub_engine_booted [waiting_block]
     = Return (held_engine [waiting_block], stub_patch [] [CAMBRIA_MAGIC_ACTOR \<mapsto> 1])
   \<and> CambriaBackend_applyChanges 0 held_lib (held_engine [waiting_block]) [waiting_block]
     = Return (held_engine [waiting_block, waiting_block], stub_patch [] [CAMBRIA_MAGIC_ACTOR \<mapsto> 1])
   \<and> history (held_engine [waiting_block]) = [waiting_block]
   \<and> history (held_engine [waiting_block, waiting_block]) = [waiting_block, waiting_block]"
proof -
  have a: "stub_engine_booted = stub_engine\<lparr>history := [], instances := [''v1'' \<mapsto> stub_booted]\<rparr>"
    by (simp add: stub_engine_booted_def stub_engine_def)
  have b: "held_engine [waiting_block] = stub_engine\<lparr>history := [waiting_block],
      instances := [''v1'' \<mapsto> stub_booted\<lparr>ielem := [CAMBRIA_MAGIC_ACTOR \<mapsto> 0, ''a'' \<mapsto> 0]\<rparr>]\<rparr>"
    by (simp add: held_engine_def)
  have 1: "CambriaBackend_applyChanges 0 held_lib stub_engine_booted [waiting_block]
     = Return (held_engine [waiting_block], stub_patch [] [CAMBRIA_MAGIC_ACTOR \<mapsto> 1])"
    unfolding a using held_apply [of stub_booted "[]"] by simp
  have 2: "CambriaBackend_applyChanges 0 held_lib (held_engine [waiting_block]) [waiting_block]
     = Return (held_engine [waiting_block, waiting_block], stub_patch [] [CAMBRIA_MAGIC_ACTOR \<mapsto> 1])"
    unfolding b
    using held_apply [of "stub_booted\<lparr>ielem := [CAMBRIA_MAGIC_ACTOR \<mapsto> 0, ''a'' \<mapsto> 0]\<rparr>" "[waiting_block]"]
    by simp
  from 1 2 show ?thesis
    by (simp add: held_engine_def)
qed

text \<open>
  C4 (amended). For a \<open>set\<close> op with a key, when \<open>getPath\<close> returns. On a map,
  \<open>opToPatch\<close> emits \<open>add\<close> when the current value at the key is \<open>null\<close>, and
  \<open>replace\<close> in every other case: when the key holds a value that is not \<open>null\<close> and
  when the key is absent. On a list, when \<open>findIndexOfElem\<close> returns: with the key not
  in the element cache, and not a name that every object inherits, it emits \<open>replace\<close>
  at the index of the key; with a non-empty key in the element cache (the cached op
  having a key), it emits \<open>add\<close> at the index one past the cached op's key and
  removes the key from the cache.
\<close>

theorem set_op_patch:
  "(action o1 = Set \<and> getObjType (state i1) (obj o1) = object_t \<and> key o1 = Some k1
      \<and> getPath (state i1) (obj o1) = Return g1
      \<and> getMapValue (state i1) (obj o1) k1 = Null \<longrightarrow>
      opToPatch o1 i1 c1 =
        Return ([\<lparr>pop = ''add'',
                  path = CHR ''/'' # join CHR ''/'' ((case g1 of None \<Rightarrow> [] | Some q \<Rightarrow> q) @ [k1]),
                  pvalue = val o1\<rparr>], c1))
   \<and> (action o2 = Set \<and> getObjType (state i2) (obj o2) = object_t \<and> key o2 = Some k2
      \<and> getPath (state i2) (obj o2) = Return g2
      \<and> getMapValue (state i2) (obj o2) k2 \<noteq> Null \<longrightarrow>
      opToPatch o2 i2 c2 =
        Return ([\<lparr>pop = ''replace'',
                  path = CHR ''/'' # join CHR ''/'' ((case g2 of None \<Rightarrow> [] | Some q \<Rightarrow> q) @ [k2]),
                  pvalue = val o2\<rparr>], c2))
   \<and> (action o3 = Set \<and> getObjType (state i3) (obj o3) = list_t \<and> key o3 = Some k3
      \<and> c3 k3 = None \<and> k3 \<notin> set Object_prototype
      \<and> getPath (state i3) (obj o3) = Return g3
      \<and> findIndexOfElem (state i3) (obj o3) k3 = Return n3 \<longrightarrow>
      opToPatch o3 i3 c3 =
        Return ([\<lparr>pop = ''replace'',
                  path = CHR ''/'' # join CHR ''/''
                           ((case g3 of None \<Rightarrow> [] | Some q \<Rightarrow> q) @ [show_int n3]),
                  pvalue = val o3\<rparr>], c3))
   \<and> (action o4 = Set \<and> getObjType (state i4) (obj o4) = list_t \<and> key o4 = Some k4
      \<and> k4 \<noteq> [] \<and> c4 k4 = Some cached \<and> key cached = Some prevKey
      \<and> getPath (state i4) (obj o4) = Return g4
      \<and> findIndexOfElem (state i4) (obj o4) prevKey = Return n4 \<longrightarrow>
      opToPatch o4 i4 c4 =
        Return ([\<lparr>pop = ''add'',
                  path = CHR ''/'' # join CHR ''/''
                           ((case g4 of None \<Rightarrow> [] | Some q \<Rightarrow> q) @ [show_int (n4 + 1)]),
                  pvalue = val o4\<rparr>], c4(k4 := None)))"
proof (intro conjI impI)
  assume "action o1 = Set \<and> getObjType (state i1) (obj o1) = object_t \<and> key o1 = Some k1
      \<and> getPath (state i1) (obj o1) = Return g1
      \<and> getMapValue (state i1) (obj o1) k1 = Null"
  then show "opToPatch o1 i1 c1 =
        Return ([\<lparr>pop = ''add'',
                  path = CHR ''/'' # join CHR ''/'' ((case g1 of None \<Rightarrow> [] | Some q \<Rightarrow> q) @ [k1]),
                  pvalue = val o1\<rparr>], c1)"
    by (simp add: opToPatch_def buildPath_def Let_def)
next
  assume "action o2 = Set \<and> getObjType (state i2) (obj o2) = object_t \<and> key o2 = Some k2
      \<and> getPath (state i2) (obj o2) = Return g2
      \<and> getMapValue (state i2) (obj o2) k2 \<noteq> Null"
  then show "opToPatch o2 i2 c2 =
        Return ([\<lparr>pop = ''replace'',
                  path = CHR ''/'' # join CHR ''/'' ((case g2 of None \<Rightarrow> [] | Some q \<Rightarrow> q) @ [k2]),
                  pvalue = val o2\<rparr>], c2)"
    by (simp add: opToPatch_def buildPath_def Let_def)
next
  assume "action o3 = Set \<and> getObjType (state i3) (obj o3) = list_t \<and> key o3 = Some k3
      \<and> c3 k3 = None \<and> k3 \<notin> set Object_prototype
      \<and> getPath (state i3) (obj o3) = Return g3
      \<and> findIndexOfElem (state i3) (obj o3) k3 = Return n3"
  then show "opToPatch o3 i3 c3 =
        Return ([\<lparr>pop = ''replace'',
                  path = CHR ''/'' # join CHR ''/''
                           ((case g3 of None \<Rightarrow> [] | Some q \<Rightarrow> q) @ [show_int n3]),
                  pvalue = val o3\<rparr>], c3)"
    by (simp add: opToPatch_def buildPath_def key_cached_def Let_def)
next
  assume "action o4 = Set \<and> getObjType (state i4) (obj o4) = list_t \<and> key o4 = Some k4
      \<and> k4 \<noteq> [] \<and> c4 k4 = Some cached \<and> key cached = Some prevKey
      \<and> getPath (state i4) (obj o4) = Return g4
      \<and> findIndexOfElem (state i4) (obj o4) prevKey = Return n4"
  then show "opToPatch o4 i4 c4 =
        Return ([\<lparr>pop = ''add'',
                  path = CHR ''/'' # join CHR ''/''
                           ((case g4 of None \<Rightarrow> [] | Some q \<Rightarrow> q) @ [show_int (n4 + 1)]),
                  pvalue = val o4\<rparr>], c4(k4 := None))"
    by (simp add: opToPatch_def buildPath_def key_cached_def Let_def)
qed

text \<open>
  On the document with lists: a \<open>set\<close> of \<open>note\<close>, which holds \<open>null\<close>; of \<open>author\<close>,
  which holds a string; of \<open>title\<close>, which the root does not have; of the second
  element of \<open>tags\<close>; and of the element \<open>a:3\<close> that was inserted after it.
\<close>

theorem set_op_patch_witness:
  "getMapValue (state demo_instance) (JStr ROOT_ID) ''note'' = Null
   \<and> opToPatch set_note demo_instance Map.empty
       = Return ([\<lparr>pop = ''add'', path = ''/note'', pvalue = JStr ''Joe''\<rparr>], Map.empty)
   \<and> getMapValue (state demo_instance) (JStr ''M'') ''author'' = JStr ''Klaus''
   \<and> opToPatch set_author demo_instance Map.empty
       = Return ([\<lparr>pop = ''replace'', path = ''/details/author'', pvalue = JStr ''Kim''\<rparr>], Map.empty)
   \<and> getMapValue (state demo_instance) (JStr ROOT_ID) ''title'' = Undefined
   \<and> opToPatch set_title demo_instance Map.empty
       = Return ([\<lparr>pop = ''replace'', path = ''/title'', pvalue = JStr ''T''\<rparr>], Map.empty)
   \<and> ''a:2'' \<notin> set Object_prototype
   \<and> findIndexOfElem (state demo_instance) (JStr ''L'') ''a:2'' = Return 1
   \<and> opToPatch set_second demo_instance Map.empty
       = Return ([\<lparr>pop = ''replace'', path = ''/tags/1'', pvalue = JStr ''new''\<rparr>], Map.empty)
   \<and> opToPatch set_third demo_instance [''a:3'' \<mapsto> ins_third]
       = Return ([\<lparr>pop = ''add'', path = ''/tags/2'', pvalue = JStr ''el''\<rparr>],
                 [''a:3'' \<mapsto> ins_third](''a:3'' := None))"
proof -
  have st: "state demo_instance = demo_state"
    by (simp add: demo_instance_def)
  have ops:
    "action set_note = Set" "obj set_note = JStr ROOT_ID" "key set_note = Some ''note''"
    "val set_note = JStr ''Joe''"
    "action set_author = Set" "obj set_author = JStr ''M''" "key set_author = Some ''author''"
    "val set_author = JStr ''Kim''"
    "action set_title = Set" "obj set_title = JStr ROOT_ID" "key set_title = Some ''title''"
    "val set_title = JStr ''T''"
    "action set_second = Set" "obj set_second = JStr ''L''" "key set_second = Some ''a:2''"
    "val set_second = JStr ''new''"
    "action set_third = Set" "obj set_third = JStr ''L''" "key set_third = Some ''a:3''"
    "val set_third = JStr ''el''" "key ins_third = Some ''a:2''"
    by (simp_all add: set_note_def set_author_def set_title_def set_second_def set_third_def
        ins_third_def mkop_def)
  have pr: "''a:2'' \<notin> set Object_prototype"
    by (simp add: Object_prototype_def)
  from set_op_patch [of set_note demo_instance "''note''" "Some []" Map.empty
      set_author demo_instance "''author''" "Some [''details'']" Map.empty
      set_second demo_instance "''a:2''" Map.empty "Some [''tags'']" 1
      set_third demo_instance "''a:3''" "[''a:3'' \<mapsto> ins_third]" ins_third "''a:2''"
      "Some [''tags'']" 1]
    set_op_patch [of set_note demo_instance "''note''" "Some []" Map.empty
      set_title demo_instance "''title''" "Some []" Map.empty
      set_second demo_instance "''a:2''" Map.empty "Some [''tags'']" 1
      set_third demo_instance "''a:3''" "[''a:3'' \<mapsto> ins_third]" ins_third "''a:2''"
      "Some [''tags'']" 1]
  show ?thesis
    by (simp add: st ops pr demo_types demo_values demo_paths demo_index getPath_root
        show_int_digits)
qed

text \<open>
  C4 as stated fails, both ways: the key \<open>note\<close> is present on the root map, with the
  value \<open>null\<close>, and the patch op is \<open>add\<close>, not \<open>replace\<close>; the key \<open>title\<close> is absent
  on the root map, and the patch op is \<open>replace\<close>, not \<open>add\<close>.
\<close>

theorem set_null_key_gives_add:
  "keys (the (opSet (state demo_instance) ROOT_ID)) ''note'' = [Null]
   \<and> getObjType (state demo_instance) (JStr ROOT_ID) = object_t
   \<and> opToPatch set_note demo_instance Map.empty
       = Return ([\<lparr>pop = ''add'', path = ''/note'', pvalue = JStr ''Joe''\<rparr>], Map.empty)
   \<and> keys (the (opSet (state demo_instance) ROOT_ID)) ''title'' = []
   \<and> opToPatch set_title demo_instance Map.empty
       = Return ([\<lparr>pop = ''replace'', path = ''/title'', pvalue = JStr ''T''\<rparr>], Map.empty)"
proof -
  have "opToPatch set_title demo_instance Map.empty
       = Return ([\<lparr>pop = ''replace'', path = ''/title'', pvalue = JStr ''T''\<rparr>], Map.empty)"
    by (simp add: opToPatch_def buildPath_def Let_def set_title_def mkop_def
        demo_instance_def demo_types demo_values getPath_root)
  then show ?thesis
    using demo_set_note demo_opSet(1)
    by (simp add: demo_instance_def demo_types demo_keys)
qed

text \<open>
  C5 (amended). Soft drop: for a \<open>replace\<close> patch op whose value passes the shape
  check (null, string, number, boolean, an array or the empty object), whose parent
  is a list of \<open>length\<close> elements and whose last path segment parses as an integer \<open>n\<close>
  other than \<open>-1\<close> with \<open>n \<ge> length\<close> or \<open>n < -length\<close>, the callback of \<open>patchToOps\<close>
  returns no ops and throws nothing; the result of \<open>patchToOps\<close> is that of the
  remaining patch ops. (The index \<open>-1\<close> is taken for the head of the list and an index
  from \<open>-length\<close> to \<open>-2\<close> is counted from the end: these emit a \<open>set\<close>.)
\<close>

theorem soft_drop:
  assumes "pop patchop = ''replace''"
    and "patch_action patchop (make_obj uuid origin opIndex i) pathCache = Return (act, acc, pc)"
    and "parent_obj (state inst) pc (join CHR ''/'' (butlast (split CHR ''/'' (path patchop))))
           = Return objId"
    and "getObjType (state inst) objId = list_t"
    and "elemIds_of (state inst) objId = Some es"
    and "parseInt (last (split CHR ''/'' (path patchop))) = Some n"
    and "n \<noteq> - 1"
    and "n < - int (length es) \<or> int (length es) \<le> n"
  shows "patchop_ops uuid origin opIndex inst pathCache i patchop = Return ([], pc)
         \<and> patchToOps_loop uuid origin opIndex inst pathCache i (patchop # rest)
             = patchToOps_loop uuid origin opIndex inst pc (Suc i) rest"
proof -
  have f: "findElemOfIndex (state inst) objId (Some n) = Return None"
    using assms(5,7,8) by (auto simp: findElemOfIndex_def SkipList_keyOf_def Let_def)
  have k: "list_key patchop origin opIndex inst objId (last (split CHR ''/'' (path patchop))) acc
             = Return None"
    using assms(1,6) f by (simp add: list_key_def)
  have "patchop_ops uuid origin opIndex inst pathCache i patchop = Return ([], pc)"
    using assms(2,3,4) k by (simp add: patchop_ops_def Let_def)
  then show ?thesis
    by (cases "patchToOps_loop uuid origin opIndex inst pc (Suc i) rest") simp_all
qed

text \<open>
  On the list \<open>tags\<close>, which has two elements: a \<open>replace\<close> at the index \<open>5\<close> and one at
  the index \<open>-3\<close>.
\<close>

theorem soft_drop_witness:
  "getObjType (state demo_instance) (JStr ''L'') = list_t
   \<and> elemIds_of (state demo_instance) (JStr ''L'') = Some [(''a:1'', JStr ''x''), (''a:2'', JStr ''y'')]
   \<and> patchop_ops (\<lambda>name ns. name) stub_change 0 demo_instance [[] \<mapsto> ROOT_ID] 0
         \<lparr>pop = ''replace'', path = ''/tags/5'', pvalue = JStr ''z''\<rparr>
       = Return ([], [[] \<mapsto> ROOT_ID])
   \<and> patchop_ops (\<lambda>name ns. name) stub_change 0 demo_instance [[] \<mapsto> ROOT_ID] 0
         \<lparr>pop = ''replace'', path = ''/tags/-3'', pvalue = JStr ''z''\<rparr>
       = Return ([], [[] \<mapsto> ROOT_ID])
   \<and> patchToOps (\<lambda>name ns. name)
         [\<lparr>pop = ''replace'', path = ''/tags/5'', pvalue = JStr ''z''\<rparr>] stub_change 0 demo_instance
       = Return []"
proof -
  let ?p = "\<lparr>pop = ''replace'', path = ''/tags/5'', pvalue = JStr ''z''\<rparr>"
  let ?q = "\<lparr>pop = ''replace'', path = ''/tags/-3'', pvalue = JStr ''z''\<rparr>"
  let ?es = "[(''a:1'', JStr ''x''), (''a:2'', JStr ''y'')]"
  have st: "state demo_instance = demo_state"
    by (simp add: demo_instance_def)
  have h1: "pop ?p = ''replace''" "pop ?q = ''replace''"
    by simp_all
  have h2: "patch_action ?p (make_obj (\<lambda>name ns. name) stub_change 0 0) [[] \<mapsto> ROOT_ID]
              = Return (Set, [], [[] \<mapsto> ROOT_ID])"
    "patch_action ?q (make_obj (\<lambda>name ns. name) stub_change 0 0) [[] \<mapsto> ROOT_ID]
              = Return (Set, [], [[] \<mapsto> ROOT_ID])"
    by (simp_all add: demo_patch_action_scalar is_scalar_def)
  have h3: "parent_obj (state demo_instance) [[] \<mapsto> ROOT_ID]
              (join CHR ''/'' (butlast (split CHR ''/'' (path ?p)))) = Return (JStr ''L'')"
    "parent_obj (state demo_instance) [[] \<mapsto> ROOT_ID]
              (join CHR ''/'' (butlast (split CHR ''/'' (path ?q)))) = Return (JStr ''L'')"
    by (simp_all add: parent_obj_def st demo_getObjId_tags Object_prototype_def)
  have h4: "getObjType (state demo_instance) (JStr ''L'') = list_t"
    by (simp add: st demo_types)
  have h5: "elemIds_of (state demo_instance) (JStr ''L'') = Some ?es"
    by (simp add: st demo_elemIds)
  have h6: "parseInt (last (split CHR ''/'' (path ?p))) = Some 5"
    "parseInt (last (split CHR ''/'' (path ?q))) = Some (- 3)"
    by (simp_all add: parseInt_digit)
  have h7: "(5::int) \<noteq> - 1" "(- 3::int) \<noteq> - 1"
    by simp_all
  have h8: "(5::int) < - int (length ?es) \<or> int (length ?es) \<le> 5"
    "(- 3::int) < - int (length ?es) \<or> int (length ?es) \<le> - 3"
    by simp_all
  from soft_drop [OF h1(1) h2(1) h3(1) h4 h5 h6(1) h7(1) h8(1), of "[]"]
    soft_drop [OF h1(2) h2(2) h3(2) h4 h5 h6(2) h7(2) h8(2), of "[]"] h4 h5
  show ?thesis
    by (simp add: patchToOps_def)
qed

text \<open>
  C5 as stated fails: a \<open>replace\<close> at the missing index 5 of the list \<open>tags\<close> whose
  value is the object \<open>{a: 1}\<close> throws a \<open>RangeError\<close>.
\<close>

theorem soft_drop_bad_value:
  "getObjId (state demo_instance) ''/tags'' = Return (JStr ''L'')
   \<and> getObjType (state demo_instance) (JStr ''L'') = list_t
   \<and> parseInt ''5'' = Some 5
   \<and> findElemOfIndex (state demo_instance) (JStr ''L'') (Some 5) = Return None
   \<and> patchToOps (\<lambda>name ns. name)
         [\<lparr>pop = ''replace'', path = ''/tags/5'', pvalue = JObj [(''a'', JNum 1)]\<rparr>]
         stub_change 0 demo_instance
       = Throw (RangeError ''bad value for patchop'')"
proof -
  have st: "state demo_instance = demo_state"
    by (simp add: demo_instance_def)
  have "patchToOps (\<lambda>name ns. name)
         [\<lparr>pop = ''replace'', path = ''/tags/5'', pvalue = JObj [(''a'', JNum 1)]\<rparr>]
         stub_change 0 demo_instance
       = Throw (RangeError ''bad value for patchop'')"
    by (simp add: patchToOps_def patchop_ops_def Let_def patch_action_def is_scalar_def)
  then show ?thesis
    by (simp add: st demo_getObjId_tags demo_types parseInt_digit demo_find)
qed



text \<open>
  C7. The op sorter on a change that overwrites the element \<open>a:1\<close> of one list and
  inserts the element \<open>a:1\<close> into another: the result is not a permutation of the
  ops. The \<open>set\<close> of the first list is taken as the reifying op of the \<open>ins\<close> and
  appears twice; the \<open>set\<close> that fills the inserted element is lost, and no error is
  thrown.
\<close>

theorem sortOps_drops_reifier:
  "sortOps two_lists_change
     = Return (two_lists_change\<lparr>ops := [overwrite_L1, insert_L2, overwrite_L1]\<rparr>)"
proof -
  have z: "zip [0 ..< length (ops two_lists_change)] (ops two_lists_change)
             = [(0, overwrite_L1), (Suc 0, insert_L2), (Suc (Suc 0), fill_L2)]"
    by (simp add: two_lists_change_def upt_rec numeral_2_eq_2)
  have s0: "sort_step ''a'' (0, overwrite_L1) ([(0, overwrite_L1), (Suc 0, insert_L2), (Suc (Suc 0), fill_L2)], [])
              = Return ([(0, overwrite_L1), (Suc 0, insert_L2), (Suc (Suc 0), fill_L2)], [(0, overwrite_L1)])"
    by (simp add: sort_step_def sort_ins_def sort_make_def is_make_def two_lists_ops)
  have s1: "sort_step ''a'' (Suc 0, insert_L2)
              ([(0, overwrite_L1), (Suc 0, insert_L2), (Suc (Suc 0), fill_L2)], [(0, overwrite_L1)])
              = Return ([(Suc 0, insert_L2), (Suc (Suc 0), fill_L2)],
                        [(0, overwrite_L1), (Suc 0, insert_L2), (0, overwrite_L1)])"
    by (simp add: sort_step_def sort_ins_def sort_make_def is_make_def two_lists_ops
        elem_string_def show_int_digits appendOp_def splice1_def)
  have "sortOps_loop ''a'' 0 [(0, overwrite_L1), (Suc 0, insert_L2), (Suc (Suc 0), fill_L2)] []
          = Return [(0, overwrite_L1), (Suc 0, insert_L2), (0, overwrite_L1)]"
    by (simp add: sortOps_loop.simps [of _ 0] sortOps_loop.simps [of _ "Suc 0"]
        sortOps_loop.simps [of _ "Suc (Suc 0)"] s0 s1)
  then show ?thesis
    by (simp add: sortOps_def z two_lists_change_def)
qed

text \<open>
  C8. Bootstrap construction: when the lens graph has a JSON schema for the instance's
  schema, \<open>bootstrap\<close> applies the empty lens stack to the root-existence patch under
  that schema, drops the first patch op, converts the rest with \<open>patchToOps\<close> against
  the instance, and wraps the ops in a change of the phantom actor with \<open>seq = 1\<close> and
  empty \<open>deps\<close>.
\<close>

theorem bootstrap_change:
  assumes "lensGraphSchema L (graph ls) (schema inst) = jsonschema7"
    and "jsonschema7 \<noteq> Undefined"
    and "applyLensToPatch L (JArr []) [\<lparr>pop = ''add'', path = [], pvalue = JObj []\<rparr>] jsonschema7
           = Return lensed"
  shows "bootstrap L inst ls =
           bind (patchToOps (v5 L) (drop 1 lensed)
                   \<lparr>actor = CAMBRIA_MAGIC_ACTOR, seq = 1, deps = Map.empty, message = [], ops = []\<rparr>
                   1 inst)
             (\<lambda>os. Return \<lparr>actor = ''0000000000'', seq = 1, deps = Map.empty,
                             message = [], ops = os\<rparr>)"
  using assms by (simp add: bootstrap_def Let_def urOp_def CAMBRIA_MAGIC_ACTOR_def)

theorem bootstrap_change_witness:
  "lensGraphSchema stub_lib (graph (lensState stub_engine)) (schema stub_instance) = JObj []
   \<and> JObj [] \<noteq> Undefined
   \<and> applyLensToPatch stub_lib (JArr []) [\<lparr>pop = ''add'', path = [], pvalue = JObj []\<rparr>] (JObj [])
       = Return [\<lparr>pop = ''add'', path = [], pvalue = JObj []\<rparr>, title_default]
   \<and> bootstrap stub_lib stub_instance (lensState stub_engine)
       = Return \<lparr>actor = ''0000000000'', seq = 1, deps = Map.empty, message = [],
                  ops = [mkop Set (JStr ROOT_ID) (Some ''title'') (JStr []) None]\<rparr>"
proof -
  have h1: "lensGraphSchema stub_lib (graph (lensState stub_engine)) (schema stub_instance) = JObj []"
    by (simp add: stub_lib_def)
  have h2: "JObj [] \<noteq> Undefined" by simp
  have h3: "applyLensToPatch stub_lib (JArr []) [\<lparr>pop = ''add'', path = [], pvalue = JObj []\<rparr>] (JObj [])
       = Return [\<lparr>pop = ''add'', path = [], pvalue = JObj []\<rparr>, title_default]"
    by (simp add: stub_lib_def urOp_def)
  have v: "v5 stub_lib = (\<lambda>name ns. name)"
    by (simp add: stub_lib_def)
  from bootstrap_change [OF h1 h2 h3] h1 h2 h3 show ?thesis
    by (simp add: v stub_patchToOps)
qed

text \<open>
  C9. First-change dependency injection: when \<open>CambriaBackend.applyLocalChange\<close> returns
  for a request with \<open>seq = 1\<close>, the change of the returned block is the request with
  \<open>deps['0000000000'] = 1\<close>, that block is the one appended to the history, and the
  primary instance's new state is what the backend returned for that change.
\<close>

theorem first_change_depends_on_phantom:
  assumes "seq request = 1"
    and "CambriaBackend_applyLocalChange L e request = Return (e', patch, block)"
  shows "bchange block = request\<lparr>deps := (deps request)(''0000000000'' \<mapsto> 1)\<rparr>
         \<and> deps (bchange block) ''0000000000'' = Some 1
         \<and> history e' = history e @ [block]
         \<and> (\<exists>st p0 i. Backend_applyLocalChange L st (bchange block) = Return (state i, p0)
                \<and> instances e' (eschema e') = Some i)"
proof -
  let ?known = "eschema e \<in> inDoc (lensState e)"
  let ?ls = "(if ?known then lensState e
                else (lensState e)\<lparr>inDoc := inDoc (lensState e) \<union> set (map lto (elenses e))\<rparr>)"
  let ?request = "inject_deps request"
  let ?block = "\<lparr>bschema = eschema e, lenses = (if ?known then [] else elenses e),
                   bchange = ?request, bactor = actor request, bseq = seq request\<rparr>"
  obtain inst e1 where g: "getInstance L (e\<lparr>lensState := ?ls\<rparr>) (eschema e) = (inst, e1)"
    by (cases "getInstance L (e\<lparr>lensState := ?ls\<rparr>) (eschema e)")
  have h1: "history e1 = history e"
    using history_getInstance [of L "e\<lparr>lensState := ?ls\<rparr>" "eschema e"] g by simp
  have s1: "eschema e1 = eschema e"
    using eschema_getInstance [of L "e\<lparr>lensState := ?ls\<rparr>" "eschema e"] g by simp
  let ?e2 = "e1\<lparr>history := history e1 @ [?block]\<rparr>"
  from assms(2) g obtain inst' bootdiffs newState p0 where
    be: "Backend_applyLocalChange L (state inst') ?request = Return (newState, p0)"
    and res: "(e', patch, block) =
        (?e2\<lparr>instances := (instances ?e2)(eschema e \<mapsto>
                               inst'\<lparr>state := newState,
                                     clock := (case pclock p0 of None \<Rightarrow> Map.empty | Some c \<Rightarrow> c),
                                     ideps := (case pdeps p0 of None \<Rightarrow> Map.empty | Some d \<Rightarrow> d)\<rparr>)\<rparr>,
                          p0\<lparr>diffs := bootdiffs @ diffs p0\<rparr>, ?block)"
    unfolding CambriaBackend_applyLocalChange_def Let_def
    by (simp add: bind_Return_iff) (auto simp: bind_Return_iff)
  from res have b: "block = ?block" by simp
  have "bchange block = request\<lparr>deps := (deps request)(CAMBRIA_MAGIC_ACTOR \<mapsto> 1)\<rparr>"
    using b assms(1) by (simp add: inject_deps_def)
  moreover have "history e' = history e @ [block]"
    using res h1 by simp
  moreover have "\<exists>st p0 i. Backend_applyLocalChange L st (bchange block) = Return (state i, p0)
                \<and> instances e' (eschema e') = Some i"
    using be res s1 b by auto
  ultimately show ?thesis by (simp add: CAMBRIA_MAGIC_ACTOR_def)
qed

theorem first_change_depends_on_phantom_witness:
  "seq stub_change = 1
   \<and> CambriaBackend_applyLocalChange stub_lib stub_engine stub_change
       = Return (stub_engine_local [CAMBRIA_MAGIC_ACTOR \<mapsto> 1, ''a'' \<mapsto> 1],
                 stub_patch [JStr CAMBRIA_MAGIC_ACTOR, JStr ''a''] [CAMBRIA_MAGIC_ACTOR \<mapsto> 1, ''a'' \<mapsto> 1],
                 stub_block)
   \<and> deps (bchange stub_block) ''0000000000'' = Some 1
   \<and> history (stub_engine_local [CAMBRIA_MAGIC_ACTOR \<mapsto> 1, ''a'' \<mapsto> 1])
       = history stub_engine @ [stub_block]"
proof -
  have h: "seq stub_change = 1"
    by (simp add: stub_change_def)
  from first_change_depends_on_phantom [OF h stub_local] h stub_local show ?thesis
    by simp
qed

text \<open>
  C10. Whenever the backend returns, \<open>applyChangesToInstance\<close> returns an instance built
  with \<open>bootstrapped = true\<close>, whatever the flag of the instance it was given and
  whatever the change list; so does \<open>applyOps\<close>, and every instance that either of them
  returns has the flag. An instance with \<open>bootstrapped = true\<close> is given no defaults
  change at any of the three places that bootstrap: \<open>applySchemaChanges\<close> applies to
  it the changes of the blocks alone, the loop over the blocks hands it to
  \<open>convertChange\<close> as it is, and \<open>applyLocalChange\<close> goes straight to the backend, with
  no bootstrap diffs in front of the patch.
\<close>

theorem always_bootstrapped:
  "(Backend_applyChanges L (state inst) changes = Return (st, p) \<longrightarrow>
      applyChangesToInstance L inst changes =
        Return (\<lparr>clock = (case pclock p of None \<Rightarrow> Map.empty | Some c \<Rightarrow> c),
                 schema = schema inst,
                 ideps = (case pdeps p of None \<Rightarrow> Map.empty | Some d \<Rightarrow> d),
                 ielem = foldl elem_step (ielem inst) changes,
                 bootstrapped = True,
                 state = st\<rparr>, p))
   \<and> (applyChangesToInstance L inst changes = Return (inst', p') \<longrightarrow> bootstrapped inst')
   \<and> (Backend_applyChanges L (state inst)
          [\<lparr>actor = act, seq = or0 (clock inst) act + 1, deps = ideps inst, message = [],
            ops = os\<rparr>] = Return (st2, p2) \<longrightarrow>
      applyOps L inst os act =
        Return \<lparr>clock = (case pclock p2 of None \<Rightarrow> Map.empty | Some c \<Rightarrow> c),
                schema = schema inst,
                ideps = (case pdeps p2 of None \<Rightarrow> Map.empty | Some d \<Rightarrow> d),
                ielem = elem_step (ielem inst)
                          \<lparr>actor = act, seq = or0 (clock inst) act + 1, deps = ideps inst,
                           message = [], ops = os\<rparr>,
                bootstrapped = True,
                state = st2\<rparr>)
   \<and> (applyOps L inst os act = Return inst'' \<longrightarrow> bootstrapped inst'')
   \<and> (bootstrapped inst \<longrightarrow>
        applySchemaChanges n L blocks inst ls hist =
          bind (blocks_loop n L inst hist blocks (ls, None, None, []))
            (\<lambda>(ls', fromI, toI, changesToApply).
              bind (applyChangesToInstance L inst changesToApply) (\<lambda>(newInstance, patch).
                Return (newInstance, patch, ls'))))
   \<and> (bschema block \<noteq> schema inst \<and> bootstrapped (case toI of Some t \<Rightarrow> t | None \<Rightarrow> inst) \<longrightarrow>
        blocks_loop n L inst hist (block # rest) (ls0, fromI, toI, cs) =
          bind (register_lenses L (lenses block) ls0) (\<lambda>ls.
            bind (case fromI of
                    Some f \<Rightarrow> Return f
                  | None \<Rightarrow>
                      bind (getInstanceAt n L (bschema block) (actor (bchange block))
                              (seq (bchange block)) ls hist) (\<lambda>(f, g). Return f))
              (\<lambda>fromInstance.
                bind (convertChange L block fromInstance
                        (case toI of Some t \<Rightarrow> t | None \<Rightarrow> inst) ls)
                  (\<lambda>(newChange, fromInstance', toInstance').
                    blocks_loop n L inst hist rest
                      (ls, Some fromInstance', Some toInstance', cs @ [newChange])))))
   \<and> (instances e (eschema e) = Some pinst \<and> bootstrapped pinst \<longrightarrow>
        CambriaBackend_applyLocalChange L e request =
          bind (Backend_applyLocalChange L (state pinst) (inject_deps request))
            (\<lambda>(newState, patch).
              Return (e\<lparr>lensState :=
                          (if eschema e \<in> inDoc (lensState e) then lensState e
                           else (lensState e)\<lparr>inDoc := inDoc (lensState e)
                                  \<union> set (map lto (elenses e))\<rparr>),
                        history := history e @
                          [\<lparr>bschema = eschema e,
                            lenses = (if eschema e \<in> inDoc (lensState e) then [] else elenses e),
                            bchange = inject_deps request, bactor = actor request,
                            bseq = seq request\<rparr>],
                        instances := (instances e)(eschema e \<mapsto>
                          pinst\<lparr>state := newState,
                                clock := (case pclock patch of None \<Rightarrow> Map.empty | Some c \<Rightarrow> c),
                                ideps := (case pdeps patch of None \<Rightarrow> Map.empty | Some d \<Rightarrow> d)\<rparr>)\<rparr>,
                      patch,
                      \<lparr>bschema = eschema e,
                       lenses = (if eschema e \<in> inDoc (lensState e) then [] else elenses e),
                       bchange = inject_deps request, bactor = actor request,
                       bseq = seq request\<rparr>)))"
proof (intro conjI impI)
  assume "Backend_applyChanges L (state inst) changes = Return (st, p)"
  then show "applyChangesToInstance L inst changes =
        Return (\<lparr>clock = (case pclock p of None \<Rightarrow> Map.empty | Some c \<Rightarrow> c),
                 schema = schema inst,
                 ideps = (case pdeps p of None \<Rightarrow> Map.empty | Some d \<Rightarrow> d),
                 ielem = foldl elem_step (ielem inst) changes,
                 bootstrapped = True,
                 state = st\<rparr>, p)"
    by (simp add: applyChangesToInstance_def)
next
  assume "applyChangesToInstance L inst changes = Return (inst', p')"
  then show "bootstrapped inst'"
    by (auto elim!: applyChangesToInstance_Return)
next
  assume "Backend_applyChanges L (state inst)
          [\<lparr>actor = act, seq = or0 (clock inst) act + 1, deps = ideps inst, message = [],
            ops = os\<rparr>] = Return (st2, p2)"
  then show "applyOps L inst os act =
        Return \<lparr>clock = (case pclock p2 of None \<Rightarrow> Map.empty | Some c \<Rightarrow> c),
                schema = schema inst,
                ideps = (case pdeps p2 of None \<Rightarrow> Map.empty | Some d \<Rightarrow> d),
                ielem = elem_step (ielem inst)
                          \<lparr>actor = act, seq = or0 (clock inst) act + 1, deps = ideps inst,
                           message = [], ops = os\<rparr>,
                bootstrapped = True,
                state = st2\<rparr>"
    by (simp add: applyOps_def applyChangesToInstance_def Let_def)
next
  assume a: "applyOps L inst os act = Return inst''"
  let ?c = "\<lparr>actor = act, seq = or0 (clock inst) act + 1, deps = ideps inst,
               message = [], ops = os\<rparr>"
  from a obtain q where "applyChangesToInstance L inst [?c] = Return (inst'', q)"
    by (cases "applyChangesToInstance L inst [?c]") (auto simp: applyOps_def Let_def)
  then show "bootstrapped inst''"
    by (auto elim!: applyChangesToInstance_Return)
next
  assume "bootstrapped inst"
  then show "applySchemaChanges n L blocks inst ls hist =
          bind (blocks_loop n L inst hist blocks (ls, None, None, []))
            (\<lambda>(ls', fromI, toI, changesToApply).
              bind (applyChangesToInstance L inst changesToApply) (\<lambda>(newInstance, patch).
                Return (newInstance, patch, ls')))"
    by simp
next
  assume "bschema block \<noteq> schema inst \<and> bootstrapped (case toI of Some t \<Rightarrow> t | None \<Rightarrow> inst)"
  then show "blocks_loop n L inst hist (block # rest) (ls0, fromI, toI, cs) =
          bind (register_lenses L (lenses block) ls0) (\<lambda>ls.
            bind (case fromI of
                    Some f \<Rightarrow> Return f
                  | None \<Rightarrow>
                      bind (getInstanceAt n L (bschema block) (actor (bchange block))
                              (seq (bchange block)) ls hist) (\<lambda>(f, g). Return f))
              (\<lambda>fromInstance.
                bind (convertChange L block fromInstance
                        (case toI of Some t \<Rightarrow> t | None \<Rightarrow> inst) ls)
                  (\<lambda>(newChange, fromInstance', toInstance').
                    blocks_loop n L inst hist rest
                      (ls, Some fromInstance', Some toInstance', cs @ [newChange]))))"
    by (simp add: Let_def)
next
  assume a: "instances e (eschema e) = Some pinst \<and> bootstrapped pinst"
  let ?ls = "(if eschema e \<in> inDoc (lensState e) then lensState e
              else (lensState e)\<lparr>inDoc := inDoc (lensState e) \<union> set (map lto (elenses e))\<rparr>)"
  have g: "getInstance L (e\<lparr>lensState := ?ls\<rparr>) (eschema e) = (pinst, e\<lparr>lensState := ?ls\<rparr>)"
    using a by (simp add: getInstance_def)
  show "CambriaBackend_applyLocalChange L e request =
          bind (Backend_applyLocalChange L (state pinst) (inject_deps request))
            (\<lambda>(newState, patch).
              Return (e\<lparr>lensState :=
                          (if eschema e \<in> inDoc (lensState e) then lensState e
                           else (lensState e)\<lparr>inDoc := inDoc (lensState e)
                                  \<union> set (map lto (elenses e))\<rparr>),
                        history := history e @
                          [\<lparr>bschema = eschema e,
                            lenses = (if eschema e \<in> inDoc (lensState e) then [] else elenses e),
                            bchange = inject_deps request, bactor = actor request,
                            bseq = seq request\<rparr>],
                        instances := (instances e)(eschema e \<mapsto>
                          pinst\<lparr>state := newState,
                                clock := (case pclock patch of None \<Rightarrow> Map.empty | Some c \<Rightarrow> c),
                                ideps := (case pdeps patch of None \<Rightarrow> Map.empty | Some d \<Rightarrow> d)\<rparr>)\<rparr>,
                      patch,
                      \<lparr>bschema = eschema e,
                       lenses = (if eschema e \<in> inDoc (lensState e) then [] else elenses e),
                       bchange = inject_deps request, bactor = actor request,
                       bseq = seq request\<rparr>))"
    unfolding CambriaBackend_applyLocalChange_def Let_def g prod.case
    using a
    by (cases "Backend_applyLocalChange L (state pinst) (inject_deps request)") auto
qed

text \<open>
  On the small engine: the fresh instance \<open>stub_instance\<close> has no flag, and comes back
  with it from \<open>applyChangesToInstance\<close> with the empty change list and from
  \<open>applyOps\<close> with no ops. The bootstrapped instance \<open>stub_booted\<close> goes through
  \<open>applySchemaChanges\<close>, through the loop over a block of the schema \<open>v0\<close>, and
  through \<open>applyLocalChange\<close>, whose patch has the diff of the local change only.
\<close>

theorem always_bootstrapped_witness:
  "\<not> bootstrapped stub_instance
   \<and> applyChangesToInstance stub_lib stub_instance []
       = Return (stub_booted\<lparr>ielem := Map.empty\<rparr>, stub_patch [] [CAMBRIA_MAGIC_ACTOR \<mapsto> 1])
   \<and> bootstrapped (stub_booted\<lparr>ielem := Map.empty\<rparr>)
   \<and> applyOps stub_lib stub_instance [] ''a'' = Return (stub_booted\<lparr>ielem := [''a'' \<mapsto> 0]\<rparr>)
   \<and> bootstrapped (stub_booted\<lparr>ielem := [''a'' \<mapsto> 0]\<rparr>)
   \<and> bootstrapped stub_booted
   \<and> applySchemaChanges 0 stub_lib [] stub_booted \<lparr>inDoc = {}, graph = Null\<rparr> []
       = Return (stub_booted, stub_patch [] [CAMBRIA_MAGIC_ACTOR \<mapsto> 1], \<lparr>inDoc = {}, graph = Null\<rparr>)
   \<and> bschema old_block \<noteq> schema stub_booted
   \<and> blocks_loop (Suc 0) stub_lib stub_booted [old_block] [old_block]
         (\<lparr>inDoc = {}, graph = Null\<rparr>, None, None, [])
       = Return (\<lparr>inDoc = {}, graph = Null\<rparr>, Some (stub_booted\<lparr>schema := ''v0''\<rparr>),
                 Some stub_booted, [old_change])
   \<and> instances stub_engine_booted (eschema stub_engine_booted) = Some stub_booted
   \<and> CambriaBackend_applyLocalChange stub_lib stub_engine_booted stub_change
       = Return (stub_engine_local [CAMBRIA_MAGIC_ACTOR \<mapsto> 1, ''a'' \<mapsto> 1],
                 stub_patch [JStr ''a''] [CAMBRIA_MAGIC_ACTOR \<mapsto> 1, ''a'' \<mapsto> 1],
                 stub_block)"
proof -
  let ?ls = "\<lparr>inDoc = {}, graph = Null\<rparr>"
  have h1: "Backend_applyChanges stub_lib (state stub_instance) []
              = Return (root_only, stub_patch [] [CAMBRIA_MAGIC_ACTOR \<mapsto> 1])"
    by (simp add: stub_lib_def stub_instance_def initInstance_def)
  have h2: "Backend_applyChanges stub_lib (state stub_instance)
              [\<lparr>actor = ''a'', seq = or0 (clock stub_instance) ''a'' + 1,
                deps = ideps stub_instance, message = [], ops = []\<rparr>]
              = Return (root_only, stub_patch [JStr ''a''] [CAMBRIA_MAGIC_ACTOR \<mapsto> 1])"
    by (simp add: stub_lib_def stub_instance_def initInstance_def)
  have h3: "bootstrapped stub_booted" "schema stub_booted = ''v1''" "bschema old_block = ''v0''"
    by (simp_all add: stub_booted_def old_block_def)
  have h4: "instances stub_engine_booted (eschema stub_engine_booted) = Some stub_booted"
    by (simp add: stub_engine_booted_def stub_engine_def)
  from always_bootstrapped [where L = stub_lib and inst = stub_instance and changes = "[]"
      and st = root_only and p = "stub_patch [] [CAMBRIA_MAGIC_ACTOR \<mapsto> 1]"
      and inst' = "stub_booted\<lparr>ielem := Map.empty\<rparr>"
      and p' = "stub_patch [] [CAMBRIA_MAGIC_ACTOR \<mapsto> 1]"
      and act = "''a''" and os = "[]" and ?st2.0 = root_only
      and ?p2.0 = "stub_patch [JStr ''a''] [CAMBRIA_MAGIC_ACTOR \<mapsto> 1]"
      and inst'' = "stub_booted\<lparr>ielem := [''a'' \<mapsto> 0]\<rparr>"]
    always_bootstrapped [where L = stub_lib and inst = stub_booted and n = 0 and blocks = "[]"
      and ls = ?ls and hist = "[]"]
    always_bootstrapped [where L = stub_lib and inst = stub_booted and n = "Suc 0"
      and hist = "[old_block]" and block = old_block and rest = "[]" and ?ls0.0 = ?ls
      and fromI = None and toI = None and cs = "[]"
      and e = stub_engine_booted and pinst = stub_booted and request = stub_change]
    h1 h2 h3 h4 stub_unbooted(2) stub_schema_booted stub_blocks_old stub_local_booted
  show ?thesis
    by (simp add: stub_instance_def initInstance_def stub_booted_def stub_patch_def
        elem_step_def or0_def)
qed

end
